theory Spec2Isabelle
  imports Complex_Main "HOL-Library.Word"
begin

unbundle bit_operations_syntax

chapter \<open>pcstats.c: the sensor acquisition engine of nexmacoro-macos\<close>

text \<open>
  A shallow embedding of \<^verbatim>\<open>Sources/CPcStats/pcstats.c\<close>. The C globals become
  the fields of one state record that every function takes and returns; everything
  outside the process (the SMC user client, the HID event system, libIOReport, the
  I/O registry, the clock, the simple system collectors) is a record of type
  \<open>world\<close> that describes what those interfaces answer at the time of a call.
\<close>

section \<open>C floating-point values\<close>

text \<open>
  A C \<^verbatim>\<open>float\<close> or \<^verbatim>\<open>double\<close> is modelled by what it denotes: a real number,
  one of the two infinities, or a NaN. Bit patterns are decoded by the IEEE-754
  rules (binary32 and binary64). Every arithmetic result and every conversion is
  rounded to the nearest value of its format, ties to even, and overflows to an
  infinity: binary32 for \<^verbatim>\<open>float\<close>, binary64 for \<^verbatim>\<open>double\<close>; an expression is
  evaluated in the format of its C type, one rounding for each operation. The sign
  of a zero and the payload of a NaN are not kept: they never influence a
  comparison, and the only zero divisor the program can meet is the conversion of
  an unsigned zero, which is positive.
\<close>

datatype cfloat = FVal real | FPosInf | FNegInf | FNaN

definition float_of_bits32 :: "32 word \<Rightarrow> cfloat" where
  "float_of_bits32 w =
     (let s = bit w 31;
          e = unat (drop_bit 23 w AND 0xFF);
          m = unat (w AND 0x7FFFFF)
      in if e = 255 then (if m = 0 then (if s then FNegInf else FPosInf) else FNaN)
         else let mag = (if e = 0 then real m / 2 ^ 149
                         else if 150 \<le> e then real (2 ^ 23 + m) * 2 ^ (e - 150)
                         else real (2 ^ 23 + m) / 2 ^ (150 - e))
              in FVal (if s then - mag else mag))"

text \<open>
  \<open>round_half_even M d\<close> is \<open>M / 2 ^ d\<close> rounded to the nearest integer, ties to
  even. \<open>narrow_magnitude M E\<close> is the binary32 value nearest to \<open>M * 2 ^ E\<close> for a
  binary64 significand \<open>M\<close> (at most 53 bits) and exponent \<open>E\<close>: the result keeps 24
  significant bits, its exponent is at least \<open>-149\<close>, and \<open>None\<close> is the overflow to
  an infinity.
\<close>

definition round_half_even :: "nat \<Rightarrow> nat \<Rightarrow> nat" where
  "round_half_even M d =
     (let a = M div 2 ^ d; r = M mod 2 ^ d; half = 2 ^ d div 2
      in if d = 0 then M
         else if half < r \<or> (r = half \<and> odd a) then a + 1 else a)"

definition narrow_magnitude :: "nat \<Rightarrow> int \<Rightarrow> real option" where
  "narrow_magnitude M E =
     (let q = max (- 149) (E + 29);
          k = round_half_even M (nat (q - E));
          v = (if 0 \<le> q then real k * 2 ^ nat q else real k / 2 ^ nat (- q))
      in if 2 ^ 128 \<le> v then None else Some v)"

definition float_of_double_bits :: "64 word \<Rightarrow> cfloat" where
  "float_of_double_bits w =
     (let s = bit w 63;
          e = unat (drop_bit 52 w AND 0x7FF);
          m = unat (w AND 0xFFFFFFFFFFFFF)
      in if e = 2047 then (if m = 0 then (if s then FNegInf else FPosInf) else FNaN)
         else case (if e = 0 then narrow_magnitude m (- 1074)
                    else narrow_magnitude (2 ^ 52 + m) (int e - 1075)) of
                None \<Rightarrow> (if s then FNegInf else FPosInf)
              | Some mag \<Rightarrow> FVal (if s then - mag else mag))"

text \<open>Comparisons of a float with a finite constant; every comparison with a NaN is false.\<close>

fun cf_gt :: "cfloat \<Rightarrow> real \<Rightarrow> bool" where
  "cf_gt (FVal v) c = (c < v)"
| "cf_gt FPosInf c = True"
| "cf_gt FNegInf c = False"
| "cf_gt FNaN c = False"

fun cf_lt :: "cfloat \<Rightarrow> real \<Rightarrow> bool" where
  "cf_lt (FVal v) c = (v < c)"
| "cf_lt FPosInf c = False"
| "cf_lt FNegInf c = True"
| "cf_lt FNaN c = False"

fun cf_eq :: "cfloat \<Rightarrow> real \<Rightarrow> bool" where
  "cf_eq (FVal v) c = (v = c)"
| "cf_eq FPosInf c = False"
| "cf_eq FNegInf c = False"
| "cf_eq FNaN c = False"

fun cf_neg :: "cfloat \<Rightarrow> cfloat" where
  "cf_neg (FVal v) = FVal (- v)"
| "cf_neg FPosInf = FNegInf"
| "cf_neg FNegInf = FPosInf"
| "cf_neg FNaN = FNaN"

subsection \<open>Rounding to a binary format\<close>

text \<open>
  \<open>pow2 q\<close> is \<open>2\<close> to the power \<open>q\<close>. \<open>binade n q x\<close> searches downwards from \<open>q\<close>,
  in at most \<open>n\<close> steps, for the largest exponent \<open>e\<close> with \<open>pow2 e \<le> x\<close>.
  \<open>round_even y\<close> is the integer nearest to \<open>y\<close>, the even one of two that are
  equally near.

  \<open>fp_round p emin emax x\<close> is the value of the binary format with \<open>p\<close> significant
  bits and exponents from \<open>emin\<close> to \<open>emax\<close> that is nearest to \<open>x\<close>: the magnitude is
  rounded to a multiple of the unit in the last place of its binade (of the lowest
  binade for a subnormal magnitude), and a magnitude that rounds to \<open>pow2 (emax + 1)\<close>
  or more becomes an infinity.
\<close>

definition pow2 :: "int \<Rightarrow> real" where
  "pow2 q = (if 0 \<le> q then 2 ^ nat q else 1 / 2 ^ nat (- q))"

fun binade :: "nat \<Rightarrow> int \<Rightarrow> real \<Rightarrow> int" where
  "binade 0 q x = q"
| "binade (Suc n) q x = (if pow2 q \<le> x then q else binade n (q - 1) x)"

definition round_even :: "real \<Rightarrow> int" where
  "round_even y =
     (let f = \<lfloor>y\<rfloor>; d = y - of_int f
      in if d < 1 / 2 then f else if 1 / 2 < d then f + 1 else if even f then f else f + 1)"

definition fp_round :: "nat \<Rightarrow> int \<Rightarrow> int \<Rightarrow> real \<Rightarrow> cfloat" where
  "fp_round p emin emax x =
     (let a = \<bar>x\<bar>;
          e = binade (nat (emax - emin)) emax a;
          q = e - int p + 1;
          v = of_int (round_even (a / pow2 q)) * pow2 q
      in if pow2 (emax + 1) \<le> v then (if x < 0 then FNegInf else FPosInf)
         else FVal (if x < 0 then - v else v))"

definition to_float :: "real \<Rightarrow> cfloat" where
  "to_float = fp_round 24 (- 126) 127"

definition to_double :: "real \<Rightarrow> cfloat" where
  "to_double = fp_round 53 (- 1022) 1023"

subsection \<open>Arithmetic\<close>

text \<open>
  Addition, multiplication and division of two values of one format; \<open>rnd\<close> is
  the rounding of that format. The cases with an infinity or a NaN are those of
  IEEE-754. A zero divisor counts as positive.
\<close>

fun fp_add :: "(real \<Rightarrow> cfloat) \<Rightarrow> cfloat \<Rightarrow> cfloat \<Rightarrow> cfloat" where
  "fp_add rnd (FVal a) (FVal b) = rnd (a + b)"
| "fp_add rnd FNaN y = FNaN"
| "fp_add rnd x FNaN = FNaN"
| "fp_add rnd FPosInf FNegInf = FNaN"
| "fp_add rnd FNegInf FPosInf = FNaN"
| "fp_add rnd FPosInf y = FPosInf"
| "fp_add rnd FNegInf y = FNegInf"
| "fp_add rnd x FPosInf = FPosInf"
| "fp_add rnd x FNegInf = FNegInf"

definition fp_inf :: "bool \<Rightarrow> cfloat" where
  "fp_inf negative = (if negative then FNegInf else FPosInf)"

fun fp_mul :: "(real \<Rightarrow> cfloat) \<Rightarrow> cfloat \<Rightarrow> cfloat \<Rightarrow> cfloat" where
  "fp_mul rnd (FVal a) (FVal b) = rnd (a * b)"
| "fp_mul rnd FNaN y = FNaN"
| "fp_mul rnd x FNaN = FNaN"
| "fp_mul rnd (FVal a) FPosInf = (if a = 0 then FNaN else fp_inf (a < 0))"
| "fp_mul rnd (FVal a) FNegInf = (if a = 0 then FNaN else fp_inf (0 < a))"
| "fp_mul rnd FPosInf (FVal b) = (if b = 0 then FNaN else fp_inf (b < 0))"
| "fp_mul rnd FNegInf (FVal b) = (if b = 0 then FNaN else fp_inf (0 < b))"
| "fp_mul rnd FPosInf FPosInf = FPosInf"
| "fp_mul rnd FPosInf FNegInf = FNegInf"
| "fp_mul rnd FNegInf FPosInf = FNegInf"
| "fp_mul rnd FNegInf FNegInf = FPosInf"

fun fp_div :: "(real \<Rightarrow> cfloat) \<Rightarrow> cfloat \<Rightarrow> cfloat \<Rightarrow> cfloat" where
  "fp_div rnd (FVal a) (FVal b) =
     (if b = 0 then (if a = 0 then FNaN else fp_inf (a < 0)) else rnd (a / b))"
| "fp_div rnd FNaN y = FNaN"
| "fp_div rnd x FNaN = FNaN"
| "fp_div rnd (FVal a) FPosInf = FVal 0"
| "fp_div rnd (FVal a) FNegInf = FVal 0"
| "fp_div rnd FPosInf (FVal b) = fp_inf (b < 0)"
| "fp_div rnd FNegInf (FVal b) = fp_inf (0 \<le> b)"
| "fp_div rnd FPosInf FPosInf = FNaN"
| "fp_div rnd FPosInf FNegInf = FNaN"
| "fp_div rnd FNegInf FPosInf = FNaN"
| "fp_div rnd FNegInf FNegInf = FNaN"

text \<open>The operations of \<^verbatim>\<open>float\<close> (prefix \<open>cf\<close>) and of \<^verbatim>\<open>double\<close> (prefix \<open>cd\<close>).\<close>

abbreviation cf_add :: "cfloat \<Rightarrow> cfloat \<Rightarrow> cfloat" where "cf_add \<equiv> fp_add to_float"
abbreviation cf_mul :: "cfloat \<Rightarrow> cfloat \<Rightarrow> cfloat" where "cf_mul \<equiv> fp_mul to_float"
abbreviation cf_div :: "cfloat \<Rightarrow> cfloat \<Rightarrow> cfloat" where "cf_div \<equiv> fp_div to_float"
abbreviation cd_add :: "cfloat \<Rightarrow> cfloat \<Rightarrow> cfloat" where "cd_add \<equiv> fp_add to_double"
abbreviation cd_mul :: "cfloat \<Rightarrow> cfloat \<Rightarrow> cfloat" where "cd_mul \<equiv> fp_mul to_double"
abbreviation cd_div :: "cfloat \<Rightarrow> cfloat \<Rightarrow> cfloat" where "cd_div \<equiv> fp_div to_double"

definition cf_sub :: "cfloat \<Rightarrow> cfloat \<Rightarrow> cfloat" where
  "cf_sub x y = cf_add x (cf_neg y)"

text \<open>
  The conversions of an integer to \<^verbatim>\<open>float\<close> and to \<^verbatim>\<open>double\<close>, and of a \<^verbatim>\<open>double\<close>
  to \<^verbatim>\<open>float\<close>.
\<close>

definition cf_of_int :: "int \<Rightarrow> cfloat" where
  "cf_of_int n = to_float (real_of_int n)"

definition cd_of_int :: "int \<Rightarrow> cfloat" where
  "cd_of_int n = to_double (real_of_int n)"

fun cf_of_double :: "cfloat \<Rightarrow> cfloat" where
  "cf_of_double (FVal a) = to_float a"
| "cf_of_double x = x"

section \<open>SMC: data structures and the value decoder\<close>

text \<open>
  \<^verbatim>\<open>memcpy(&f, data, 4)\<close> and \<^verbatim>\<open>memcpy(&d, data, 8)\<close> read the object representation in
  the byte order of the machine; macOS runs on little-endian processors only.
\<close>

definition le_word32 :: "8 word list \<Rightarrow> 32 word" where
  "le_word32 d = ucast (d ! 0) OR push_bit 8 (ucast (d ! 1)) OR
                 push_bit 16 (ucast (d ! 2)) OR push_bit 24 (ucast (d ! 3))"

definition le_word64 :: "8 word list \<Rightarrow> 64 word" where
  "le_word64 d = ucast (d ! 0) OR push_bit 8 (ucast (d ! 1)) OR
                 push_bit 16 (ucast (d ! 2)) OR push_bit 24 (ucast (d ! 3)) OR
                 push_bit 32 (ucast (d ! 4)) OR push_bit 40 (ucast (d ! 5)) OR
                 push_bit 48 (ucast (d ! 6)) OR push_bit 56 (ucast (d ! 7))"

text \<open>The four bytes that hold a binary32 value in memory (the inverse of \<open>le_word32\<close>).\<close>

definition bytes_of_word32 :: "32 word \<Rightarrow> 8 word list" where
  "bytes_of_word32 w =
     [ucast w, ucast (drop_bit 8 w), ucast (drop_bit 16 w), ucast (drop_bit 24 w)]"

definition str_to_fourcc :: "string \<Rightarrow> 32 word" where
  "str_to_fourcc s =
     push_bit 24 (of_nat (of_char (s ! 0))) OR push_bit 16 (of_nat (of_char (s ! 1))) OR
     push_bit 8 (of_nat (of_char (s ! 2))) OR of_nat (of_char (s ! 3))"

definition FOURCC_FLT :: "32 word" where "FOURCC_FLT = 0x666c7420"
definition FOURCC_SP78 :: "32 word" where "FOURCC_SP78 = 0x73703738"
definition FOURCC_IOFT :: "32 word" where "FOURCC_IOFT = 0x696f6674"

text \<open>
  \<^verbatim>\<open>static float smc_bytes_to_float(uint8_t *data, uint32_t size, uint32_t type)\<close>.
  The function reads at most the first \<open>min size 8\<close> bytes of \<open>data\<close>; its callers
  pass the 32-byte array of an SMC response. The cast \<^verbatim>\<open>(int16_t)((data[0] << 8) | data[1])\<close>
  of the sp78 branch is the two's-complement reading \<open>sint\<close> of the 16-bit word.
\<close>

definition smc_bytes_to_float :: "8 word list \<Rightarrow> 32 word \<Rightarrow> 32 word \<Rightarrow> cfloat" where
  "smc_bytes_to_float data dsize dtype =
     (if dsize = 0 then FVal 0
      else if dtype = FOURCC_FLT \<and> 4 \<le> dsize then float_of_bits32 (le_word32 data)
      else if dtype = FOURCC_SP78 \<and> 2 \<le> dsize then
        (let raw = (push_bit 8 (ucast (data ! 0)) OR ucast (data ! 1) :: 16 word)
         in FVal (real_of_int (sint raw) / 256))
      else if dtype = FOURCC_IOFT \<and> 8 \<le> dsize then float_of_double_bits (le_word64 data)
      else if dsize = 1 then FVal (real (unat (data ! 0)))
      else if dsize = 2 then
        FVal (real (unat (push_bit 8 (ucast (data ! 0)) OR ucast (data ! 1) :: 16 word)))
      else FVal 0)"

subsection \<open>The decoding rules as the specification words them\<close>

text \<open>
  The six rules of the specification, in its order, on a raw value with a type
  tag (a four character code, packed as the key codes are), a byte length and a
  payload. The signed 16-bit value is
  written out arithmetically: the big-endian number, minus \<open>65536\<close> when its top
  bit is set.
\<close>

definition be16 :: "8 word list \<Rightarrow> nat" where
  "be16 bs = 256 * unat (bs ! 0) + unat (bs ! 1)"

definition decode_rules :: "32 word \<Rightarrow> nat \<Rightarrow> 8 word list \<Rightarrow> cfloat" where
  "decode_rules tag len bs =
     (if tag = str_to_fourcc ''flt '' \<and> 4 \<le> len then float_of_bits32 (le_word32 bs)
      else if tag = str_to_fourcc ''sp78'' \<and> 2 \<le> len then
        FVal ((if 32768 \<le> be16 bs then real (be16 bs) - 65536 else real (be16 bs)) / 256)
      else if tag = str_to_fourcc ''ioft'' \<and> 8 \<le> len then
        float_of_double_bits (le_word64 bs)
      else if len = 1 then FVal (real (unat (bs ! 0)))
      else if len = 2 then FVal (real (be16 bs))
      else FVal 0)"

section \<open>SMC: structures, process state and the outside world\<close>

text \<open>
  \<^verbatim>\<open>SMCKeyDataKeyInfo\<close> and \<^verbatim>\<open>SMCKeyData\<close>. The members \<^verbatim>\<open>vers\<close> and \<^verbatim>\<open>p_limit_data\<close>
  of \<^verbatim>\<open>SMCKeyData\<close> are left out: the program neither writes nor reads them.
  \<open>bytes\<close> is the array \<^verbatim>\<open>uint8_t bytes[32]\<close>.
\<close>

record SMCKeyDataKeyInfo =
  data_size :: "32 word"
  data_type :: "32 word"
  data_attributes :: "8 word"

record SMCKeyData =
  key :: "32 word"
  key_info :: SMCKeyDataKeyInfo
  result :: "8 word"
  status :: "8 word"
  data8 :: "8 word"
  data32 :: "32 word"
  bytes :: "8 word list"

text \<open>\<^verbatim>\<open>SMCKeyData input = {0};\<close>\<close>

definition SMCKeyData_zero :: SMCKeyData where
  "SMCKeyData_zero =
     \<lparr>key = 0,
      key_info = \<lparr>data_size = 0, data_type = 0, data_attributes = 0\<rparr>,
      result = 0, status = 0, data8 = 0, data32 = 0, bytes = replicate 32 0\<rparr>"

text \<open>
  \<^verbatim>\<open>CachedSMCKey\<close>; its member \<^verbatim>\<open>key_info\<close> is named \<open>cached_key_info\<close> here, to keep
  it apart from the member of \<^verbatim>\<open>SMCKeyData\<close>.
\<close>

record CachedSMCKey =
  key_fourcc :: "32 word"
  cached_key_info :: SMCKeyDataKeyInfo

definition MAX_CACHED_KEYS :: nat where "MAX_CACHED_KEYS = 32"

definition MAX_FANS :: nat where "MAX_FANS = 4"

record FanInfo =
  fan_count :: int
  fan_rpm :: "cfloat list"
  fan_min_rpm :: "cfloat list"
  fan_max_rpm :: "cfloat list"

subsection \<open>IOReport and HID data\<close>

text \<open>
  The thirteen function pointers that \<^verbatim>\<open>ior_load_framework\<close> fills by \<^verbatim>\<open>dlsym\<close>;
  \<open>True\<close> is a pointer that is not \<^verbatim>\<open>NULL\<close>.
\<close>

record ior_symbols =
  pIOReportCopyChannelsInGroup :: bool
  pIOReportMergeChannels :: bool
  pIOReportCreateSubscription :: bool
  pIOReportCreateSamples :: bool
  pIOReportCreateSamplesDelta :: bool
  pIOReportChannelGetGroup :: bool
  pIOReportChannelGetSubGroup :: bool
  pIOReportChannelGetChannelName :: bool
  pIOReportChannelGetUnitLabel :: bool
  pIOReportSimpleGetIntegerValue :: bool
  pIOReportStateGetCount :: bool
  pIOReportStateGetNameForIndex :: bool
  pIOReportStateGetResidency :: bool

definition no_symbols :: ior_symbols where
  "no_symbols =
     \<lparr>pIOReportCopyChannelsInGroup = False, pIOReportMergeChannels = False,
      pIOReportCreateSubscription = False, pIOReportCreateSamples = False,
      pIOReportCreateSamplesDelta = False, pIOReportChannelGetGroup = False,
      pIOReportChannelGetSubGroup = False, pIOReportChannelGetChannelName = False,
      pIOReportChannelGetUnitLabel = False, pIOReportSimpleGetIntegerValue = False,
      pIOReportStateGetCount = False, pIOReportStateGetNameForIndex = False,
      pIOReportStateGetResidency = False\<rparr>"

text \<open>
  One channel of an IOReport delta sample, as the accessor functions of libIOReport
  present it: group, channel name and unit label (\<open>None\<close> for a \<^verbatim>\<open>NULL\<close> string), the
  integer value of a simple channel (an \<^verbatim>\<open>int64_t\<close>), and for a state channel the
  name and the residency (an \<^verbatim>\<open>int64_t\<close>) of each state (\<^verbatim>\<open>IOReportStateGetCount\<close> is
  the length of the list).
  Names are taken to fit the buffers they are copied into. A \<^verbatim>\<open>NULL\<close> entry of the
  channel array, which the source skips, is not listed.
\<close>

record ior_channel =
  ch_group :: "string option"
  ch_name :: "string option"
  ch_unit :: "string option"
  ch_integer_value :: "64 word"
  ch_states :: "(string option \<times> 64 word) list"

text \<open>
  A HID sensor service: its \<^verbatim>\<open>Product\<close> property and the value of its current
  temperature event, already converted to \<^verbatim>\<open>float\<close> (\<open>None\<close> for a missing property
  or event). The product name is taken to fit the 128-byte buffer it is copied into.
\<close>

record hid_service =
  hid_product :: "string option"
  hid_temperature :: "cfloat option"

subsection \<open>The world outside the process\<close>

text \<open>
  What the operating system answers at the time of a call.
  \<^item> \<open>smc_endpoint_opens\<close>: \<^verbatim>\<open>IOServiceGetMatchingServices\<close> succeeds, the iterator
    holds an entry named \<^verbatim>\<open>AppleSMCKeysEndpoint\<close> and \<^verbatim>\<open>IOServiceOpen\<close> succeeds on it.
  \<^item> \<open>smc_call\<close>: \<^verbatim>\<open>IOConnectCallStructMethod\<close> with selector 2: the
    \<^verbatim>\<open>kern_return_t\<close> (0 is \<^verbatim>\<open>KERN_SUCCESS\<close>) and the output structure.
  \<^item> \<open>hid_client\<close>, \<open>hid_services\<close>: \<^verbatim>\<open>IOHIDEventSystemClientCreate\<close> returns a client;
    the services \<^verbatim>\<open>IOHIDEventSystemClientCopyServices\<close> returns for the temperature
    sensor match (\<open>None\<close> for \<^verbatim>\<open>NULL\<close>).
  \<^item> \<open>dlopen_ok\<close>, \<open>dlsym_found\<close>: \<^verbatim>\<open>dlopen\<close> of libIOReport succeeds; the symbols
    \<^verbatim>\<open>dlsym\<close> finds.
  \<^item> \<open>ior_energy_ch\<close>, \<open>ior_gpu_ch\<close>: \<^verbatim>\<open>IOReportCopyChannelsInGroup\<close> returns a
    dictionary for the group "Energy Model", for "GPU Stats";
    \<open>ior_channels_copy\<close>: \<^verbatim>\<open>CFDictionaryCreateMutableCopy\<close> returns a copy;
    \<open>ior_subscribe\<close>: \<^verbatim>\<open>IOReportCreateSubscription\<close> returns a subscription.
  \<^item> \<open>ior_create_samples\<close>: the sample \<^verbatim>\<open>IOReportCreateSamples\<close> returns (samples are
    named by numbers); \<open>ior_samples_delta\<close>: \<^verbatim>\<open>IOReportCreateSamplesDelta\<close> of two
    samples: \<open>None\<close> for \<^verbatim>\<open>NULL\<close>, otherwise the array under the key
    \<^verbatim>\<open>IOReportChannels\<close> (\<open>None\<close> when the key is missing).
  \<^item> \<open>arm_io_devices\<close>: the entries \<^verbatim>\<open>IOServiceGetMatchingServices\<close> finds for
    \<^verbatim>\<open>AppleARMIODevice\<close> (\<open>None\<close> when the call fails), each with its registry name
    and the bytes of its property \<^verbatim>\<open>voltage-states9\<close>, if it has one.
  \<^item> \<open>clock_ms\<close>: \<^verbatim>\<open>get_time_ms()\<close>; \<open>clock_now\<close>: \<^verbatim>\<open>time(NULL)\<close>;
    \<open>clock_gmtoff\<close>: \<^verbatim>\<open>localtime(&now)->tm_gmtoff\<close>.
  \<^item> \<open>sys_statvfs\<close>: what \<^verbatim>\<open>statvfs("/", &stat)\<close> stores (\<open>None\<close> when it fails): the
    members \<^verbatim>\<open>f_blocks\<close>, \<^verbatim>\<open>f_bfree\<close> and \<^verbatim>\<open>f_frsize\<close>, as the 64-bit operands of the
    products that \<^verbatim>\<open>get_disk_usage\<close> forms.
  \<^item> the other \<open>sys_*\<close>: the results of the simple collectors
    \<^verbatim>\<open>get_uptime_seconds\<close>, \<^verbatim>\<open>get_cpu_usage\<close>, \<^verbatim>\<open>get_memory_usage\<close> and
    \<^verbatim>\<open>get_network_throughput\<close>, which only read operating-system counters and assign
    every member of their result; their own previous-value variables are not part
    of the state below.
\<close>

record statvfs =
  f_blocks :: "64 word"
  f_bfree :: "64 word"
  f_frsize :: "64 word"

record Storage =
  storage_temp :: cfloat
  storage_read :: cfloat
  storage_write :: cfloat
  storage_percent :: cfloat

record Memory =
  mem_used :: cfloat
  mem_avail :: cfloat
  mem_percent :: cfloat

record Network =
  net_up :: cfloat
  net_down :: cfloat

record world =
  smc_endpoint_opens :: bool
  smc_call :: "SMCKeyData \<Rightarrow> nat \<times> SMCKeyData"
  hid_client :: bool
  hid_services :: "hid_service list option"
  dlopen_ok :: bool
  dlsym_found :: ior_symbols
  ior_energy_ch :: bool
  ior_gpu_ch :: bool
  ior_channels_copy :: bool
  ior_subscribe :: bool
  ior_create_samples :: "nat option"
  ior_samples_delta :: "nat \<Rightarrow> nat \<Rightarrow> ior_channel list option option"
  arm_io_devices :: "(string \<times> 8 word list option) list option"
  clock_ms :: "64 word"
  clock_now :: int
  clock_gmtoff :: int
  sys_uptime_seconds :: int
  sys_cpu_usage :: cfloat
  sys_statvfs :: "statvfs option"
  sys_memory_usage :: Memory
  sys_network_throughput :: Network

subsection \<open>The process state\<close>

text \<open>
  The file-scope variables of \<^verbatim>\<open>pcstats.c\<close>. \<open>smc_conn\<close>, \<open>ior_handle\<close>,
  \<open>ior_subscription\<close> and \<open>ior_channels\<close> are \<open>True\<close> when the C variable is not
  zero. A key cache is the list of the first \<^verbatim>\<open>num_cached_*_keys\<close> entries of its
  array, \<open>gpu_freqs\<close> the list of the first \<^verbatim>\<open>num_gpu_freqs\<close> entries.

  Four further fields are bookkeeping, not program variables. They count or list
  the calls that leave the process: \<open>smc_opens\<close> the attempts of \<^verbatim>\<open>smc_open\<close> to find
  and open the endpoint, \<open>smc_calls\<close> the command byte and key of every
  \<^verbatim>\<open>IOConnectCallStructMethod\<close>, \<open>hid_queries\<close> the runs of \<^verbatim>\<open>hid_get_temperatures\<close>,
  \<open>ior_dlopens\<close> the calls of \<^verbatim>\<open>dlopen\<close>.
\<close>

record pcstate =
  smc_conn :: bool
  cached_cpu_keys :: "CachedSMCKey list"
  cached_gpu_keys :: "CachedSMCKey list"
  cached_board_keys :: "CachedSMCKey list"
  smc_cache_initialized :: bool
  ior_syms :: ior_symbols
  ior_handle :: bool
  ior_lib_loaded :: bool
  ior_subscription :: bool
  ior_channels :: bool
  ior_prev_sample :: "nat option"
  ior_prev_time_ms :: "64 word"
  ior_initialized :: bool
  cached_cpu_power :: cfloat
  cached_gpu_power :: cfloat
  cached_gpu_freq :: cfloat
  cached_gpu_load :: cfloat
  gpu_freqs :: "32 word list"
  cached_cpu_temp :: cfloat
  cached_gpu_temp :: cfloat
  use_native_temps :: int
  pcstats_initialized :: bool
  smc_opens :: nat
  smc_calls :: "(8 word \<times> 32 word) list"
  hid_queries :: nat
  ior_dlopens :: nat

text \<open>The state at program start: every static variable has its initialiser.\<close>

definition initial_state :: pcstate where
  "initial_state =
     \<lparr>smc_conn = False, cached_cpu_keys = [], cached_gpu_keys = [], cached_board_keys = [],
      smc_cache_initialized = False, ior_syms = no_symbols, ior_handle = False,
      ior_lib_loaded = False, ior_subscription = False, ior_channels = False,
      ior_prev_sample = None, ior_prev_time_ms = 0, ior_initialized = False,
      cached_cpu_power = FVal 0, cached_gpu_power = FVal 0, cached_gpu_freq = FVal 0,
      cached_gpu_load = FVal 0, gpu_freqs = [], cached_cpu_temp = FVal 0,
      cached_gpu_temp = FVal 0, use_native_temps = 0, pcstats_initialized = False,
      smc_opens = 0, smc_calls = [], hid_queries = 0, ior_dlopens = 0\<rparr>"

section \<open>SMC: opening, reading, the key cache\<close>

text \<open>
  \<^verbatim>\<open>static int smc_open(void)\<close>: returns at once when the connection exists;
  otherwise it looks the endpoint up and opens it.
\<close>

definition smc_open :: "world \<Rightarrow> pcstate \<Rightarrow> int \<times> pcstate" where
  "smc_open w s =
     (if smc_conn s then (0, s)
      else let s1 = s\<lparr>smc_opens := smc_opens s + 1\<rparr>
           in if smc_endpoint_opens w then (0, s1\<lparr>smc_conn := True\<rparr>) else (- 1, s1))"

text \<open>
  \<^verbatim>\<open>static int smc_read(SMCKeyData *input, SMCKeyData *output)\<close>: \<open>Some output\<close> is
  the return value 0, \<open>None\<close> the return value -1.
\<close>

definition smc_read :: "world \<Rightarrow> pcstate \<Rightarrow> SMCKeyData \<Rightarrow> SMCKeyData option \<times> pcstate" where
  "smc_read w s input =
     (if \<not> smc_conn s then (None, s)
      else let s1 = s\<lparr>smc_calls := smc_calls s @ [(data8 input, key input)]\<rparr>;
               (kr, output) = smc_call w input
           in if kr \<noteq> 0 then (None, s1)
              else if result output = 132 then (None, s1)
              else if result output \<noteq> 0 then (None, s1)
              else (Some output, s1))"

text \<open>\<^verbatim>\<open>static int smc_read_key_info(const char *key, SMCKeyDataKeyInfo *info)\<close>\<close>

definition smc_read_key_info ::
    "world \<Rightarrow> pcstate \<Rightarrow> string \<Rightarrow> SMCKeyDataKeyInfo option \<times> pcstate" where
  "smc_read_key_info w s k =
     (let input = SMCKeyData_zero\<lparr>key := str_to_fourcc k, data8 := 9\<rparr>
      in case smc_read w s input of
           (None, s1) \<Rightarrow> (None, s1)
         | (Some output, s1) \<Rightarrow> (Some (key_info output), s1))"

text \<open>\<^verbatim>\<open>static float smc_read_key(const char *key)\<close>, the uncached read (fans).\<close>

definition smc_read_key :: "world \<Rightarrow> pcstate \<Rightarrow> string \<Rightarrow> cfloat \<times> pcstate" where
  "smc_read_key w s k =
     (case smc_read_key_info w s k of
        (None, s1) \<Rightarrow> (FVal 0, s1)
      | (Some info, s1) \<Rightarrow>
          if 32 < data_size info then (FVal 0, s1)
          else let input = SMCKeyData_zero\<lparr>key := str_to_fourcc k, data8 := 5, key_info := info\<rparr>
               in case smc_read w s1 input of
                    (None, s2) \<Rightarrow> (FVal 0, s2)
                  | (Some output, s2) \<Rightarrow>
                      (smc_bytes_to_float (bytes output) (data_size info) (data_type info), s2))"

text \<open>\<^verbatim>\<open>static float smc_read_temp_cached(uint32_t key_fourcc, SMCKeyDataKeyInfo *info)\<close>\<close>

definition smc_read_temp_cached ::
    "world \<Rightarrow> pcstate \<Rightarrow> 32 word \<Rightarrow> SMCKeyDataKeyInfo \<Rightarrow> cfloat \<times> pcstate" where
  "smc_read_temp_cached w s fourcc info =
     (let input = SMCKeyData_zero\<lparr>key := fourcc, data8 := 5, key_info := info\<rparr>
      in case smc_read w s input of
           (None, s1) \<Rightarrow> (FVal 0, s1)
         | (Some output, s1) \<Rightarrow>
             (smc_bytes_to_float (bytes output) (data_size info) (data_type info), s1))"

text \<open>The three candidate key lists of \<^verbatim>\<open>smc_init_cache\<close>.\<close>

definition cpu_keys :: "string list" where
  "cpu_keys =
     [''Tp01'', ''Tp02'', ''Tp03'', ''Tp04'', ''Tp05'', ''Tp06'', ''Tp07'', ''Tp08'',
      ''Tp09'', ''Tp0A'', ''Tp0B'', ''Tp0C'', ''Tp0D'', ''Tp0E'', ''Tp0F'', ''Tp0G'',
      ''Te01'', ''Te02'', ''Te03'', ''Te04'', ''Te05'', ''Te06'', ''Te07'', ''Te08'',
      ''Tc0c'', ''Tc1c'', ''Tc2c'', ''Tc3c'']"

definition gpu_keys :: "string list" where
  "gpu_keys = [''Tg0f'', ''Tg0j'', ''Tg0D'', ''Tg0d'', ''Tg05'', ''Tg0P'', ''Tg0p'']"

definition board_keys :: "string list" where
  "board_keys =
     [''Tm0P'', ''Tm1P'', ''Tm2P'', ''Ts0P'', ''Ts1P'', ''Ts2P'', ''TM0P'', ''TM1P'', ''Tw0P'']"

text \<open>
  One probe loop of \<^verbatim>\<open>smc_init_cache\<close>,
  \<^verbatim>\<open>for (i = 0; keys[i] && num_cached < MAX_CACHED_KEYS; i++)\<close>.
  The source has the loop three times, once per cache; \<open>cache\<close> is the cache the
  loop fills (array and counter), which the reads in the loop do not touch.
\<close>

fun probe_keys ::
    "world \<Rightarrow> string list \<Rightarrow> CachedSMCKey list \<Rightarrow> pcstate \<Rightarrow> CachedSMCKey list \<times> pcstate" where
  "probe_keys w [] cache s = (cache, s)"
| "probe_keys w (k # ks) cache s =
     (if length cache < MAX_CACHED_KEYS then
        (case smc_read_key_info w s k of
           (None, s1) \<Rightarrow> probe_keys w ks cache s1
         | (Some info, s1) \<Rightarrow>
             if 0 < data_size info
             then probe_keys w ks
                    (cache @ [\<lparr>key_fourcc = str_to_fourcc k, cached_key_info = info\<rparr>]) s1
             else probe_keys w ks cache s1)
      else (cache, s))"

text \<open>\<^verbatim>\<open>static void smc_init_cache(void)\<close>\<close>

definition smc_init_cache :: "world \<Rightarrow> pcstate \<Rightarrow> pcstate" where
  "smc_init_cache w s =
     (if smc_cache_initialized s then s
      else case smc_open w s of (r, s0) \<Rightarrow>
        if r \<noteq> 0 then s0
        else case probe_keys w cpu_keys (cached_cpu_keys s0) s0 of (c, s1) \<Rightarrow>
             case probe_keys w gpu_keys (cached_gpu_keys s1) (s1\<lparr>cached_cpu_keys := c\<rparr>) of (g, s2) \<Rightarrow>
             case probe_keys w board_keys (cached_board_keys s2) (s2\<lparr>cached_gpu_keys := g\<rparr>) of (b, s3) \<Rightarrow>
               s3\<lparr>cached_board_keys := b, smc_cache_initialized := True\<rparr>)"

text \<open>
  One reading loop: every cached key is read, a reading \<open>t\<close> with
  \<^verbatim>\<open>t > lo && t < hi\<close> is added to the sum (a \<^verbatim>\<open>float\<close>) and counted. The counter is
  an \<^verbatim>\<open>int\<close> that cannot overflow: a cache has \<^verbatim>\<open>MAX_CACHED_KEYS\<close> entries. The
  quotient \<^verbatim>\<open>sum / count\<close> converts the counter to \<^verbatim>\<open>float\<close>.
\<close>

fun read_temps ::
    "world \<Rightarrow> real \<Rightarrow> real \<Rightarrow> CachedSMCKey list \<Rightarrow> cfloat \<Rightarrow> int \<Rightarrow> pcstate
      \<Rightarrow> cfloat \<times> int \<times> pcstate" where
  "read_temps w lo hi [] tsum tcount s = (tsum, tcount, s)"
| "read_temps w lo hi (k # ks) tsum tcount s =
     (case smc_read_temp_cached w s (key_fourcc k) (cached_key_info k) of (t, s1) \<Rightarrow>
        if cf_gt t lo \<and> cf_lt t hi
        then read_temps w lo hi ks (cf_add tsum t) (tcount + 1) s1
        else read_temps w lo hi ks tsum tcount s1)"

text \<open>\<^verbatim>\<open>static void smc_get_temperatures(float *cpu_temp, float *gpu_temp)\<close>\<close>

definition smc_get_temperatures :: "world \<Rightarrow> pcstate \<Rightarrow> cfloat \<times> cfloat \<times> pcstate" where
  "smc_get_temperatures w s =
     (let s1 = (if \<not> smc_cache_initialized s then smc_init_cache w s else s)
      in if \<not> smc_conn s1 then (FVal 0, FVal 0, s1)
         else case read_temps w 10 130 (cached_cpu_keys s1) (FVal 0) 0 s1 of
                (cpu_sum, cpu_count, s2) \<Rightarrow>
              case read_temps w 10 130 (cached_gpu_keys s2) (FVal 0) 0 s2 of
                (gpu_sum, gpu_count, s3) \<Rightarrow>
                ((if 0 < cpu_count then cf_div cpu_sum (cf_of_int cpu_count) else FVal 0),
                 (if 0 < gpu_count then cf_div gpu_sum (cf_of_int gpu_count) else FVal 0), s3))"

text \<open>\<^verbatim>\<open>static float smc_get_board_temperature(void)\<close>\<close>

definition smc_get_board_temperature :: "world \<Rightarrow> pcstate \<Rightarrow> cfloat \<times> pcstate" where
  "smc_get_board_temperature w s =
     (let s1 = (if \<not> smc_cache_initialized s then smc_init_cache w s else s)
      in if \<not> smc_conn s1 \<or> cached_board_keys s1 = [] then (FVal 0, s1)
         else case read_temps w 10 100 (cached_board_keys s1) (FVal 0) 0 s1 of
                (board_sum, board_count, s2) \<Rightarrow>
                ((if 0 < board_count then cf_div board_sum (cf_of_int board_count) else FVal 0), s2))"

text \<open>
  \<^verbatim>\<open>void get_fan_info(FanInfo *fans)\<close>. \<open>fan_key i sfx\<close> is the key that
  \<^verbatim>\<open>snprintf(key, sizeof(key), "F%dAc", i)\<close> writes for \<open>i < 10\<close>.
\<close>

definition fan_key :: "nat \<Rightarrow> string \<Rightarrow> string" where
  "fan_key i sfx = ''F'' @ [char_of (48 + i)] @ sfx"

function fan_loop :: "world \<Rightarrow> nat \<Rightarrow> FanInfo \<Rightarrow> pcstate \<Rightarrow> FanInfo \<times> pcstate" where
  "fan_loop w i fans s =
     (if i < MAX_FANS then
        (case smc_read_key w s (fan_key i ''Ac'') of (rpm, s1) \<Rightarrow>
           if cf_gt rpm 0 then
             (case smc_read_key w s1 (fan_key i ''Mn'') of (mn, s2) \<Rightarrow>
              case smc_read_key w s2 (fan_key i ''Mx'') of (mx, s3) \<Rightarrow>
                fan_loop w (i + 1)
                  (fans\<lparr>fan_rpm := (fan_rpm fans)[i := rpm],
                        fan_min_rpm := (fan_min_rpm fans)[i := mn],
                        fan_max_rpm := (fan_max_rpm fans)[i := mx],
                        fan_count := int i + 1\<rparr>) s3)
           else (fans, s1))
      else (fans, s))"
  by pat_completeness auto
termination
  by (relation "measure (\<lambda>(w, i, fans, s). MAX_FANS - i)") auto

declare fan_loop.simps [simp del]

definition get_fan_info :: "world \<Rightarrow> pcstate \<Rightarrow> FanInfo \<times> pcstate" where
  "get_fan_info w s =
     (let fans = \<lparr>fan_count = 0, fan_rpm = replicate MAX_FANS (FVal 0),
                  fan_min_rpm = replicate MAX_FANS (FVal 0),
                  fan_max_rpm = replicate MAX_FANS (FVal 0)\<rparr>
      in case smc_open w s of (r, s1) \<Rightarrow>
           if r \<noteq> 0 then (fans, s1) else fan_loop w 0 fans s1)"

section \<open>HID temperature sensors and the combined reading\<close>

text \<open>\<^verbatim>\<open>strstr(haystack, needle) != NULL\<close>: the needle occurs in the haystack.\<close>

fun starts_with :: "string \<Rightarrow> string \<Rightarrow> bool" where
  "starts_with hay [] = True"
| "starts_with [] (n # ns) = False"
| "starts_with (h # hs) (n # ns) = (h = n \<and> starts_with hs ns)"

fun strstr :: "string \<Rightarrow> string \<Rightarrow> bool" where
  "strstr [] needle = (needle = [])"
| "strstr (h # hs) needle = (starts_with (h # hs) needle \<or> strstr hs needle)"

text \<open>
  The loop over the services in \<^verbatim>\<open>hid_get_temperatures\<close>. A service without a
  product name or without a temperature event is skipped, and so is a reading with
  \<^verbatim>\<open>temp < 10 || temp > 130\<close>.
\<close>

fun hid_loop ::
    "hid_service list \<Rightarrow> cfloat \<Rightarrow> int \<Rightarrow> cfloat \<Rightarrow> int \<Rightarrow> cfloat \<times> int \<times> cfloat \<times> int" where
  "hid_loop [] cpu_sum cpu_count gpu_sum gpu_count = (cpu_sum, cpu_count, gpu_sum, gpu_count)"
| "hid_loop (sv # svs) cpu_sum cpu_count gpu_sum gpu_count =
     (case hid_product sv of
        None \<Rightarrow> hid_loop svs cpu_sum cpu_count gpu_sum gpu_count
      | Some name \<Rightarrow>
          (case hid_temperature sv of
             None \<Rightarrow> hid_loop svs cpu_sum cpu_count gpu_sum gpu_count
           | Some temp \<Rightarrow>
               if cf_lt temp 10 \<or> cf_gt temp 130
               then hid_loop svs cpu_sum cpu_count gpu_sum gpu_count
               else if strstr name ''ACC MTR Temp'' \<or> strstr name ''CPU''
               then hid_loop svs (cf_add cpu_sum temp) (cpu_count + 1) gpu_sum gpu_count
               else if strstr name ''GPU MTR Temp'' \<or> strstr name ''GPU''
               then hid_loop svs cpu_sum cpu_count (cf_add gpu_sum temp) (gpu_count + 1)
               else hid_loop svs cpu_sum cpu_count gpu_sum gpu_count))"

text \<open>\<^verbatim>\<open>static void hid_get_temperatures(float *cpu_temp, float *gpu_temp)\<close>\<close>

definition hid_get_temperatures :: "world \<Rightarrow> pcstate \<Rightarrow> cfloat \<times> cfloat \<times> pcstate" where
  "hid_get_temperatures w s =
     (let s1 = s\<lparr>hid_queries := hid_queries s + 1\<rparr>
      in if \<not> hid_client w then (FVal 0, FVal 0, s1)
         else case hid_services w of
                None \<Rightarrow> (FVal 0, FVal 0, s1)
              | Some services \<Rightarrow>
                  (case hid_loop services (FVal 0) 0 (FVal 0) 0 of
                     (cpu_sum, cpu_count, gpu_sum, gpu_count) \<Rightarrow>
                       ((if 0 < cpu_count then cf_div cpu_sum (cf_of_int cpu_count) else FVal 0),
                        (if 0 < gpu_count then cf_div gpu_sum (cf_of_int gpu_count) else FVal 0), s1)))"

text \<open>\<^verbatim>\<open>static void get_apple_silicon_temps(float *cpu_temp, float *gpu_temp)\<close>\<close>

definition get_apple_silicon_temps :: "world \<Rightarrow> pcstate \<Rightarrow> cfloat \<times> cfloat \<times> pcstate" where
  "get_apple_silicon_temps w s =
     (case smc_get_temperatures w s of (cpu_temp, gpu_temp, s1) \<Rightarrow>
        if cf_eq cpu_temp 0 \<and> cf_eq gpu_temp 0 then hid_get_temperatures w s1
        else (cpu_temp, gpu_temp, s1))"

text \<open>\<^verbatim>\<open>static void update_temperatures_native(void)\<close> writes the two cached temperatures.\<close>

definition update_temperatures_native :: "world \<Rightarrow> pcstate \<Rightarrow> pcstate" where
  "update_temperatures_native w s =
     (case get_apple_silicon_temps w s of (cpu_temp, gpu_temp, s1) \<Rightarrow>
        s1\<lparr>cached_cpu_temp := cpu_temp, cached_gpu_temp := gpu_temp\<rparr>)"

section \<open>IOReport: power and frequency\<close>

text \<open>
  A call through a function pointer that is \<^verbatim>\<open>NULL\<close> ends the process; the
  functions that can make such a call return an \<open>option\<close>, with \<open>None\<close> for that end.
\<close>

text \<open>\<^verbatim>\<open>static int ior_load_framework(void)\<close>\<close>

definition ior_load_framework :: "world \<Rightarrow> pcstate \<Rightarrow> int \<times> pcstate" where
  "ior_load_framework w s =
     (if ior_lib_loaded s then ((if ior_handle s then 0 else - 1), s)
      else let s1 = s\<lparr>ior_lib_loaded := True, ior_dlopens := ior_dlopens s + 1\<rparr>
           in if \<not> dlopen_ok w then (- 1, s1\<lparr>ior_handle := False\<rparr>)
              else let s2 = s1\<lparr>ior_handle := True, ior_syms := dlsym_found w\<rparr>
                   in if \<not> pIOReportCopyChannelsInGroup (ior_syms s2) \<or>
                         \<not> pIOReportCreateSubscription (ior_syms s2) \<or>
                         \<not> pIOReportCreateSamples (ior_syms s2) \<or>
                         \<not> pIOReportSimpleGetIntegerValue (ior_syms s2)
                      then (- 1, s2) else (0, s2))"

text \<open>
  \<^verbatim>\<open>static void ior_load_gpu_freqs(void)\<close>: every registry entry named \<^verbatim>\<open>pmgr\<close> that has
  the property contributes the frequencies of its (frequency, voltage) pairs.
\<close>

fun voltage_states_loop :: "8 word list \<Rightarrow> nat list \<Rightarrow> 32 word list \<Rightarrow> 32 word list" where
  "voltage_states_loop bs [] freqs = freqs"
| "voltage_states_loop bs (i # is) freqs =
     (if length freqs < 32 then
        (let freq_hz = (ucast (bs ! (i * 8)) OR push_bit 8 (ucast (bs ! (i * 8 + 1))) OR
                        push_bit 16 (ucast (bs ! (i * 8 + 2))) OR
                        push_bit 24 (ucast (bs ! (i * 8 + 3))) :: 32 word);
             freq_mhz = freq_hz div 1000000
         in voltage_states_loop bs is (if 0 < freq_mhz then freqs @ [freq_mhz] else freqs))
      else freqs)"

fun pmgr_loop :: "(string \<times> 8 word list option) list \<Rightarrow> 32 word list \<Rightarrow> 32 word list" where
  "pmgr_loop [] freqs = freqs"
| "pmgr_loop ((name, prop) # devs) freqs =
     (if name = ''pmgr'' then
        (case prop of
           None \<Rightarrow> pmgr_loop devs freqs
         | Some bs \<Rightarrow> pmgr_loop devs (voltage_states_loop bs [0 ..< length bs div 8] freqs))
      else pmgr_loop devs freqs)"

definition ior_load_gpu_freqs :: "world \<Rightarrow> pcstate \<Rightarrow> pcstate" where
  "ior_load_gpu_freqs w s =
     (if gpu_freqs s \<noteq> [] then s
      else case arm_io_devices w of
             None \<Rightarrow> s
           | Some devs \<Rightarrow> s\<lparr>gpu_freqs := pmgr_loop devs (gpu_freqs s)\<rparr>)"

text \<open>\<^verbatim>\<open>static int ior_init(void)\<close>\<close>

definition ior_init :: "world \<Rightarrow> pcstate \<Rightarrow> (int \<times> pcstate) option" where
  "ior_init w s =
     (if ior_initialized s then Some (0, s)
      else case ior_load_framework w s of (r, s1) \<Rightarrow>
        if r \<noteq> 0 then Some (- 1, s1)
        else if \<not> pIOReportCopyChannelsInGroup (ior_syms s1) then None
        else if \<not> ior_energy_ch w \<and> \<not> ior_gpu_ch w then Some (- 1, s1)
        else let s2 = s1\<lparr>ior_channels := ior_channels_copy w\<rparr>
             in if \<not> ior_channels s2 then Some (- 1, s2)
                else if \<not> pIOReportCreateSubscription (ior_syms s2) then None
                else let s3 = s2\<lparr>ior_subscription := ior_subscribe w\<rparr>
                     in if \<not> ior_subscription s3 then Some (- 1, s3\<lparr>ior_channels := False\<rparr>)
                        else Some (0, (ior_load_gpu_freqs w s3)\<lparr>ior_initialized := True\<rparr>))"

text \<open>
  \<^verbatim>\<open>static float energy_to_watts(int64_t energy_val, const char *unit, uint64_t duration_ms)\<close>:
  the quotients are taken in \<^verbatim>\<open>double\<close>, the result is narrowed to \<^verbatim>\<open>float\<close>.
\<close>

definition energy_to_watts :: "64 word \<Rightarrow> string \<Rightarrow> 64 word \<Rightarrow> cfloat" where
  "energy_to_watts energy_val unit_str duration_ms =
     (if duration_ms = 0 then FVal 0
      else let joules_per_sec =
                 cd_div (cd_of_int (sint energy_val))
                        (cd_div (cd_of_int (uint duration_ms)) (FVal 1000))
           in if unit_str = ''nJ'' then cf_of_double (cd_div joules_per_sec (FVal 1000000000))
              else if unit_str = ''uJ'' then cf_of_double (cd_div joules_per_sec (FVal 1000000))
              else if unit_str = ''mJ'' then cf_of_double (cd_div joules_per_sec (FVal 1000))
              else FVal 0)"

text \<open>
  \<^verbatim>\<open>calc_gpu_freq_from_residency\<close>, first loop: the offset stays 0 unless a state
  has a name other than \<^verbatim>\<open>IDLE\<close>, \<^verbatim>\<open>OFF\<close> and \<^verbatim>\<open>DOWN\<close>; the first such index is taken.
\<close>

fun find_offset :: "nat \<Rightarrow> string option list \<Rightarrow> nat" where
  "find_offset i [] = 0"
| "find_offset i (None # names) = find_offset (i + 1) names"
| "find_offset i (Some buf # names) =
     (if buf \<noteq> ''IDLE'' \<and> buf \<noteq> ''OFF'' \<and> buf \<noteq> ''DOWN'' then i
      else find_offset (i + 1) names)"

text \<open>
  Second loop: the residencies are summed; from the offset on they also count as
  active and weigh the frequency of their state, when the table has one. The two
  sums are \<^verbatim>\<open>int64_t\<close>: a 64-bit word whose addition wraps around and which is read
  as a signed number. The weighted sum is a \<^verbatim>\<open>double\<close>:
  \<^verbatim>\<open>weighted_freq += (double)residency * gpu_freqs[freq_idx]\<close> converts both factors,
  rounds the product and then the sum (the two are not fused into one operation).
\<close>

fun residency_loop ::
    "32 word list \<Rightarrow> nat \<Rightarrow> nat \<Rightarrow> 64 word list \<Rightarrow> 64 word \<Rightarrow> 64 word \<Rightarrow> cfloat
      \<Rightarrow> 64 word \<times> 64 word \<times> cfloat" where
  "residency_loop freqs offset i [] total_residency active_residency weighted_freq =
     (total_residency, active_residency, weighted_freq)"
| "residency_loop freqs offset i (residency # rs) total_residency active_residency weighted_freq =
     (if offset \<le> i then
        residency_loop freqs offset (i + 1) rs (total_residency + residency)
          (active_residency + residency)
          (if i - offset < length freqs
           then cd_add weighted_freq
                  (cd_mul (cd_of_int (sint residency)) (cd_of_int (uint (freqs ! (i - offset)))))
           else weighted_freq)
      else residency_loop freqs offset (i + 1) rs (total_residency + residency)
             active_residency weighted_freq)"

text \<open>
  \<^verbatim>\<open>static void calc_gpu_freq_from_residency(CFDictionaryRef channel, float *freq_mhz,
  float *load_pct)\<close>; the result is the pair of the two outputs. The frequency is
  the quotient in \<^verbatim>\<open>double\<close>, narrowed to \<^verbatim>\<open>float\<close>; the load is
  \<^verbatim>\<open>(float)active_residency / total_residency * 100.0f\<close>, all in \<^verbatim>\<open>float\<close>.
\<close>

definition calc_gpu_freq_from_residency :: "pcstate \<Rightarrow> ior_channel \<Rightarrow> cfloat \<times> cfloat" where
  "calc_gpu_freq_from_residency s channel =
     (if gpu_freqs s = [] then (FVal 0, FVal 0)
      else if \<not> pIOReportStateGetCount (ior_syms s) \<or> \<not> pIOReportStateGetResidency (ior_syms s)
      then (FVal 0, FVal 0)
      else if ch_states channel = [] then (FVal 0, FVal 0)
      else let names = (if pIOReportStateGetNameForIndex (ior_syms s)
                        then map fst (ch_states channel)
                        else map (\<lambda>st. None) (ch_states channel));
               offset = find_offset 0 names
           in case residency_loop (gpu_freqs s) offset 0 (map snd (ch_states channel)) 0 0 (FVal 0) of
                (total_residency, active_residency, weighted_freq) \<Rightarrow>
                  if 0 < sint active_residency \<and> 0 < sint total_residency
                  then (cf_of_double (cd_div weighted_freq (cd_of_int (sint active_residency))),
                        cf_mul (cf_div (cf_of_int (sint active_residency))
                                       (cf_of_int (sint total_residency))) (FVal 100))
                  else (FVal 0, FVal 0))"

text \<open>
  The loop over the channels of a delta sample in \<^verbatim>\<open>ior_sample\<close>. The three strings
  of a channel are fetched through function pointers that may be \<^verbatim>\<open>NULL\<close>; a string
  that is not fetched is empty. \<^verbatim>\<open>pIOReportSimpleGetIntegerValue\<close> is called without a
  test.
\<close>

definition fetched :: "bool \<Rightarrow> string option \<Rightarrow> string" where
  "fetched have_fn str = (if have_fn then (case str of None \<Rightarrow> [] | Some cs \<Rightarrow> cs) else [])"

fun channel_loop ::
    "pcstate \<Rightarrow> 64 word \<Rightarrow> ior_channel list \<Rightarrow> cfloat \<Rightarrow> cfloat \<Rightarrow> cfloat \<Rightarrow> cfloat
      \<Rightarrow> (cfloat \<times> cfloat \<times> cfloat \<times> cfloat) option" where
  "channel_loop s duration_ms [] cpu_power gpu_power gpu_freq gpu_load =
     Some (cpu_power, gpu_power, gpu_freq, gpu_load)"
| "channel_loop s duration_ms (ch # chs) cpu_power gpu_power gpu_freq gpu_load =
     (let group_str = fetched (pIOReportChannelGetGroup (ior_syms s)) (ch_group ch);
          name_str = fetched (pIOReportChannelGetChannelName (ior_syms s)) (ch_name ch);
          unit_str = fetched (pIOReportChannelGetUnitLabel (ior_syms s)) (ch_unit ch)
      in if group_str = ''Energy Model'' then
           (if \<not> pIOReportSimpleGetIntegerValue (ior_syms s) then None
            else let energy = ch_integer_value ch
                 in if strstr name_str ''CPU Energy''
                    then channel_loop s duration_ms chs
                           (cf_add cpu_power (energy_to_watts energy unit_str duration_ms))
                           gpu_power gpu_freq gpu_load
                    else if name_str = ''GPU Energy''
                    then channel_loop s duration_ms chs cpu_power
                           (cf_add gpu_power (energy_to_watts energy unit_str duration_ms))
                           gpu_freq gpu_load
                    else channel_loop s duration_ms chs cpu_power gpu_power gpu_freq gpu_load)
         else if group_str = ''GPU Stats'' then
           (if name_str = ''GPUPH''
            then (case calc_gpu_freq_from_residency s ch of (f, l) \<Rightarrow>
                    channel_loop s duration_ms chs cpu_power gpu_power f l)
            else channel_loop s duration_ms chs cpu_power gpu_power gpu_freq gpu_load)
         else channel_loop s duration_ms chs cpu_power gpu_power gpu_freq gpu_load)"

text \<open>
  The part of \<^verbatim>\<open>ior_sample\<close> that derives the cached values from the previous and the
  new sample.
\<close>

definition ior_delta_update :: "world \<Rightarrow> pcstate \<Rightarrow> nat \<Rightarrow> nat \<Rightarrow> 64 word \<Rightarrow> pcstate option" where
  "ior_delta_update w s prev sample now_ms =
     (let d = now_ms - ior_prev_time_ms s;
          duration_ms = (if d < 10 then 10 else d);
          delta = (if pIOReportCreateSamplesDelta (ior_syms s)
                   then ior_samples_delta w prev sample else None)
      in case delta of
           None \<Rightarrow> Some s
         | Some None \<Rightarrow> Some s
         | Some (Some channels) \<Rightarrow>
             (case channel_loop s duration_ms channels (FVal 0) (FVal 0) (FVal 0) (FVal 0) of
                None \<Rightarrow> None
              | Some (cpu_power, gpu_power, gpu_freq, gpu_load) \<Rightarrow>
                  Some (s\<lparr>cached_cpu_power := cpu_power, cached_gpu_power := gpu_power,
                          cached_gpu_freq := gpu_freq, cached_gpu_load := gpu_load\<rparr>)))"

text \<open>
  \<^verbatim>\<open>static void ior_sample(void)\<close>, in two parts: \<open>ior_sample_ready\<close> is the body
  from the test of the subscription on, \<open>ior_sample\<close> the whole function.
\<close>

definition ior_sample_ready :: "world \<Rightarrow> pcstate \<Rightarrow> pcstate option" where
  "ior_sample_ready w s =
     (if \<not> ior_subscription s then Some s
      else if \<not> pIOReportCreateSamples (ior_syms s) then None
      else case ior_create_samples w of
             None \<Rightarrow> Some s
           | Some sample \<Rightarrow>
               (let now_ms = clock_ms w
                in case (case ior_prev_sample s of
                           None \<Rightarrow> Some s
                         | Some prev \<Rightarrow>
                             if 0 < ior_prev_time_ms s
                             then ior_delta_update w s prev sample now_ms else Some s) of
                     None \<Rightarrow> None
                   | Some s1 \<Rightarrow>
                       Some (s1\<lparr>ior_prev_sample := Some sample, ior_prev_time_ms := now_ms\<rparr>)))"

definition ior_sample :: "world \<Rightarrow> pcstate \<Rightarrow> pcstate option" where
  "ior_sample w s =
     (if \<not> ior_initialized s then
        (case ior_init w s of
           None \<Rightarrow> None
         | Some (r, s1) \<Rightarrow> if r \<noteq> 0 then Some s1 else ior_sample_ready w s1)
      else ior_sample_ready w s)"

text \<open>The getters \<^verbatim>\<open>get_cpu_power\<close>, \<^verbatim>\<open>get_gpu_power\<close>, \<^verbatim>\<open>get_gpu_freq\<close>, \<^verbatim>\<open>get_gpu_load\<close>,
  \<^verbatim>\<open>get_cpu_temperature\<close> and \<^verbatim>\<open>get_gpu_temperature\<close> return the cached values.\<close>

definition get_cpu_power :: "pcstate \<Rightarrow> cfloat" where "get_cpu_power s = cached_cpu_power s"
definition get_gpu_power :: "pcstate \<Rightarrow> cfloat" where "get_gpu_power s = cached_gpu_power s"
definition get_gpu_freq :: "pcstate \<Rightarrow> cfloat" where "get_gpu_freq s = cached_gpu_freq s"
definition get_gpu_load :: "pcstate \<Rightarrow> cfloat" where "get_gpu_load s = cached_gpu_load s"
definition get_cpu_temperature :: "pcstate \<Rightarrow> cfloat" where
  "get_cpu_temperature s = cached_cpu_temp s"
definition get_gpu_temperature :: "pcstate \<Rightarrow> cfloat" where
  "get_gpu_temperature s = cached_gpu_temp s"

section \<open>The public interface: initialisation, the sampling cycle, JSON\<close>

text \<open>
  The structures of \<^verbatim>\<open>pcstats.h\<close>. The members of the nested structures carry the
  name of their structure as a prefix (\<^verbatim>\<open>status->cpu.temp\<close> is \<open>cpu_temp (cpu status)\<close>).
\<close>

record Motherboard =
  board_temp :: cfloat
  board_rpm :: cfloat
  board_tick :: int

record CPU =
  cpu_temp :: cfloat
  cpu_tempMax :: cfloat
  cpu_load :: cfloat
  cpu_consume :: cfloat
  cpu_tjMax :: int
  cpu_core1DistanceToTjMax :: cfloat
  cpu_core1Temp :: cfloat

record GPU =
  gpu_temp :: cfloat
  gpu_tempMax :: cfloat
  gpu_load :: cfloat
  gpu_consume :: cfloat
  gpu_rpm :: cfloat
  gpu_memUsed :: cfloat
  gpu_memTotal :: cfloat
  gpu_freq :: cfloat

record PcStatus =
  board :: Motherboard
  cpu :: CPU
  gpu :: GPU
  storage :: Storage
  memory :: Memory
  network :: Network
  cmd :: int
  time_stamp :: int

text \<open>
  \<^verbatim>\<open>void get_disk_usage(Storage *storage)\<close>: the percentage comes from \<^verbatim>\<open>statvfs\<close>, in
  \<^verbatim>\<open>uint64_t\<close> and then \<^verbatim>\<open>float\<close> arithmetic; the other three members are set to 0.
\<close>

definition get_disk_usage :: "world \<Rightarrow> Storage" where
  "get_disk_usage w =
     (let percent =
            (case sys_statvfs w of
               Some stat \<Rightarrow>
                 (let total = f_blocks stat * f_frsize stat;
                      free_space = f_bfree stat * f_frsize stat;
                      used = total - free_space
                  in cf_mul (cf_div (cf_of_int (uint used)) (cf_of_int (uint total))) (FVal 100))
             | None \<Rightarrow> FVal 0)
      in \<lparr>storage_temp = FVal 0, storage_read = FVal 0, storage_write = FVal 0,
          storage_percent = percent\<rparr>)"

text \<open>\<^verbatim>\<open>void pcstats_init(void)\<close>: the timing baselines and the first CPU reading belong
  to the simple collectors; the first IOReport sample is taken here.\<close>

definition pcstats_init :: "world \<Rightarrow> pcstate \<Rightarrow> pcstate option" where
  "pcstats_init w s =
     (if pcstats_initialized s then Some s
      else case ior_sample w s of
             None \<Rightarrow> None
           | Some s1 \<Rightarrow> Some (s1\<lparr>pcstats_initialized := True\<rparr>))"

text \<open>\<^verbatim>\<open>void pcstats_enable_temps(int enable)\<close>\<close>

definition pcstats_enable_temps :: "int \<Rightarrow> pcstate \<Rightarrow> pcstate" where
  "pcstats_enable_temps enable s = s\<lparr>use_native_temps := enable\<rparr>"

text \<open>
  \<^verbatim>\<open>void collect_stats(PcStatus *status)\<close>: the status it fills and the new state.
  Every member of the status is assigned. \<^verbatim>\<open>status->cpu.tjMax - status->cpu.temp\<close>
  converts \<^verbatim>\<open>tjMax\<close> to \<^verbatim>\<open>float\<close> and subtracts in \<^verbatim>\<open>float\<close>.
\<close>

definition collect_stats :: "world \<Rightarrow> pcstate \<Rightarrow> (PcStatus \<times> pcstate) option" where
  "collect_stats w s =
     (let now = clock_now w;
          stamp = now + clock_gmtoff w - 3600
      in case (if use_native_temps s \<noteq> 0
               then ior_sample w (update_temperatures_native w s) else Some s) of
           None \<Rightarrow> None
         | Some s1 \<Rightarrow>
             (case get_fan_info w s1 of (fans, s2) \<Rightarrow>
              case smc_get_board_temperature w s2 of (btemp, s3) \<Rightarrow>
                (let ctemp = get_cpu_temperature s3;
                     tj = 100
                 in Some
                   (\<lparr>board = \<lparr>board_temp = btemp,
                               board_rpm = (if 0 < fan_count fans then fan_rpm fans ! 0 else FVal 0),
                               board_tick = sys_uptime_seconds w\<rparr>,
                     cpu = \<lparr>cpu_temp = ctemp, cpu_tempMax = FVal 100, cpu_load = sys_cpu_usage w,
                             cpu_consume = get_cpu_power s3, cpu_tjMax = tj,
                             cpu_core1DistanceToTjMax = cf_sub (cf_of_int tj) ctemp,
                             cpu_core1Temp = ctemp\<rparr>,
                     gpu = \<lparr>gpu_temp = get_gpu_temperature s3, gpu_tempMax = FVal 100,
                             gpu_load = get_gpu_load s3, gpu_consume = get_gpu_power s3,
                             gpu_rpm = (if 1 < fan_count fans then fan_rpm fans ! 1 else FVal 0),
                             gpu_memUsed = FVal 0, gpu_memTotal = FVal 0,
                             gpu_freq = get_gpu_freq s3\<rparr>,
                     storage = get_disk_usage w,
                     memory = sys_memory_usage w,
                     network = sys_network_throughput w,
                     cmd = 1230,
                     time_stamp = stamp\<rparr>, s3))))"

text \<open>
  \<^verbatim>\<open>int build_json(PcStatus *status, char *buffer, size_t bufsize)\<close>. The conversions
  \<^verbatim>\<open>%.1f\<close>, \<^verbatim>\<open>%d\<close> and \<^verbatim>\<open>%ld\<close> of the C library are parameters. \<open>json_text\<close> is the
  whole formatted text: the opening brace and the six member objects
  (\<open>json_members\<close>), then the \<^verbatim>\<open>cmd\<close> and \<^verbatim>\<open>time\<close> members. \<^verbatim>\<open>snprintf\<close> returns the
  length of the text and stores its first \<open>bufsize - 1\<close> characters (nothing when
  \<open>bufsize\<close> is 0).
\<close>

record printf_conv =
  fmt_f1 :: "cfloat \<Rightarrow> string"
  fmt_d :: "int \<Rightarrow> string"
  fmt_ld :: "int \<Rightarrow> string"

definition json_members :: "printf_conv \<Rightarrow> PcStatus \<Rightarrow> string" where
  "json_members p st =
     ''{'' @
     ''\"board\":{\"temp\":'' @ fmt_f1 p (board_temp (board st)) @
       '',\"rpm\":'' @ fmt_f1 p (board_rpm (board st)) @
       '',\"tick\":'' @ fmt_d p (board_tick (board st)) @ ''},'' @
     ''\"cpu\":{\"temp\":'' @ fmt_f1 p (cpu_temp (cpu st)) @
       '',\"tempMax\":'' @ fmt_f1 p (cpu_tempMax (cpu st)) @
       '',\"load\":'' @ fmt_f1 p (cpu_load (cpu st)) @
       '',\"consume\":'' @ fmt_f1 p (cpu_consume (cpu st)) @
       '',\"tjMax\":'' @ fmt_d p (cpu_tjMax (cpu st)) @
       '',\"core1DistanceToTjMax\":'' @ fmt_f1 p (cpu_core1DistanceToTjMax (cpu st)) @
       '',\"core1Temp\":'' @ fmt_f1 p (cpu_core1Temp (cpu st)) @ ''},'' @
     ''\"gpu\":{\"temp\":'' @ fmt_f1 p (gpu_temp (gpu st)) @
       '',\"tempMax\":'' @ fmt_f1 p (gpu_tempMax (gpu st)) @
       '',\"load\":'' @ fmt_f1 p (gpu_load (gpu st)) @
       '',\"consume\":'' @ fmt_f1 p (gpu_consume (gpu st)) @
       '',\"rpm\":'' @ fmt_f1 p (gpu_rpm (gpu st)) @
       '',\"memUsed\":'' @ fmt_f1 p (gpu_memUsed (gpu st)) @
       '',\"memTotal\":'' @ fmt_f1 p (gpu_memTotal (gpu st)) @
       '',\"freq\":'' @ fmt_f1 p (gpu_freq (gpu st)) @ ''},'' @
     ''\"storage\":{\"temp\":'' @ fmt_f1 p (storage_temp (storage st)) @
       '',\"read\":'' @ fmt_f1 p (storage_read (storage st)) @
       '',\"write\":'' @ fmt_f1 p (storage_write (storage st)) @
       '',\"percent\":'' @ fmt_f1 p (storage_percent (storage st)) @ ''},'' @
     ''\"memory\":{\"used\":'' @ fmt_f1 p (mem_used (memory st)) @
       '',\"avail\":'' @ fmt_f1 p (mem_avail (memory st)) @
       '',\"percent\":'' @ fmt_f1 p (mem_percent (memory st)) @ ''},'' @
     ''\"network\":{\"up\":'' @ fmt_f1 p (net_up (network st)) @
       '',\"down\":'' @ fmt_f1 p (net_down (network st)) @ ''},''"

definition json_text :: "printf_conv \<Rightarrow> PcStatus \<Rightarrow> string" where
  "json_text p st =
     json_members p st @
     ''\"cmd\":1230'' @ '','' @
     ''\"time\":'' @ fmt_ld p (time_stamp st) @
     ''}''"

definition build_json :: "printf_conv \<Rightarrow> PcStatus \<Rightarrow> nat \<Rightarrow> int \<times> string" where
  "build_json p st bufsize =
     (int (length (json_text p st)), take (bufsize - 1) (json_text p st))"

section \<open>Notions the properties are stated with\<close>

text \<open>
  The decoded readings of a list of cached keys: what \<^verbatim>\<open>smc_read_temp_cached\<close>
  returns for each of them, in the order of the cache.
\<close>

definition smc_readings :: "world \<Rightarrow> pcstate \<Rightarrow> CachedSMCKey list \<Rightarrow> cfloat list" where
  "smc_readings w s ks =
     map (\<lambda>k. fst (smc_read_temp_cached w s (key_fourcc k) (cached_key_info k))) ks"

text \<open>
  The state in which \<^verbatim>\<open>smc_get_temperatures\<close> and \<^verbatim>\<open>smc_get_board_temperature\<close> read
  their keys: after the cache initialisation that both run first when the flag is
  not set.
\<close>

definition after_cache_init :: "world \<Rightarrow> pcstate \<Rightarrow> pcstate" where
  "after_cache_init w s = (if \<not> smc_cache_initialized s then smc_init_cache w s else s)"

text \<open>
  The aggregation policy in the words of the specification: the readings strictly
  inside the window survive (an infinity or a NaN is never inside); the result is
  their arithmetic mean, and 0.0 when none survives. \<open>real_mean\<close> is the mean in the
  real numbers; \<open>float_mean\<close> is the mean as a \<^verbatim>\<open>float\<close> computation has it: the sum
  of the values in their order and its quotient by their number, each operation
  rounded to binary32. \<open>float_eps\<close> bounds the relative error of one such rounding.
\<close>

fun survivors :: "real \<Rightarrow> real \<Rightarrow> cfloat list \<Rightarrow> real list" where
  "survivors lo hi [] = []"
| "survivors lo hi (FVal v # ts) =
     (if lo < v \<and> v < hi then v # survivors lo hi ts else survivors lo hi ts)"
| "survivors lo hi (t # ts) = survivors lo hi ts"

definition float_eps :: real where
  "float_eps = 1 / 2 ^ 24"

definition real_mean :: "real list \<Rightarrow> real" where
  "real_mean vs = sum_list vs / real (length vs)"

definition float_mean :: "real list \<Rightarrow> cfloat" where
  "float_mean vs = cf_div (foldl cf_add (FVal 0) (map FVal vs)) (cf_of_int (int (length vs)))"

definition window_mean :: "real \<Rightarrow> real \<Rightarrow> cfloat list \<Rightarrow> cfloat" where
  "window_mean lo hi ts =
     (let vs = survivors lo hi ts in if vs = [] then FVal 0 else float_mean vs)"

text \<open>\<open>smc_calls_only s s'\<close>: the state \<open>s'\<close> differs from \<open>s\<close> at most in the list of SMC calls.\<close>

definition smc_calls_only :: "pcstate \<Rightarrow> pcstate \<Rightarrow> bool" where
  "smc_calls_only s s' = (s' = s\<lparr>smc_calls := smc_calls s'\<rparr>)"

section \<open>Worlds for examples\<close>

text \<open>\<open>dead_world\<close>: no interface outside the process answers.\<close>

definition dead_world :: world where
  "dead_world =
     \<lparr>smc_endpoint_opens = False,
      smc_call = (\<lambda>input. (1, SMCKeyData_zero)),
      hid_client = False, hid_services = None,
      dlopen_ok = False, dlsym_found = no_symbols,
      ior_energy_ch = False, ior_gpu_ch = False, ior_channels_copy = False,
      ior_subscribe = False, ior_create_samples = None,
      ior_samples_delta = (\<lambda>a b. None),
      arm_io_devices = None,
      clock_ms = 0, clock_now = 0, clock_gmtoff = 0,
      sys_uptime_seconds = 0, sys_cpu_usage = FVal 0,
      sys_statvfs = None,
      sys_memory_usage = \<lparr>mem_used = FVal 0, mem_avail = FVal 0, mem_percent = FVal 0\<rparr>,
      sys_network_throughput = \<lparr>net_up = FVal 0, net_down = FVal 0\<rparr>\<rparr>"

text \<open>
  An SMC that knows the keys of a table: for a key of the table it answers command
  9 with the key's info and command 5 with the key's bytes; any other request gets
  the result code 132 (key not found).
\<close>

definition smc_answer ::
    "(32 word \<times> SMCKeyDataKeyInfo \<times> 8 word list) list \<Rightarrow> SMCKeyData \<Rightarrow> nat \<times> SMCKeyData" where
  "smc_answer tbl input =
     (case map_of tbl (key input) of
        None \<Rightarrow> (0, SMCKeyData_zero\<lparr>result := 132\<rparr>)
      | Some (info, bs) \<Rightarrow>
          if data8 input = 9 then (0, SMCKeyData_zero\<lparr>key_info := info\<rparr>)
          else if data8 input = 5 then (0, SMCKeyData_zero\<lparr>bytes := bs\<rparr>)
          else (0, SMCKeyData_zero\<lparr>result := 132\<rparr>))"

definition smc_world :: "(32 word \<times> SMCKeyDataKeyInfo \<times> 8 word list) list \<Rightarrow> world" where
  "smc_world tbl = dead_world\<lparr>smc_endpoint_opens := True, smc_call := smc_answer tbl\<rparr>"

text \<open>A one-byte key (type "ui8 ") that reads \<open>b\<close>.\<close>

definition ui8_key :: "string \<Rightarrow> 8 word \<Rightarrow> 32 word \<times> SMCKeyDataKeyInfo \<times> 8 word list" where
  "ui8_key k b =
     (str_to_fourcc k,
      \<lparr>data_size = 1, data_type = str_to_fourcc ''ui8 '', data_attributes = 0\<rparr>,
      b # replicate 31 0)"

text \<open>Three processor keys that read 5, 45 and 140 degrees.\<close>

definition three_cpu_keys_world :: world where
  "three_cpu_keys_world =
     smc_world [ui8_key ''Tp01'' 5, ui8_key ''Tp02'' 45, ui8_key ''Tp03'' 140]"

text \<open>
  A machine without an SMC endpoint whose HID event system has one processor
  sensor at 55 degrees and one graphics sensor at 60 degrees.
\<close>

definition hid_world :: world where
  "hid_world =
     dead_world\<lparr>hid_client := True,
       hid_services := Some
         [\<lparr>hid_product = Some ''pACC MTR Temp Sensor0'', hid_temperature = Some (FVal 55)\<rparr>,
          \<lparr>hid_product = Some ''GPU MTR Temp Sensor1'', hid_temperature = Some (FVal 60)\<rparr>]\<rparr>"

text \<open>
  A machine whose key Tp01 has metadata with a byte length of 64 and the type
  "flt "; the first four bytes of its value are the binary32 pattern of 45.0.
\<close>

definition oversize_world :: world where
  "oversize_world =
     smc_world
       [(str_to_fourcc ''Tp01'',
         \<lparr>data_size = 64, data_type = str_to_fourcc ''flt '', data_attributes = 0\<rparr>,
         [0x00, 0x00, 0x34, 0x42] @ replicate 28 0)]"

section \<open>The residency formula in the words of the specification\<close>

text \<open>
  A state is active when it has a name and the name is none of IDLE, OFF, DOWN.
  \<open>is_first_active names k\<close>: \<open>k\<close> is the first index of an active state.
\<close>

definition idle_name :: "string \<Rightarrow> bool" where
  "idle_name n = (n = ''IDLE'' \<or> n = ''OFF'' \<or> n = ''DOWN'')"

definition named_active :: "string option \<Rightarrow> bool" where
  "named_active n = (case n of None \<Rightarrow> False | Some buf \<Rightarrow> \<not> idle_name buf)"

definition is_first_active :: "string option list \<Rightarrow> nat \<Rightarrow> bool" where
  "is_first_active names k =
     (k < length names \<and> named_active (names ! k) \<and>
      list_all (\<lambda>n. \<not> named_active n) (take k names))"

text \<open>
  The total residency, the residency at and after the offset, and the sum
  \<open>residency[i] * table[i - offset]\<close> over the indices \<open>i\<close> from the offset on for
  which \<open>i - offset\<close> is within the table, all three as integers without bound.
  \<open>abs_weighted_sum\<close> is the last sum with the magnitudes of the residencies.
  \<open>int64_range n\<close>: the integer \<open>n\<close> is a value of \<^verbatim>\<open>int64_t\<close>.
\<close>

definition total_residency :: "64 word list \<Rightarrow> int" where
  "total_residency rs = sum_list (map sint rs)"

definition active_residency :: "nat \<Rightarrow> 64 word list \<Rightarrow> int" where
  "active_residency offset rs = (\<Sum>i\<leftarrow>[offset ..< length rs]. sint (rs ! i))"

definition weighted_sum :: "32 word list \<Rightarrow> nat \<Rightarrow> 64 word list \<Rightarrow> int" where
  "weighted_sum table offset rs =
     (\<Sum>i\<leftarrow>[offset ..< length rs].
        if i - offset < length table then sint (rs ! i) * uint (table ! (i - offset)) else 0)"

definition abs_weighted_sum :: "32 word list \<Rightarrow> nat \<Rightarrow> 64 word list \<Rightarrow> int" where
  "abs_weighted_sum table offset rs =
     (\<Sum>i\<leftarrow>[offset ..< length rs].
        if i - offset < length table then \<bar>sint (rs ! i)\<bar> * uint (table ! (i - offset)) else 0)"

definition int64_range :: "int \<Rightarrow> bool" where
  "int64_range n = (- (2 ^ 63) \<le> n \<and> n < 2 ^ 63)"

text \<open>
  The weighted sum as a \<^verbatim>\<open>double\<close> computation has it: the products are added in
  the order of the indices, each product and each sum rounded to binary64.
\<close>

definition weighted_step :: "32 word list \<Rightarrow> nat \<Rightarrow> 64 word list \<Rightarrow> cfloat \<Rightarrow> nat \<Rightarrow> cfloat" where
  "weighted_step table offset rs acc i =
     (if i - offset < length table
      then cd_add acc (cd_mul (cd_of_int (sint (rs ! i))) (cd_of_int (uint (table ! (i - offset)))))
      else acc)"

definition weighted_double :: "32 word list \<Rightarrow> nat \<Rightarrow> 64 word list \<Rightarrow> cfloat" where
  "weighted_double table offset rs =
     foldl (weighted_step table offset rs) (FVal 0) [offset ..< length rs]"

text \<open>
  A state in which the frequency table is loaded and all of libIOReport is
  resolved, and the performance-state channel of the specification's example.
\<close>

definition all_symbols :: ior_symbols where
  "all_symbols =
     \<lparr>pIOReportCopyChannelsInGroup = True, pIOReportMergeChannels = True,
      pIOReportCreateSubscription = True, pIOReportCreateSamples = True,
      pIOReportCreateSamplesDelta = True, pIOReportChannelGetGroup = True,
      pIOReportChannelGetSubGroup = True, pIOReportChannelGetChannelName = True,
      pIOReportChannelGetUnitLabel = True, pIOReportSimpleGetIntegerValue = True,
      pIOReportStateGetCount = True, pIOReportStateGetNameForIndex = True,
      pIOReportStateGetResidency = True\<rparr>"

text \<open>
  A machine whose SMC has the board key Tm0P, reading 40 degrees, and whose root
  file system has 1000 blocks of 4096 bytes, 250 of them free.
\<close>

definition board_world :: world where
  "board_world =
     (smc_world [ui8_key ''Tm0P'' 40])
       \<lparr>sys_statvfs := Some \<lparr>f_blocks = 1000, f_bfree = 250, f_frsize = 4096\<rparr>\<rparr>"

text \<open>A machine where libIOReport loads, subscribes and delivers samples.\<close>

definition ioreport_world :: world where
  "ioreport_world =
     dead_world\<lparr>dlopen_ok := True, dlsym_found := all_symbols, ior_energy_ch := True,
       ior_gpu_ch := True, ior_channels_copy := True, ior_subscribe := True,
       ior_create_samples := Some 1\<rparr>"

definition table_state :: "32 word list \<Rightarrow> pcstate" where
  "table_state table = initial_state\<lparr>gpu_freqs := table, ior_syms := all_symbols\<rparr>"

definition gpuph_channel :: "(string option \<times> 64 word) list \<Rightarrow> ior_channel" where
  "gpuph_channel states =
     \<lparr>ch_group = Some ''GPU Stats'', ch_name = Some ''GPUPH'', ch_unit = None,
      ch_integer_value = 0, ch_states = states\<rparr>"

text \<open>
  \<open>smc_fields_only s s'\<close>: the state \<open>s'\<close> differs from \<open>s\<close> at most in the variables
  of the SMC client (connection, key caches, initialisation flag) and in the two
  counts of SMC traffic.
\<close>

definition smc_fields_only :: "pcstate \<Rightarrow> pcstate \<Rightarrow> bool" where
  "smc_fields_only s s' =
     (s' = s\<lparr>smc_conn := smc_conn s', cached_cpu_keys := cached_cpu_keys s',
             cached_gpu_keys := cached_gpu_keys s', cached_board_keys := cached_board_keys s',
             smc_cache_initialized := smc_cache_initialized s',
             smc_opens := smc_opens s', smc_calls := smc_calls s'\<rparr>)"

text \<open>
  The invariant of the key caches: they are empty until the initialisation flag is
  set, no cache holds a key twice, and none holds more keys than its array has
  entries.
\<close>

definition cache_inv :: "pcstate \<Rightarrow> bool" where
  "cache_inv s =
     ((smc_cache_initialized s \<or>
       (cached_cpu_keys s = [] \<and> cached_gpu_keys s = [] \<and> cached_board_keys s = [])) \<and>
      distinct (map key_fourcc (cached_cpu_keys s)) \<and>
      distinct (map key_fourcc (cached_gpu_keys s)) \<and>
      distinct (map key_fourcc (cached_board_keys s)) \<and>
      length (cached_cpu_keys s) \<le> MAX_CACHED_KEYS \<and>
      length (cached_gpu_keys s) \<le> MAX_CACHED_KEYS \<and>
      length (cached_board_keys s) \<le> MAX_CACHED_KEYS)"

text \<open>A status with every member zero, and conversions that print every number as zero.\<close>

definition zero_status :: PcStatus where
  "zero_status =
     \<lparr>board = \<lparr>board_temp = FVal 0, board_rpm = FVal 0, board_tick = 0\<rparr>,
      cpu = \<lparr>cpu_temp = FVal 0, cpu_tempMax = FVal 0, cpu_load = FVal 0, cpu_consume = FVal 0,
              cpu_tjMax = 0, cpu_core1DistanceToTjMax = FVal 0, cpu_core1Temp = FVal 0\<rparr>,
      gpu = \<lparr>gpu_temp = FVal 0, gpu_tempMax = FVal 0, gpu_load = FVal 0, gpu_consume = FVal 0,
              gpu_rpm = FVal 0, gpu_memUsed = FVal 0, gpu_memTotal = FVal 0, gpu_freq = FVal 0\<rparr>,
      storage = \<lparr>storage_temp = FVal 0, storage_read = FVal 0, storage_write = FVal 0,
                  storage_percent = FVal 0\<rparr>,
      memory = \<lparr>mem_used = FVal 0, mem_avail = FVal 0, mem_percent = FVal 0\<rparr>,
      network = \<lparr>net_up = FVal 0, net_down = FVal 0\<rparr>,
      cmd = 0, time_stamp = 0\<rparr>"

definition zero_conv :: printf_conv where
  "zero_conv = \<lparr>fmt_f1 = (\<lambda>x. ''0.0''), fmt_d = (\<lambda>n. ''0''), fmt_ld = (\<lambda>n. ''0'')\<rparr>"

section \<open>Properties of the rounding\<close>

lemma pow2_powr: "pow2 q = 2 powr (real_of_int q)"
proof (cases "0 \<le> q")
  case True
  then have "2 powr real_of_int q = 2 powr real (nat q)" by simp
  also have "\<dots> = 2 ^ nat q" by (simp add: powr_realpow)
  finally show ?thesis using True by (simp add: pow2_def)
next
  case False
  then have "2 powr real_of_int q = 2 powr (- real (nat (- q)))" by simp
  also have "\<dots> = 1 / 2 powr real (nat (- q))" by (simp only: powr_minus_divide)
  also have "\<dots> = 1 / 2 ^ nat (- q)" by (simp add: powr_realpow)
  finally show ?thesis using False by (simp add: pow2_def)
qed

lemma pow2_pos [simp]: "0 < pow2 q"
  by (simp add: pow2_powr)

lemma pow2_add: "pow2 (a + b) = pow2 a * pow2 b"
  by (simp add: pow2_powr powr_add)

lemma pow2_le [simp]: "pow2 a \<le> pow2 b \<longleftrightarrow> a \<le> b"
  by (simp add: pow2_powr)

lemma pow2_less [simp]: "pow2 a < pow2 b \<longleftrightarrow> a < b"
  by (simp add: pow2_powr)

lemma pow2_0 [simp]: "pow2 0 = 1"
  by (simp add: pow2_def)

lemma pow2_nat: "pow2 (int n) = 2 ^ n"
  by (simp add: pow2_def)

lemma pow2_1 [simp]: "pow2 1 = 2"
  by (simp add: pow2_def)

lemma pow2_Suc: "pow2 (q + 1) = 2 * pow2 q"
  by (simp add: pow2_add)

lemma binade_range: "q - int n \<le> binade n q x \<and> binade n q x \<le> q"
  by (induction n q x rule: binade.induct) auto

lemma binade_lower: "q - int n < binade n q x \<Longrightarrow> pow2 (binade n q x) \<le> x"
  by (induction n q x rule: binade.induct) (auto split: if_splits)

lemma binade_upper: "binade n q x < q \<Longrightarrow> x < pow2 (binade n q x + 1)"
proof (induction n q x rule: binade.induct)
  case (1 q x)
  then show ?case by simp
next
  case (2 n q x)
  show ?case
  proof (cases "pow2 q \<le> x")
    case True
    with 2 show ?thesis by simp
  next
    case False
    then have e: "binade (Suc n) q x = binade n (q - 1) x" by simp
    show ?thesis
    proof (cases "binade n (q - 1) x < q - 1")
      case True
      with 2 False show ?thesis by simp
    next
      case b: False
      with binade_range[of "q - 1" n x] have "binade n (q - 1) x = q - 1" by simp
      with False e show ?thesis by simp
    qed
  qed
qed

lemma binade_eq:
  "q - int n \<le> e \<Longrightarrow> e \<le> q \<Longrightarrow> e = q - int n \<or> pow2 e \<le> x \<Longrightarrow> e = q \<or> x < pow2 (e + 1)
     \<Longrightarrow> binade n q x = e"
proof (induction n q x rule: binade.induct)
  case (1 q x)
  then show ?case by simp
next
  case (2 n q x)
  show ?case
  proof (cases "pow2 q \<le> x")
    case True
    have "e = q"
    proof (rule ccontr)
      assume "e \<noteq> q"
      with 2 have "x < pow2 (e + 1)" "e + 1 \<le> q" by auto
      then have "x < pow2 q" using pow2_le[of "e + 1" q] by linarith
      with True show False by simp
    qed
    with True show ?thesis by simp
  next
    case False
    have "e \<noteq> q"
    proof
      assume "e = q"
      with 2(4) have "e = q - int (Suc n) \<or> pow2 q \<le> x" by simp
      with \<open>e = q\<close> False show False by simp
    qed
    with 2 False have "binade n (q - 1) x = e"
      by (intro 2(1)) auto
    with False show ?thesis by simp
  qed
qed

lemma round_even_int [simp]: "round_even (of_int k) = k"
  by (simp add: round_even_def)

lemma round_even_err: "\<bar>of_int (round_even y) - y\<bar> \<le> 1 / 2"
proof -
  have "of_int \<lfloor>y\<rfloor> \<le> y" "y < of_int \<lfloor>y\<rfloor> + 1" by linarith+
  then show ?thesis by (auto simp: round_even_def Let_def)
qed

lemma round_even_nonneg: "0 \<le> y \<Longrightarrow> 0 \<le> round_even y"
  by (auto simp: round_even_def Let_def)

lemma int_le_from_real: "real_of_int k < real_of_int m + 1 \<Longrightarrow> k \<le> m"
  by linarith

lemma int_ge_from_real: "real_of_int m - 1 < real_of_int k \<Longrightarrow> m \<le> k"
  by linarith

lemma fp_round_nonneg:
  "0 \<le> x \<Longrightarrow> fp_round p emin emax x =
     (let e = binade (nat (emax - emin)) emax x;
          q = e - int p + 1;
          v = of_int (round_even (x / pow2 q)) * pow2 q
      in if pow2 (emax + 1) \<le> v then FPosInf else FVal v)"
  by (simp add: fp_round_def Let_def)

lemma fp_round_eval:
  assumes "0 \<le> x" "emin \<le> e" "e \<le> emax" "e = emin \<or> pow2 e \<le> x" "e = emax \<or> x < pow2 (e + 1)"
  shows "fp_round p emin emax x =
     (let v = of_int (round_even (x / pow2 (e - int p + 1))) * pow2 (e - int p + 1)
      in if pow2 (emax + 1) \<le> v then FPosInf else FVal v)"
proof -
  have "binade (nat (emax - emin)) emax x = e"
    using assms by (intro binade_eq) auto
  then show ?thesis using assms(1) by (simp add: fp_round_nonneg Let_def)
qed

lemma pow2_not_le0 [simp]: "\<not> pow2 q \<le> 0"
  using pow2_pos[of q] by linarith

lemma pow2_ne0 [simp]: "pow2 q \<noteq> 0"
  using pow2_pos[of q] by linarith

lemma pow2_nonneg [simp]: "0 \<le> pow2 q"
  using pow2_pos[of q] by linarith

lemma round_even_0 [simp]: "round_even 0 = 0"
  by (simp add: round_even_def)

lemma fp_round_0 [simp]: "fp_round p emin emax 0 = FVal 0"
  by (simp add: fp_round_def Let_def)

text \<open>The binade of a value in the normal range.\<close>

lemma binade_normal:
  assumes "emin \<le> emax" "pow2 emin \<le> x" "x < pow2 (emax + 1)"
  defines "e \<equiv> binade (nat (emax - emin)) emax x"
  shows "emin \<le> e" "e \<le> emax" "pow2 e \<le> x" "x < pow2 (e + 1)"
proof -
  have r: "emax - int (nat (emax - emin)) \<le> e \<and> e \<le> emax"
    unfolding e_def by (rule binade_range)
  show 1: "emin \<le> e" and 2: "e \<le> emax" using r assms(1) by auto
  show "pow2 e \<le> x"
  proof (cases "emin < e")
    case True
    then have "emax - int (nat (emax - emin)) < e" using assms(1) by simp
    then show ?thesis unfolding e_def by (rule binade_lower)
  next
    case False
    with 1 have "e = emin" by simp
    with assms(2) show ?thesis by simp
  qed
  show "x < pow2 (e + 1)"
  proof (cases "e < emax")
    case True
    then show ?thesis unfolding e_def by (rule binade_upper)
  next
    case False
    with 2 have "e = emax" by simp
    with assms(3) show ?thesis by simp
  qed
qed

lemma pow2_diff: "pow2 (a - b) = pow2 a / pow2 b"
  by (simp add: pow2_powr powr_diff)

lemma pow2_p: "pow2 (int p) = 2 ^ p"
  by (simp add: pow2_def)

text \<open>Relative error of rounding in the normal range.\<close>

lemma fp_round_rel_error:
  assumes "emin \<le> emax" "pow2 emin \<le> x" "x < pow2 emax"
  shows "\<exists>r. fp_round p emin emax x = FVal r \<and> \<bar>r - x\<bar> \<le> x / 2 ^ p"
proof -
  define e where "e = binade (nat (emax - emin)) emax x"
  define q where "q = e - int p + 1"
  define k where "k = round_even (x / pow2 q)"
  define v where "v = real_of_int k * pow2 q"
  have x0: "0 < x" using assms(2) pow2_pos[of emin] by linarith
  have xm: "x < pow2 (emax + 1)" using assms(3) pow2_less[of emax "emax + 1"] by linarith
  note b = binade_normal[OF assms(1) assms(2) xm, folded e_def]
  have err: "\<bar>real_of_int k - x / pow2 q\<bar> \<le> 1 / 2" unfolding k_def by (rule round_even_err)
  have "\<bar>v - x\<bar> = \<bar>real_of_int k - x / pow2 q\<bar> * pow2 q"
  proof -
    have "v - x = (real_of_int k - x / pow2 q) * pow2 q"
      by (simp add: v_def algebra_simps)
    then show ?thesis by (simp add: abs_mult abs_of_pos)
  qed
  also have "\<dots> \<le> 1 / 2 * pow2 q"
    by (rule mult_right_mono[OF err]) simp
  also have "1 / 2 * pow2 q = pow2 e / 2 ^ p"
  proof -
    have "q = (e - int p) + 1" by (simp add: q_def)
    then have "pow2 q = 2 * pow2 (e - int p)" by (simp only: pow2_Suc)
    then show ?thesis by (simp add: pow2_diff pow2_p)
  qed
  also have "\<dots> \<le> x / 2 ^ p"
    using b(3) by (simp add: divide_right_mono)
  finally have bound: "\<bar>v - x\<bar> \<le> x / 2 ^ p" .
  have "x / 2 ^ p \<le> x"
    using x0 by (simp add: divide_le_eq)
  with bound have "v \<le> 2 * x" by linarith
  also have "\<dots> < 2 * pow2 emax" using assms(3) by simp
  also have "\<dots> = pow2 (emax + 1)" by (simp add: pow2_Suc)
  finally have fin: "\<not> pow2 (emax + 1) \<le> v" by simp
  have "fp_round p emin emax x = FVal v"
    using x0 fin by (simp add: fp_round_nonneg Let_def e_def[symmetric] q_def[symmetric] k_def[symmetric] v_def[symmetric])
  with bound show ?thesis by blast
qed

text \<open>A value below a power of two rounds to at most that power.\<close>

lemma fp_round_le_pow2:
  assumes "emin < e0" "e0 \<le> emax" "0 \<le> x" "x < pow2 e0"
  shows "\<exists>r. fp_round p emin emax x = FVal r \<and> 0 \<le> r \<and> r \<le> pow2 e0"
proof -
  define e where "e = binade (nat (emax - emin)) emax x"
  define q where "q = e - int p + 1"
  define k where "k = round_even (x / pow2 q)"
  define v where "v = real_of_int k * pow2 q"
  have r: "emax - int (nat (emax - emin)) \<le> e \<and> e \<le> emax"
    unfolding e_def by (rule binade_range)
  have emin: "emin \<le> e" using r assms(1,2) by auto
  have lt: "e < e0"
  proof (cases "emin < e")
    case True
    then have "emax - int (nat (emax - emin)) < e" using assms(1,2) by simp
    then have "pow2 e \<le> x" unfolding e_def by (rule binade_lower)
    with assms(4) have "pow2 e < pow2 e0" by linarith
    then show ?thesis by simp
  next
    case False
    with emin assms(1) show ?thesis by simp
  qed
  then have "e < emax" using assms(2) by simp
  then have up: "x < pow2 (e + 1)" unfolding e_def by (rule binade_upper)
  have pq: "pow2 (e + 1) = 2 ^ p * pow2 q"
  proof -
    have "e + 1 = int p + q" by (simp add: q_def)
    then show ?thesis by (simp only: pow2_add pow2_p)
  qed
  have "x / pow2 q < 2 ^ p"
    using up by (simp add: pq divide_less_eq)
  moreover have "\<bar>real_of_int k - x / pow2 q\<bar> \<le> 1 / 2" unfolding k_def by (rule round_even_err)
  ultimately have "real_of_int k < 2 ^ p + 1" by linarith
  then have "real_of_int k < real_of_int (2 ^ p) + 1" by simp
  then have "k \<le> 2 ^ p" by (rule int_le_from_real)
  then have "real_of_int k \<le> 2 ^ p" by (metis of_int_le_iff of_int_numeral of_int_power)
  then have "v \<le> 2 ^ p * pow2 q" unfolding v_def by (rule mult_right_mono) simp_all
  then have v1: "v \<le> pow2 (e + 1)" by (simp only: pq)
  have "pow2 (e + 1) \<le> pow2 e0" using lt by simp
  with v1 have v2: "v \<le> pow2 e0" by linarith
  have "pow2 e0 < pow2 (emax + 1)" using assms(2) by simp
  with v2 have fin: "\<not> pow2 (emax + 1) \<le> v" by linarith
  have "0 \<le> x / pow2 q" using assms(3) by simp
  then have "0 \<le> k" unfolding k_def by (rule round_even_nonneg)
  then have v0: "0 \<le> v" by (simp add: v_def)
  have "fp_round p emin emax x = FVal v"
    using assms(3) fin by (simp add: fp_round_nonneg Let_def e_def[symmetric] q_def[symmetric] k_def[symmetric] v_def[symmetric])
  with v0 v2 show ?thesis by blast
qed

text \<open>A value that is at least a power of two rounds to at least that power.\<close>

lemma fp_round_ge_pow2:
  assumes "0 < p" "emin \<le> e0" "e0 \<le> emax" "pow2 e0 \<le> x" "fp_round p emin emax x = FVal r"
  shows "pow2 e0 \<le> r"
proof -
  define e where "e = binade (nat (emax - emin)) emax x"
  define q where "q = e - int p + 1"
  define k where "k = round_even (x / pow2 q)"
  define v where "v = real_of_int k * pow2 q"
  have x0: "0 < x" using assms(4) pow2_pos[of e0] by linarith
  have r: "emax - int (nat (emax - emin)) \<le> e \<and> e \<le> emax"
    unfolding e_def by (rule binade_range)
  have emin: "emin \<le> e" using r assms(2,3) by auto
  have ge: "e0 \<le> e"
  proof (cases "e < emax")
    case True
    then have "x < pow2 (e + 1)" unfolding e_def by (rule binade_upper)
    with assms(4) have "pow2 e0 < pow2 (e + 1)" by linarith
    then show ?thesis by simp
  next
    case False
    with r assms(3) show ?thesis by simp
  qed
  have lo: "pow2 e \<le> x"
  proof (cases "emin < e")
    case True
    then have "emax - int (nat (emax - emin)) < e" using assms(2,3) by simp
    then show ?thesis unfolding e_def by (rule binade_lower)
  next
    case False
    with emin have "e = emin" by simp
    then have "pow2 e \<le> pow2 e0" using assms(2) by simp
    with assms(4) show ?thesis by linarith
  qed
  obtain p' where p': "p = Suc p'" using assms(1) by (cases p) auto
  have pq: "pow2 e = 2 ^ p' * pow2 q"
  proof -
    have "e = int p' + q" by (simp add: q_def p')
    then show ?thesis by (simp only: pow2_add pow2_p)
  qed
  have "2 ^ p' \<le> x / pow2 q"
    using lo by (simp add: pq le_divide_eq)
  moreover have "\<bar>real_of_int k - x / pow2 q\<bar> \<le> 1 / 2" unfolding k_def by (rule round_even_err)
  ultimately have "2 ^ p' - 1 < real_of_int k" by linarith
  then have "real_of_int (2 ^ p') - 1 < real_of_int k" by simp
  then have "2 ^ p' \<le> k" by (rule int_ge_from_real)
  then have "2 ^ p' \<le> real_of_int k" by (metis of_int_le_iff of_int_numeral of_int_power)
  then have "2 ^ p' * pow2 q \<le> v" unfolding v_def by (rule mult_right_mono) simp_all
  then have v1: "pow2 e \<le> v" by (simp only: pq)
  have "pow2 e0 \<le> pow2 e" using ge by simp
  with v1 have v2: "pow2 e0 \<le> v" by linarith
  have "fp_round p emin emax x = (if pow2 (emax + 1) \<le> v then FPosInf else FVal v)"
    using x0 by (simp add: fp_round_nonneg Let_def e_def[symmetric] q_def[symmetric] k_def[symmetric] v_def[symmetric])
  with assms(5) have "r = v" by (simp split: if_splits)
  with v2 show ?thesis by simp
qed

text \<open>Natural numbers of at most \<open>p\<close> bits are exact.\<close>

lemma fp_round_of_nat:
  assumes "0 < p" "emin \<le> 0" "int p < emax" "n \<le> 2 ^ p"
  shows "fp_round p emin emax (real n) = FVal (real n)"
proof (cases "n = 0")
  case True
  then show ?thesis by simp
next
  case False
  define x where "x = real n"
  define e where "e = binade (nat (emax - emin)) emax x"
  define q where "q = e - int p + 1"
  have x1: "1 \<le> x" using False by (simp add: x_def)
  have xp: "x \<le> 2 ^ p" using assms(4) unfolding x_def
    by (metis of_nat_le_iff of_nat_numeral of_nat_power)
  have le: "emin \<le> emax" using assms by simp
  have lo: "pow2 emin \<le> x" using assms(2) x1 pow2_le[of emin 0] by simp
  have "(0::real) < 2 ^ p" by simp
  with xp have "x < 2 * 2 ^ p" by linarith
  then have "x < pow2 (int p + 1)" by (simp add: pow2_Suc pow2_p)
  moreover have "pow2 (int p + 1) \<le> pow2 (emax + 1)" using assms(3) by simp
  ultimately have hi: "x < pow2 (emax + 1)" by linarith
  note b = binade_normal[OF le lo hi, folded e_def]
  have "pow2 e \<le> pow2 (int p)" using b(3) xp by (simp add: pow2_p)
  then have ep: "e \<le> int p" by simp
  have "\<exists>m. x / pow2 q = real_of_int m"
  proof (cases "q \<le> 0")
    case True
    then have "pow2 q = 1 / 2 ^ nat (- q)" by (auto simp: pow2_def)
    then have "x / pow2 q = real_of_int (int n * 2 ^ nat (- q))" by (simp add: x_def)
    then show ?thesis by blast
  next
    case False
    with ep have q1: "q = 1" "e = int p" by (simp_all add: q_def)
    with b(3) xp have "x = 2 ^ p" by (simp add: pow2_p)
    moreover obtain p' where "p = Suc p'" using assms(1) by (cases p) auto
    ultimately have "x / pow2 q = real_of_int (2 ^ p')" by (simp add: q1)
    then show ?thesis by blast
  qed
  then obtain m where m: "x / pow2 q = real_of_int m" by blast
  then have "real_of_int m * pow2 q = x" by (simp add: divide_eq_eq)
  with m have v: "real_of_int (round_even (x / pow2 q)) * pow2 q = x" by simp
  have "x < pow2 (emax + 1)" by (rule hi)
  then have "fp_round p emin emax x = FVal x"
    using x1 by (simp add: fp_round_nonneg Let_def e_def[symmetric] q_def[symmetric] v)
  then show ?thesis by (simp add: x_def)
qed

lemma fp_round_minus:
  "fp_round p emin emax (- x) =
     (case fp_round p emin emax x of FVal v \<Rightarrow> FVal (- v) | FPosInf \<Rightarrow> FNegInf
      | FNegInf \<Rightarrow> FPosInf | FNaN \<Rightarrow> FNaN)"
  by (cases "x = 0") (auto simp: fp_round_def Let_def)

subsection \<open>binary32 and binary64\<close>

lemma fp_round_not_nan [simp]: "fp_round p emin emax x \<noteq> FNaN"
  by (simp add: fp_round_def Let_def)

lemma to_float_not_nan [simp]: "to_float x \<noteq> FNaN"
  by (simp add: to_float_def)

lemma to_double_not_nan [simp]: "to_double x \<noteq> FNaN"
  by (simp add: to_double_def)

lemma to_float_0 [simp]: "to_float 0 = FVal 0"
  by (simp add: to_float_def)

lemma to_double_0 [simp]: "to_double 0 = FVal 0"
  by (simp add: to_double_def)

lemma to_float_nat: "n \<le> 16777216 \<Longrightarrow> to_float (real n) = FVal (real n)"
  unfolding to_float_def by (rule fp_round_of_nat) simp_all

lemma to_double_nat: "n \<le> 9007199254740992 \<Longrightarrow> to_double (real n) = FVal (real n)"
  unfolding to_double_def by (rule fp_round_of_nat) simp_all

lemma to_float_1 [simp]: "to_float 1 = FVal 1"
  using to_float_nat[of 1] by simp

lemma to_double_1 [simp]: "to_double 1 = FVal 1"
  using to_double_nat[of 1] by simp

lemma to_float_numeral [simp]:
  "numeral k \<le> (16777216::nat) \<Longrightarrow> to_float (numeral k) = FVal (numeral k)"
  using to_float_nat[of "numeral k"] by simp

lemma to_double_numeral [simp]:
  "numeral k \<le> (9007199254740992::nat) \<Longrightarrow> to_double (numeral k) = FVal (numeral k)"
  using to_double_nat[of "numeral k"] by simp

lemma to_float_minus: "to_float x = FVal v \<Longrightarrow> to_float (- x) = FVal (- v)"
  by (simp add: to_float_def fp_round_minus)

lemma to_double_minus: "to_double x = FVal v \<Longrightarrow> to_double (- x) = FVal (- v)"
  by (simp add: to_double_def fp_round_minus)

lemma to_float_int: "\<bar>n\<bar> \<le> 16777216 \<Longrightarrow> to_float (real_of_int n) = FVal (real_of_int n)"
proof (cases "0 \<le> n")
  case True
  assume "\<bar>n\<bar> \<le> 16777216"
  with True have "nat n \<le> 16777216" by simp
  from to_float_nat[OF this] True show ?thesis by simp
next
  case False
  assume "\<bar>n\<bar> \<le> 16777216"
  with False have "nat (- n) \<le> 16777216" by simp
  from to_float_minus[OF to_float_nat[OF this]] False show ?thesis by simp
qed

lemma to_double_int:
  "\<bar>n\<bar> \<le> 9007199254740992 \<Longrightarrow> to_double (real_of_int n) = FVal (real_of_int n)"
proof (cases "0 \<le> n")
  case True
  assume "\<bar>n\<bar> \<le> 9007199254740992"
  with True have "nat n \<le> 9007199254740992" by simp
  from to_double_nat[OF this] True show ?thesis by simp
next
  case False
  assume "\<bar>n\<bar> \<le> 9007199254740992"
  with False have "nat (- n) \<le> 9007199254740992" by simp
  from to_double_minus[OF to_double_nat[OF this]] False show ?thesis by simp
qed

lemma cf_of_int_exact: "\<bar>n\<bar> \<le> 16777216 \<Longrightarrow> cf_of_int n = FVal (real_of_int n)"
  by (simp add: cf_of_int_def to_float_int)

lemma cd_of_int_exact: "\<bar>n\<bar> \<le> 9007199254740992 \<Longrightarrow> cd_of_int n = FVal (real_of_int n)"
  by (simp add: cd_of_int_def to_double_int)

lemma pow2_numeral [simp]: "pow2 (numeral k) = 2 ^ numeral k"
  by (simp add: pow2_def)

lemma pow2_neg_numeral [simp]: "pow2 (- numeral k) = 1 / 2 ^ numeral k"
  by (simp add: pow2_def)

text \<open>The relative error of a binary32 rounding in the normal range.\<close>

lemma to_float_rel_error:
  assumes "1 / 2 ^ 126 \<le> x" "x < 2 ^ 127"
  shows "\<exists>r. to_float x = FVal r \<and> \<bar>r - x\<bar> \<le> x / 2 ^ 24"
  unfolding to_float_def
  using assms by (intro fp_round_rel_error) simp_all

lemma to_double_rel_error:
  assumes "1 / 2 ^ 1022 \<le> x" "x < 2 ^ 1023"
  shows "\<exists>r. to_double x = FVal r \<and> \<bar>r - x\<bar> \<le> x / 2 ^ 53"
  unfolding to_double_def
  using assms by (intro fp_round_rel_error) simp_all

lemma to_float_le_pow2:
  assumes "- 126 < e0" "e0 \<le> 127" "0 \<le> x" "x < pow2 e0"
  shows "\<exists>r. to_float x = FVal r \<and> 0 \<le> r \<and> r \<le> pow2 e0"
  unfolding to_float_def using assms by (intro fp_round_le_pow2) simp_all

lemma to_float_ge_1: "1 \<le> x \<Longrightarrow> to_float x = FVal r \<Longrightarrow> 1 \<le> r"
  using fp_round_ge_pow2[of 24 "- 126" 0 127 x r] by (simp add: to_float_def)

text \<open>A sum that has reached \<open>2 ^ 32\<close> absorbs an addend below 130.\<close>

lemma to_float_absorb:
  assumes "0 \<le> x" "x \<le> 2 ^ 32 + 130"
  shows "\<exists>r. to_float x = FVal r \<and> 0 \<le> r \<and> r \<le> 2 ^ 32"
proof (cases "x < 2 ^ 32")
  case True
  from to_float_le_pow2[of 32 x] assms(1) True show ?thesis by simp
next
  case False
  define k where "k = round_even (x / 512)"
  have e: "\<bar>real_of_int k - x / 512\<bar> \<le> 1 / 2" unfolding k_def by (rule round_even_err)
  have x1: "4294967296 \<le> x" "x \<le> 4294967426" using False assms(2) by simp_all
  have "real_of_int k < 8388609" using e x1 by linarith
  moreover have "8388607 < real_of_int k" using e x1 by linarith
  ultimately
  have "k < 8388609" "8388607 < k" by simp_all
  then have k: "k = 8388608" by simp
  have "to_float x = FVal 4294967296"
    unfolding to_float_def
    using assms False by (subst fp_round_eval[where e = 32]) (simp_all add: Let_def k_def[symmetric] k)
  then show ?thesis by simp
qed

lemma pow2_minus_1 [simp]: "pow2 (- 1) = 1 / 2"
  by (simp add: pow2_def)

lemma to_float_3_4: "to_float (3 / 4) = FVal (3 / 4)"
  unfolding to_float_def
  by (subst fp_round_eval[where e = "- 1"]) (simp_all add: Let_def round_even_def)

lemma cd_of_int_0 [simp]: "cd_of_int 0 = FVal 0"
  by (simp add: cd_of_int_def)

lemma cf_of_int_0 [simp]: "cf_of_int 0 = FVal 0"
  by (simp add: cf_of_int_def)

lemma cf_of_int_1 [simp]: "cf_of_int 1 = FVal 1"
  by (simp add: cf_of_int_def)

lemma cd_of_int_1 [simp]: "cd_of_int 1 = FVal 1"
  by (simp add: cd_of_int_def)

lemma cf_of_int_numeral [simp]:
  "numeral k \<le> (16777216::nat) \<Longrightarrow> cf_of_int (numeral k) = FVal (numeral k)"
  by (simp add: cf_of_int_def)

lemma cd_of_int_numeral [simp]:
  "numeral k \<le> (9007199254740992::nat) \<Longrightarrow> cd_of_int (numeral k) = FVal (numeral k)"
  by (simp add: cd_of_int_def)

lemma to_double_ge_1: "1 \<le> x \<Longrightarrow> to_double x = FVal r \<Longrightarrow> 1 \<le> r"
  using fp_round_ge_pow2[of 53 "- 1022" 0 1023 x r] by (simp add: to_double_def)

lemma to_double_finite:
  assumes "\<bar>x\<bar> < 2 ^ 1000"
  shows "\<exists>d. to_double x = FVal d"
proof (cases "0 \<le> x")
  case True
  with assms have "x < pow2 1000" by simp
  from fp_round_le_pow2[of "- 1022" 1000 1023 x 53, OF _ _ True this]
  show ?thesis by (auto simp: to_double_def)
next
  case False
  with assms have "0 \<le> - x" "- x < pow2 1000" by simp_all
  from fp_round_le_pow2[of "- 1022" 1000 1023 "- x" 53, OF _ _ this]
  obtain d where "to_double (- x) = FVal d" by (auto simp: to_double_def)
  from to_double_minus[OF this] show ?thesis by simp
qed

subsection \<open>Sums and means in binary32\<close>

lemma float_eps_pos: "0 < float_eps"
  by (simp add: float_eps_def)

lemma to_float_rel:
  assumes "1 / 2 \<le> x" "x < 2 ^ 127"
  shows "\<exists>r. to_float x = FVal r \<and> \<bar>r - x\<bar> \<le> float_eps * x"
proof -
  have "1 / 2 ^ 126 \<le> (1 / 2::real)" by simp
  with assms(1) have "1 / 2 ^ 126 \<le> x" by linarith
  from to_float_rel_error[OF this assms(2)] show ?thesis by (simp add: float_eps_def)
qed

lemma sum_list_ge: "\<forall>v\<in>set vs. 1 \<le> v \<Longrightarrow> real (length vs) \<le> sum_list vs"
  by (induction vs) auto

lemma foldl_cf_add_error:
  assumes "\<forall>v\<in>set vs. 1 \<le> v"
    and "0 \<le> a" "0 \<le> c" "\<bar>a' - a\<bar> \<le> c * a"
    and "(1 + c) * (1 + float_eps) ^ length vs \<le> 2"
    and "a + sum_list vs \<le> 2 ^ 100"
  shows "\<exists>s'. foldl cf_add (FVal a') (map FVal vs) = FVal s' \<and>
           \<bar>s' - (a + sum_list vs)\<bar> \<le> ((1 + c) * (1 + float_eps) ^ length vs - 1) * (a + sum_list vs)"
  using assms
proof (induction vs arbitrary: a a' c)
  case Nil
  then show ?case by (simp add: algebra_simps)
next
  case (Cons v vs)
  let ?u = float_eps
  have u0: "0 < ?u" by (rule float_eps_pos)
  have v1: "1 \<le> v" and rest: "\<forall>v\<in>set vs. 1 \<le> v" using Cons.prems(1) by simp_all
  have s0: "0 \<le> sum_list vs" using sum_list_ge[OF rest] by linarith
  have p1: "1 \<le> (1 + ?u) ^ length (v # vs)" using u0 by (intro one_le_power) simp
  have "1 + c \<le> (1 + c) * (1 + ?u) ^ length (v # vs)"
    using mult_left_mono[OF p1, of "1 + c"] Cons.prems(3) by simp
  from this Cons.prems(5) have "1 + c \<le> 2" by (rule order_trans)
  then have c1: "c \<le> 1" by simp
  have ca: "c * a \<le> a" using mult_right_mono[OF c1 Cons.prems(2)] by simp
  have a'0: "0 \<le> a'" using Cons.prems(4) ca by linarith
  define y where "y = a' + v"
  have y1: "1 \<le> y" using a'0 v1 by (simp add: y_def)
  have yu: "y \<le> a + c * a + v" using Cons.prems(4) by (simp add: y_def)
  have "a + v \<le> 2 ^ 100" using Cons.prems(6) s0 by simp
  with yu ca v1 Cons.prems(2) have "y \<le> 2 * 2 ^ 100" by linarith
  also have "\<dots> < (2::real) ^ 127" by simp
  finally have y2: "y < 2 ^ 127" .
  have "1 / 2 \<le> y" using y1 by simp
  from to_float_rel[OF this y2] obtain r where r: "to_float y = FVal r" "\<bar>r - y\<bar> \<le> ?u * y"
    by blast
  define c' where "c' = (1 + c) * (1 + ?u) - 1"
  have c'0: "0 \<le> c'" using u0 Cons.prems(3) by (simp add: c'_def algebra_simps)
  have "?u * y \<le> ?u * (a + c * a + v)" using yu u0 by (intro mult_left_mono) simp_all
  with r(2) have e1: "\<bar>r - y\<bar> \<le> ?u * (a + c * a + v)" by linarith
  have "r - (a + v) = (r - y) + (a' - a)" by (simp add: y_def)
  then have "\<bar>r - (a + v)\<bar> \<le> \<bar>r - y\<bar> + \<bar>a' - a\<bar>" by linarith
  with e1 Cons.prems(4) have e2: "\<bar>r - (a + v)\<bar> \<le> ?u * (a + c * a + v) + c * a" by linarith
  have "0 \<le> ?u * c * v" "0 \<le> c * v" using u0 Cons.prems(3) v1 by simp_all
  then have "?u * (a + c * a + v) + c * a \<le> c' * (a + v)"
    by (simp add: c'_def algebra_simps)
  with e2 have step: "\<bar>r - (a + v)\<bar> \<le> c' * (a + v)" by linarith
  have pw: "(1 + c') * (1 + ?u) ^ length vs = (1 + c) * (1 + ?u) ^ length (v # vs)"
    by (simp add: c'_def algebra_simps)
  have "\<exists>s'. foldl cf_add (FVal r) (map FVal vs) = FVal s' \<and>
           \<bar>s' - ((a + v) + sum_list vs)\<bar> \<le> ((1 + c') * (1 + ?u) ^ length vs - 1) * ((a + v) + sum_list vs)"
  proof (rule Cons.IH)
    show "\<forall>v\<in>set vs. 1 \<le> v" by (rule rest)
    show "0 \<le> a + v" using Cons.prems(2) v1 by simp
    show "0 \<le> c'" by (rule c'0)
    show "\<bar>r - (a + v)\<bar> \<le> c' * (a + v)" by (rule step)
    show "(1 + c') * (1 + ?u) ^ length vs \<le> 2" using Cons.prems(5) by (simp only: pw)
    show "a + v + sum_list vs \<le> 2 ^ 100" using Cons.prems(6) by (simp add: add.assoc)
  qed
  then obtain s' where s': "foldl cf_add (FVal r) (map FVal vs) = FVal s'"
    "\<bar>s' - ((a + v) + sum_list vs)\<bar> \<le> ((1 + c') * (1 + ?u) ^ length vs - 1) * ((a + v) + sum_list vs)"
    by blast
  have "foldl cf_add (FVal a') (map FVal (v # vs)) = FVal s'"
    using r(1) s'(1) by (simp add: y_def)
  moreover have "\<bar>s' - (a + sum_list (v # vs))\<bar> \<le>
      ((1 + c) * (1 + ?u) ^ length (v # vs) - 1) * (a + sum_list (v # vs))"
    using s'(2) by (simp only: pw) (simp add: add.assoc)
  ultimately show ?case by blast
qed


lemma float_eps_pow:
  assumes "n \<le> 33"
  shows "(1 + float_eps) ^ n \<le> 1 + 1 / 2 ^ 18"
proof -
  have "(1 + float_eps) ^ n \<le> (1 + float_eps) ^ 33"
    using assms float_eps_pos by (intro power_increasing) simp_all
  also have "\<dots> \<le> 1 + 1 / 2 ^ 18" by (simp add: float_eps_def power_divide)
  finally show ?thesis .
qed

lemma sum_list_le: "\<forall>v\<in>set vs. v \<le> b \<Longrightarrow> sum_list vs \<le> real (length vs) * b"
  by (induction vs) (auto simp: algebra_simps)

lemma float_mean_error:
  assumes "vs \<noteq> []" "\<forall>v\<in>set vs. 1 \<le> v \<and> v \<le> 130" "length vs \<le> 32"
  shows "\<exists>r. float_mean vs = FVal r \<and> \<bar>r - real_mean vs\<bar> \<le> real_mean vs / 2 ^ 18"
proof -
  define n where "n = real (length vs)"
  define S where "S = sum_list vs"
  define U where "U = (1 + float_eps) ^ length vs"
  define m where "m = S / n"
  let ?u = float_eps
  have u0: "0 < ?u" by (rule float_eps_pos)
  have n1: "1 \<le> n" using assms(1) by (cases vs) (simp_all add: n_def)
  have n32: "n \<le> 32" using assms(3) by (simp add: n_def)
  have Sn: "n \<le> S" unfolding n_def S_def using assms(2) by (intro sum_list_ge) simp
  have "S \<le> n * 130" unfolding n_def S_def using assms(2) by (intro sum_list_le) simp
  with n32 have S4: "S \<le> 4160" by linarith
  have m1: "1 \<le> m" using Sn n1 by (simp add: m_def le_divide_eq)
  have m130: "m \<le> 130" using \<open>S \<le> n * 130\<close> n1 by (simp add: m_def divide_le_eq mult.commute)
  have U1: "1 \<le> U" unfolding U_def using u0 by (intro one_le_power) simp
  have UB: "U \<le> 1 + 1 / 2 ^ 18" unfolding U_def using assms(3) by (intro float_eps_pow) simp
  have UB1: "U * (1 + ?u) \<le> 1 + 1 / 2 ^ 18"
  proof -
    have "U * (1 + ?u) = (1 + ?u) ^ Suc (length vs)" by (simp add: U_def)
    also have "\<dots> \<le> 1 + 1 / 2 ^ 18" using assms(3) by (intro float_eps_pow) simp
    finally show ?thesis .
  qed
  have "\<exists>s'. foldl cf_add (FVal 0) (map FVal vs) = FVal s' \<and>
           \<bar>s' - (0 + sum_list vs)\<bar> \<le> ((1 + 0) * (1 + ?u) ^ length vs - 1) * (0 + sum_list vs)"
  proof (rule foldl_cf_add_error)
    show "\<forall>v\<in>set vs. 1 \<le> v" using assms(2) by simp
    show "(1 + 0) * (1 + ?u) ^ length vs \<le> 2" using UB by (simp add: U_def)
    show "0 + sum_list vs \<le> 2 ^ 100" using S4 by (simp add: S_def)
  qed simp_all
  then obtain s' where s': "foldl cf_add (FVal 0) (map FVal vs) = FVal s'"
    "\<bar>s' - S\<bar> \<le> (U - 1) * S"
    by (auto simp: S_def U_def)
  have S0: "0 < S" using Sn n1 by linarith
  have "(U - 1) * S \<le> (1 / 2 ^ 18) * S"
    using UB S0 by (intro mult_right_mono) simp_all
  with s'(2) have sS: "\<bar>s' - S\<bar> \<le> S / 2 ^ 18" by simp
  define y where "y = s' / n"
  have ym: "\<bar>y - m\<bar> \<le> (U - 1) * m"
  proof -
    have "y - m = (s' - S) / n" by (simp add: y_def m_def diff_divide_distrib)
    then have "\<bar>y - m\<bar> = \<bar>s' - S\<bar> / n" using n1 by simp
    also have "\<dots> \<le> (U - 1) * S / n" using s'(2) n1 by (intro divide_right_mono) simp_all
    finally show ?thesis by (simp add: m_def)
  qed
  have "(U - 1) * m \<le> (1 / 2 ^ 18) * m"
    using UB m1 by (intro mult_right_mono) simp_all
  with ym have ym2: "\<bar>y - m\<bar> \<le> m / 2 ^ 18" by simp
  have ym3: "\<bar>y - m\<bar> \<le> m / 262144" using ym2 by simp
  have y1: "1 / 2 \<le> y" using ym3 m1 by linarith
  have "y \<le> 2 * m" using ym3 m1 by linarith
  with m130 have "y \<le> 260" by linarith
  then have y2: "y < 2 ^ 127" by (rule order_le_less_trans) simp
  from to_float_rel[OF y1 y2] obtain r where r: "to_float y = FVal r" "\<bar>r - y\<bar> \<le> ?u * y"
    by blast
  have yU: "y \<le> U * m" using ym by (simp add: abs_le_iff algebra_simps)
  have "?u * y \<le> ?u * (U * m)" using yU u0 by (intro mult_left_mono) simp_all
  with r(2) have "\<bar>r - y\<bar> \<le> ?u * (U * m)" by linarith
  with ym have "\<bar>r - m\<bar> \<le> ?u * (U * m) + (U - 1) * m" by linarith
  also have "\<dots> = (U * (1 + ?u) - 1) * m" by (simp add: algebra_simps)
  also have "\<dots> \<le> (1 / 2 ^ 18) * m"
    using UB1 m1 by (intro mult_right_mono) simp_all
  finally have fin: "\<bar>r - m\<bar> \<le> m / 2 ^ 18" by simp
  have cnt: "cf_of_int (int (length vs)) = FVal n"
    using assms(3) by (simp add: cf_of_int_exact n_def)
  have "float_mean vs = FVal r"
    using n1 r(1) by (simp add: float_mean_def s'(1) cnt y_def)
  moreover have "real_mean vs = m" by (simp add: real_mean_def m_def S_def n_def)
  ultimately show ?thesis using fin by simp
qed

text \<open>Sums of temperatures below 130 degrees stay finite, however many there are.\<close>

lemma foldl_cf_add_bounded:
  "\<forall>v\<in>set vs. 0 \<le> v \<and> v \<le> 130 \<Longrightarrow> 0 \<le> a \<Longrightarrow> a \<le> 2 ^ 32 \<Longrightarrow>
     \<exists>s. foldl cf_add (FVal a) (map FVal vs) = FVal s \<and> 0 \<le> s \<and> s \<le> 2 ^ 32"
proof (induction vs arbitrary: a)
  case Nil
  then show ?case by simp
next
  case (Cons v vs)
  then have "0 \<le> a + v" "a + v \<le> 2 ^ 32 + 130" by simp_all
  from to_float_absorb[OF this] obtain r where r: "to_float (a + v) = FVal r" "0 \<le> r" "r \<le> 2 ^ 32"
    by blast
  from Cons.prems(1) have "\<forall>v\<in>set vs. 0 \<le> v \<and> v \<le> 130" by simp
  from Cons.IH[OF this r(2) r(3)] show ?case by (simp add: r(1))
qed

lemma float_mean_finite:
  assumes "vs \<noteq> []" "\<forall>v\<in>set vs. 0 \<le> v \<and> v \<le> 130"
  shows "\<exists>x. float_mean vs = FVal x"
proof -
  from foldl_cf_add_bounded[OF assms(2), of 0]
  obtain s where s: "foldl cf_add (FVal 0) (map FVal vs) = FVal s" "0 \<le> s" "s \<le> 2 ^ 32"
    by auto
  have n1: "1 \<le> real (length vs)" using assms(1) by (cases vs) simp_all
  show ?thesis
  proof (cases "cf_of_int (int (length vs))")
    case (FVal d)
    then have "to_float (real (length vs)) = FVal d" by (simp add: cf_of_int_def)
    from to_float_ge_1[OF n1 this] have d1: "1 \<le> d" .
    have "s * 1 \<le> s * d" using d1 s(2) by (intro mult_left_mono) simp_all
    then have "s / d \<le> s" using d1 by (simp add: divide_le_eq)
    with s(3) have "s / d < pow2 33" by simp
    moreover have "0 \<le> s / d" using s(2) d1 by simp
    ultimately obtain r where "to_float (s / d) = FVal r"
      using to_float_le_pow2[of 33 "s / d"] by auto
    then show ?thesis using d1 by (simp add: float_mean_def s(1) FVal)
  next
    case FPosInf
    then show ?thesis by (simp add: float_mean_def s(1))
  next
    case FNegInf
    then show ?thesis by (simp add: float_mean_def s(1))
  next
    case FNaN
    then show ?thesis by (simp add: cf_of_int_def)
  qed
qed

lemma survivors_window: "v \<in> set (survivors lo hi ts) \<Longrightarrow> lo < v \<and> v < hi"
proof (induction ts)
  case Nil
  then show ?case by simp
next
  case (Cons t ts)
  then show ?case by (cases t) (auto split: if_splits)
qed

lemma survivors_length: "length (survivors lo hi ts) \<le> length ts"
proof (induction ts)
  case Nil
  then show ?case by simp
next
  case (Cons t ts)
  then show ?case by (cases t) simp_all
qed

lemma window_mean_finite:
  assumes "0 \<le> lo" "hi \<le> 130"
  shows "\<exists>x. window_mean lo hi ts = FVal x"
proof (cases "survivors lo hi ts = []")
  case True
  then show ?thesis by (simp add: window_mean_def)
next
  case False
  have "\<forall>v\<in>set (survivors lo hi ts). 0 \<le> v \<and> v \<le> 130"
  proof
    fix v assume "v \<in> set (survivors lo hi ts)"
    then have "lo < v" "v < hi" using survivors_window[of v lo hi ts] by simp_all
    with assms show "0 \<le> v \<and> v \<le> 130" by simp
  qed
  from float_mean_finite[OF False this] show ?thesis using False by (simp add: window_mean_def)
qed

lemma window_mean_error:
  assumes "1 \<le> lo" "hi \<le> 130" "length ts \<le> 32"
  shows "\<exists>r. window_mean lo hi ts = FVal r \<and>
           \<bar>r - real_mean (survivors lo hi ts)\<bar> \<le> real_mean (survivors lo hi ts) / 2 ^ 18"
proof (cases "survivors lo hi ts = []")
  case True
  then show ?thesis by (simp add: window_mean_def real_mean_def)
next
  case False
  have 1: "\<forall>v\<in>set (survivors lo hi ts). 1 \<le> v \<and> v \<le> 130"
  proof
    fix v assume "v \<in> set (survivors lo hi ts)"
    then have "lo < v" "v < hi" using survivors_window[of v lo hi ts] by simp_all
    with assms show "1 \<le> v \<and> v \<le> 130" by simp
  qed
  have 2: "length (survivors lo hi ts) \<le> 32"
    using survivors_length[of lo hi ts] assms(3) by linarith
  from float_mean_error[OF False 1 2] show ?thesis using False by (simp add: window_mean_def)
qed

chapter \<open>Properties\<close>

section \<open>The decoder\<close>

text \<open>Big-endian 16-bit values: the word the source assembles by shift and or.\<close>

lemma or_add16: "(push_bit 8 (ucast (b0::8 word)) OR ucast (b1::8 word) :: 16 word) = push_bit 8 (ucast b0) + ucast b1"
  by (rule disjunctive_add[symmetric]) (auto simp: bit_simps dest: bit_imp_le_length)

lemma unat_b_lt: "unat (b::8 word) < 256"
  using unsigned_less[of b, where 'a=nat] by simp

lemma unat_ucast8: "unat (ucast (b::8 word) :: 16 word) = unat b"
  using unat_b_lt[of b] by (simp add: unsigned_ucast_eq take_bit_nat_eq_self)

lemma unat_push8: "unat (push_bit 8 (ucast (b::8 word)) :: 16 word) = 256 * unat b"
  using unat_b_lt[of b]
  by (simp add: push_bit_eq_mult unat_word_ariths unat_ucast8)

lemma unat_be16: "unat (push_bit 8 (ucast (b0::8 word)) OR ucast (b1::8 word) :: 16 word) = 256 * unat b0 + unat b1"
  using unat_b_lt[of b0] unat_b_lt[of b1]
  by (simp add: or_add16 unat_word_ariths unat_push8 unat_ucast8)

lemma bit15: "0 \<le> k \<Longrightarrow> k < 65536 \<Longrightarrow> bit (k::int) 15 \<longleftrightarrow> 32768 \<le> k"
proof (cases "32768 \<le> k")
  case True
  assume "0 \<le> k" "k < 65536"
  with True have "k div 32768 = (k - 32768) div 32768 + 1"
    by (simp add: div_pos_geq)
  also have "(k - 32768) div 32768 = 0"
    using True \<open>k < 65536\<close> by simp
  finally show ?thesis using True by (simp add: bit_iff_odd)
next
  case False
  assume "0 \<le> k" "k < 65536"
  with False have "k div 32768 = 0" by simp
  then show ?thesis using False by (simp add: bit_iff_odd)
qed

lemma sint16_uint: "sint (w::16 word) = (if 32768 \<le> uint w then uint w - 65536 else uint w)"
proof -
  have lt: "uint w < 65536" using uint_lt2p[of w] by simp
  have ge: "0 \<le> uint w" by simp
  have b: "bit (uint w) 15 \<longleftrightarrow> 32768 \<le> uint w"
    by (rule bit15[OF ge lt])
  have tb: "take_bit 16 (uint w) = uint w"
    using lt ge by (simp add: take_bit_int_eq_self)
  have "sint w = take_bit 16 (uint w) - 2 ^ 16 * of_bool (bit (uint w) 15)"
    by (simp add: sint_uint signed_take_bit_eq_take_bit_minus)
  also have "\<dots> = uint w - 65536 * of_bool (32768 \<le> uint w)"
    by (simp only: tb b) simp
  finally show ?thesis by simp
qed

lemma sint16_real: "real_of_int (sint (w::16 word)) = (if 32768 \<le> unat w then real (unat w) - 65536 else real (unat w))"
proof -
  have u: "uint w = int (unat w)" by (rule uint_nat)
  have "(32768 \<le> uint w) = (32768 \<le> unat w)" unfolding u by linarith
  moreover have "real_of_int (uint w) = real (unat w)" unfolding u by simp
  ultimately show ?thesis by (simp add: sint16_uint)
qed


lemma fourcc_consts:
  "str_to_fourcc ''flt '' = FOURCC_FLT"
  "str_to_fourcc ''sp78'' = FOURCC_SP78"
  "str_to_fourcc ''ioft'' = FOURCC_IOFT"
  by (simp_all add: str_to_fourcc_def FOURCC_FLT_def FOURCC_SP78_def FOURCC_IOFT_def)

lemma word32_size_tests:
  fixes dsize :: "32 word"
  shows "(dsize = 0) = (unat dsize = 0)" "(dsize = 1) = (unat dsize = 1)"
    "(dsize = 2) = (unat dsize = 2)" "(2 \<le> dsize) = (2 \<le> unat dsize)"
    "(4 \<le> dsize) = (4 \<le> unat dsize)" "(8 \<le> dsize) = (8 \<le> unat dsize)"
  by (simp_all add: word_le_nat_alt word_unat_eq_iff)

lemma le_word32_bytes: "le_word32 (bytes_of_word32 w @ rest) = w"
  unfolding le_word32_def bytes_of_word32_def
  apply (rule bit_word_eqI)
  apply (simp add: bit_simps cong: conj_cong)
  apply (case_tac "bit w n"; simp)
  apply arith
  done

lemma sp78_value:
  "real_of_int (sint (push_bit 8 (ucast (d ! 0)) OR ucast (d ! 1) :: 16 word)) =
     (if 32768 \<le> be16 d then real (be16 d) - 65536 else real (be16 d))"
  by (simp only: sint16_real unat_be16 be16_def)

lemma ui16_value:
  "real (unat (push_bit 8 (ucast (d ! 0)) OR ucast (d ! 1) :: 16 word)) = real (be16 d)"
  by (simp only: unat_be16 be16_def)

lemma decoder_refines_rules:
  "smc_bytes_to_float data dsize dtype = decode_rules dtype (unat dsize) data"
proof -
  have "smc_bytes_to_float data dsize dtype =
      (if unat dsize = 0 then FVal 0 else decode_rules dtype (unat dsize) data)"
    unfolding smc_bytes_to_float_def decode_rules_def
    by (simp only: sp78_value ui16_value fourcc_consts word32_size_tests Let_def)
  moreover have "unat dsize = 0 \<Longrightarrow> decode_rules dtype (unat dsize) data = FVal 0"
    by (simp add: decode_rules_def)
  ultimately show ?thesis by simp
qed

text \<open>
  Claim C1. The decoder \<open>smc_bytes_to_float\<close> is a total function of the buffer, the
  byte length and the type tag, and it computes exactly what the six rules of the
  specification give when they are tried in their order (the source's first test,
  length 0, changes nothing: each rule needs a positive length). The tags of the
  rules are the packed codes of "flt ", "sp78" and "ioft". The four bytes of any
  binary32 pattern \<open>w\<close>, tagged "flt " with length 4, are read back as the same
  pattern and decode to the float \<open>w\<close> denotes; the bytes 01 00 tagged "sp78" decode
  to 1.0 and FF 00 to -1.0; length 0 gives 0.0 whatever the tag.
\<close>

theorem C1_decoder_rules:
  "(\<forall>data dsize dtype.
      smc_bytes_to_float data dsize dtype = decode_rules dtype (unat dsize) data) \<and>
   (\<forall>w rest. le_word32 (bytes_of_word32 w @ rest) = w \<and>
      smc_bytes_to_float (bytes_of_word32 w @ rest) 4 (str_to_fourcc ''flt '') = float_of_bits32 w) \<and>
   smc_bytes_to_float [0x01, 0x00] 2 (str_to_fourcc ''sp78'') = FVal 1 \<and>
   smc_bytes_to_float [0xFF, 0x00] 2 (str_to_fourcc ''sp78'') = FVal (- 1) \<and>
   (\<forall>data dtype. smc_bytes_to_float data 0 dtype = FVal 0)"
proof -
  have rt: "smc_bytes_to_float (bytes_of_word32 w @ rest) 4 (str_to_fourcc ''flt '') = float_of_bits32 w"
    for w rest
    by (simp add: smc_bytes_to_float_def fourcc_consts le_word32_bytes)
  have one: "smc_bytes_to_float [0x01, 0x00] 2 (str_to_fourcc ''sp78'') = FVal 1"
    by (simp add: smc_bytes_to_float_def fourcc_consts FOURCC_FLT_def FOURCC_SP78_def)
  have mone: "smc_bytes_to_float [0xFF, 0x00] 2 (str_to_fourcc ''sp78'') = FVal (- 1)"
    by (simp add: smc_bytes_to_float_def fourcc_consts FOURCC_FLT_def FOURCC_SP78_def)
  have z: "smc_bytes_to_float data 0 dtype = FVal 0" for data dtype
    by (simp add: smc_bytes_to_float_def)
  show ?thesis
    using decoder_refines_rules le_word32_bytes rt one mone z by blast
qed

section \<open>Aggregation of the readings of a domain\<close>

text \<open>
  An SMC read changes nothing in the state but the list of calls, and what it
  returns depends on the state only through the connection.
\<close>

lemma smc_read_conn: "smc_conn (snd (smc_read w s i)) = smc_conn s"
  by (simp add: smc_read_def Let_def split: prod.splits)

lemma smc_read_fst_cong: "smc_conn s = smc_conn s' \<Longrightarrow> fst (smc_read w s i) = fst (smc_read w s' i)"
  by (simp add: smc_read_def Let_def split: prod.splits)

lemma smc_read_temp_cached_snd:
  "snd (smc_read_temp_cached w s f i) =
     snd (smc_read w s (SMCKeyData_zero\<lparr>key := f, data8 := 5, key_info := i\<rparr>))"
  by (simp add: smc_read_temp_cached_def Let_def split: prod.splits option.splits)

lemma smc_read_temp_cached_fst:
  "fst (smc_read_temp_cached w s f i) =
     (case fst (smc_read w s (SMCKeyData_zero\<lparr>key := f, data8 := 5, key_info := i\<rparr>)) of
        None \<Rightarrow> FVal 0
      | Some output \<Rightarrow> smc_bytes_to_float (bytes output) (data_size i) (data_type i))"
  by (simp add: smc_read_temp_cached_def Let_def split: prod.splits option.splits)

lemma smc_read_temp_cached_conn:
  "smc_conn (snd (smc_read_temp_cached w s f i)) = smc_conn s"
  by (simp only: smc_read_temp_cached_snd smc_read_conn)

lemma smc_read_temp_cached_fst_cong:
  "smc_conn s = smc_conn s' \<Longrightarrow>
     fst (smc_read_temp_cached w s f i) = fst (smc_read_temp_cached w s' f i)"
  by (simp only: smc_read_temp_cached_fst smc_read_fst_cong[of s s'])

lemma smc_readings_cong:
  "smc_conn s = smc_conn s' \<Longrightarrow> smc_readings w s ks = smc_readings w s' ks"
  unfolding smc_readings_def
  using smc_read_temp_cached_fst_cong[of s s' w] by simp

text \<open>The sum and the count a reading loop reaches over a list of readings.\<close>

lemma read_temps_sum:
  "read_temps w lo hi ks acc c s = (tsum, tcount, s') \<Longrightarrow>
     tsum = foldl cf_add acc (map FVal (survivors lo hi (smc_readings w s ks))) \<and>
     tcount = c + int (length (survivors lo hi (smc_readings w s ks))) \<and>
     smc_conn s' = smc_conn s"
proof (induction ks arbitrary: acc c s)
  case Nil
  then show ?case by (simp add: smc_readings_def)
next
  case (Cons k ks)
  obtain t s1 where r: "smc_read_temp_cached w s (key_fourcc k) (cached_key_info k) = (t, s1)"
    by (cases "smc_read_temp_cached w s (key_fourcc k) (cached_key_info k)")
  have c1: "smc_conn s1 = smc_conn s"
    using smc_read_temp_cached_conn[of w s "key_fourcc k" "cached_key_info k"] r by simp
  have rd: "smc_readings w s (k # ks) = t # smc_readings w s1 ks"
    using r smc_readings_cong[OF c1, of w ks] by (simp add: smc_readings_def)
  show ?case
  proof (cases "cf_gt t lo \<and> cf_lt t hi")
    case True
    then obtain v where v: "t = FVal v" "lo < v" "v < hi"
      by (cases t) auto
    from Cons.prems r True v
    have "read_temps w lo hi ks (cf_add acc (FVal v)) (c + 1) s1 = (tsum, tcount, s')"
      by simp
    from Cons.IH[OF this] show ?thesis
      using v c1 by (simp add: rd)
  next
    case False
    from Cons.prems r False
    have "read_temps w lo hi ks acc c s1 = (tsum, tcount, s')"
      by auto
    from Cons.IH[OF this]
    have ih: "tsum = foldl cf_add acc (map FVal (survivors lo hi (smc_readings w s1 ks)))"
      "tcount = c + int (length (survivors lo hi (smc_readings w s1 ks)))" "smc_conn s' = smc_conn s1"
      by simp_all
    have "survivors lo hi (t # smc_readings w s1 ks) = survivors lo hi (smc_readings w s1 ks)"
      using False by (cases t) auto
    then show ?thesis using ih c1 by (simp add: rd)
  qed
qed

lemma mean_of_loop:
  assumes "read_temps w lo hi ks (FVal 0) 0 s = (tsum, tcount, s')"
  shows "(if 0 < tcount then cf_div tsum (cf_of_int tcount) else FVal 0) =
           window_mean lo hi (smc_readings w s ks)"
proof -
  let ?vs = "survivors lo hi (smc_readings w s ks)"
  from read_temps_sum[OF assms]
  have a: "tsum = foldl cf_add (FVal 0) (map FVal ?vs)" and b: "tcount = int (length ?vs)"
    by simp_all
  show ?thesis
    by (cases "?vs = []") (simp_all add: a b window_mean_def float_mean_def Let_def)
qed

lemma smc_calls_only_refl: "smc_calls_only s s"
  by (simp add: smc_calls_only_def)

lemma smc_calls_only_trans:
  "smc_calls_only s s' \<Longrightarrow> smc_calls_only s' s'' \<Longrightarrow> smc_calls_only s s''"
  unfolding smc_calls_only_def
  by (metis (no_types, lifting) pcstate.surjective pcstate.update_convs(24) pcstate.select_convs)

lemma smc_read_calls_only: "smc_calls_only s (snd (smc_read w s i))"
  by (simp add: smc_read_def smc_calls_only_def Let_def split: prod.splits)

lemma smc_read_temp_cached_calls_only:
  "smc_calls_only s (snd (smc_read_temp_cached w s f i))"
  by (simp only: smc_read_temp_cached_snd smc_read_calls_only)

lemma read_temps_calls_only:
  "smc_calls_only s (snd (snd (read_temps w lo hi ks tsum tcount s)))"
proof (induction ks arbitrary: tsum tcount s)
  case Nil
  show ?case by (simp add: smc_calls_only_refl)
next
  case (Cons k ks)
  obtain t s1 where r: "smc_read_temp_cached w s (key_fourcc k) (cached_key_info k) = (t, s1)"
    by (cases "smc_read_temp_cached w s (key_fourcc k) (cached_key_info k)")
  have 1: "smc_calls_only s s1"
    using smc_read_temp_cached_calls_only[of s w "key_fourcc k" "cached_key_info k"] r by simp
  show ?case
    using r smc_calls_only_trans[OF 1 Cons.IH] by simp
qed


lemma smc_calls_only_fields:
  assumes "smc_calls_only s s'"
  shows "smc_conn s' = smc_conn s" "cached_cpu_keys s' = cached_cpu_keys s"
    "cached_gpu_keys s' = cached_gpu_keys s" "cached_board_keys s' = cached_board_keys s"
    "smc_cache_initialized s' = smc_cache_initialized s" "hid_queries s' = hid_queries s"
    "smc_opens s' = smc_opens s"
proof -
  from assms have e: "s' = s\<lparr>smc_calls := smc_calls s'\<rparr>" by (simp add: smc_calls_only_def)
  show "smc_conn s' = smc_conn s" by (subst e) simp
  show "cached_cpu_keys s' = cached_cpu_keys s" by (subst e) simp
  show "cached_gpu_keys s' = cached_gpu_keys s" by (subst e) simp
  show "cached_board_keys s' = cached_board_keys s" by (subst e) simp
  show "smc_cache_initialized s' = smc_cache_initialized s" by (subst e) simp
  show "hid_queries s' = hid_queries s" by (subst e) simp
  show "smc_opens s' = smc_opens s" by (subst e) simp
qed

lemma smc_get_temperatures_means:
  fixes w s
  defines "s1 \<equiv> after_cache_init w s"
  shows "fst (smc_get_temperatures w s) =
           (if smc_conn s1 then window_mean 10 130 (smc_readings w s1 (cached_cpu_keys s1))
            else FVal 0)"
    and "fst (snd (smc_get_temperatures w s)) =
           (if smc_conn s1 then window_mean 10 130 (smc_readings w s1 (cached_gpu_keys s1))
            else FVal 0)"
proof -
  obtain csum ccount s2 where c: "read_temps w 10 130 (cached_cpu_keys s1) (FVal 0) 0 s1 = (csum, ccount, s2)"
    by (cases "read_temps w 10 130 (cached_cpu_keys s1) (FVal 0) 0 s1")
  obtain gsum gcount s3 where g: "read_temps w 10 130 (cached_gpu_keys s2) (FVal 0) 0 s2 = (gsum, gcount, s3)"
    by (cases "read_temps w 10 130 (cached_gpu_keys s2) (FVal 0) 0 s2")
  have fr: "smc_calls_only s1 s2"
    using read_temps_calls_only[of s1 w 10 130 "cached_cpu_keys s1" "FVal 0" 0] c by simp
  have k2: "cached_gpu_keys s2 = cached_gpu_keys s1" and c2: "smc_conn s2 = smc_conn s1"
    using smc_calls_only_fields[OF fr] by simp_all
  have rd: "smc_readings w s2 (cached_gpu_keys s1) = smc_readings w s1 (cached_gpu_keys s1)"
    by (rule smc_readings_cong[OF c2])
  have unf: "smc_get_temperatures w s =
      (if \<not> smc_conn s1 then (FVal 0, FVal 0, s1)
       else ((if 0 < ccount then cf_div csum (cf_of_int ccount) else FVal 0),
             (if 0 < gcount then cf_div gsum (cf_of_int gcount) else FVal 0), s3))"
    using c g by (simp add: smc_get_temperatures_def s1_def after_cache_init_def Let_def)
  show "fst (smc_get_temperatures w s) =
           (if smc_conn s1 then window_mean 10 130 (smc_readings w s1 (cached_cpu_keys s1))
            else FVal 0)"
    using mean_of_loop[OF c] by (simp add: unf)
  show "fst (snd (smc_get_temperatures w s)) =
           (if smc_conn s1 then window_mean 10 130 (smc_readings w s1 (cached_gpu_keys s1))
            else FVal 0)"
    using mean_of_loop[OF g] by (simp add: unf k2 rd)
qed

lemma smc_get_board_temperature_mean:
  fixes w s
  defines "s1 \<equiv> after_cache_init w s"
  shows "fst (smc_get_board_temperature w s) =
           (if smc_conn s1 then window_mean 10 100 (smc_readings w s1 (cached_board_keys s1))
            else FVal 0)"
proof -
  obtain bsum bcount s2 where b: "read_temps w 10 100 (cached_board_keys s1) (FVal 0) 0 s1 = (bsum, bcount, s2)"
    by (cases "read_temps w 10 100 (cached_board_keys s1) (FVal 0) 0 s1")
  have e: "window_mean 10 100 (smc_readings w s1 []) = FVal 0"
    by (simp add: window_mean_def smc_readings_def)
  have unf: "smc_get_board_temperature w s =
      (if \<not> smc_conn s1 \<or> cached_board_keys s1 = [] then (FVal 0, s1)
       else ((if 0 < bcount then cf_div bsum (cf_of_int bcount) else FVal 0), s2))"
    using b by (simp add: smc_get_board_temperature_def s1_def after_cache_init_def Let_def)
  show ?thesis
    using mean_of_loop[OF b] e by (auto simp: unf)
qed

lemmas example_world_defs =
  three_cpu_keys_world_def smc_world_def dead_world_def smc_answer_def ui8_key_def
  initial_state_def SMCKeyData_zero_def str_to_fourcc_def MAX_CACHED_KEYS_def
  cpu_keys_def gpu_keys_def board_keys_def

lemmas smc_fun_defs =
  smc_get_temperatures_def smc_get_board_temperature_def smc_init_cache_def smc_open_def
  smc_read_key_info_def smc_read_def smc_read_temp_cached_def smc_read_key_def
  smc_bytes_to_float_def FOURCC_FLT_def FOURCC_SP78_def FOURCC_IOFT_def

text \<open>The two example means: 45.0 is exact, 136 / 3 is rounded to 24 bits.\<close>

lemma to_float_136_3: "to_float (136 / 3) = FVal (11883861 / 262144)"
  unfolding to_float_def
  by (subst fp_round_eval[where e = 5]) (simp_all add: Let_def round_even_def)

lemma window_mean_examples:
  "window_mean 10 130 [FVal 5, FVal 45, FVal 140] = FVal 45"
  "window_mean 10 130 [FVal 45, FVal 45, FVal 46] = FVal (11883861 / 262144)"
  by (simp_all add: window_mean_def float_mean_def cf_of_int_def to_float_136_3)

text \<open>
  Claim C2. For every world and state, the temperature that \<^verbatim>\<open>smc_get_temperatures\<close>
  reports for the CPU domain, and the one for the GPU domain, is the arithmetic mean
  of exactly those readings of the domain's cached keys that lie strictly between
  10 and 130, and 0.0 when none does (or when there is no connection); the board
  temperature of \<^verbatim>\<open>smc_get_board_temperature\<close> is the same with the window from 10 to
  100. The mean is the one of \<^verbatim>\<open>float\<close> arithmetic: the sum of the surviving readings
  in the order of the cache, divided by their number, each step rounded to
  binary32. For the at most 32 readings of a cache it differs from the mean in the
  real numbers by at most the fraction \<open>1 / 2 ^ 18\<close> of that mean. The readings 5, 45
  and 140 have the mean 45.0 under the window (10, 130).
\<close>

theorem C2_window_mean:
  "(\<forall>w s.
      fst (smc_get_temperatures w s) =
        (if smc_conn (after_cache_init w s)
         then window_mean 10 130
                (smc_readings w (after_cache_init w s) (cached_cpu_keys (after_cache_init w s)))
         else FVal 0) \<and>
      fst (snd (smc_get_temperatures w s)) =
        (if smc_conn (after_cache_init w s)
         then window_mean 10 130
                (smc_readings w (after_cache_init w s) (cached_gpu_keys (after_cache_init w s)))
         else FVal 0) \<and>
      fst (smc_get_board_temperature w s) =
        (if smc_conn (after_cache_init w s)
         then window_mean 10 100
                (smc_readings w (after_cache_init w s) (cached_board_keys (after_cache_init w s)))
         else FVal 0)) \<and>
   (\<forall>lo hi ts. survivors lo hi ts = [] \<longrightarrow> window_mean lo hi ts = FVal 0) \<and>
   (\<forall>lo hi ts. 1 \<le> lo \<and> hi \<le> 130 \<and> length ts \<le> MAX_CACHED_KEYS \<longrightarrow>
      (\<exists>r. window_mean lo hi ts = FVal r \<and>
           \<bar>r - real_mean (survivors lo hi ts)\<bar> \<le> real_mean (survivors lo hi ts) / 2 ^ 18)) \<and>
   window_mean 10 130 [FVal 5, FVal 45, FVal 140] = FVal 45"
proof -
  have z: "\<forall>lo hi ts. survivors lo hi ts = [] \<longrightarrow> window_mean lo hi ts = FVal 0"
    by (simp add: window_mean_def)
  have e: "\<forall>lo hi ts. 1 \<le> lo \<and> hi \<le> 130 \<and> length ts \<le> MAX_CACHED_KEYS \<longrightarrow>
      (\<exists>r. window_mean lo hi ts = FVal r \<and>
           \<bar>r - real_mean (survivors lo hi ts)\<bar> \<le> real_mean (survivors lo hi ts) / 2 ^ 18)"
    using window_mean_error by (simp add: MAX_CACHED_KEYS_def)
  show ?thesis
    using smc_get_temperatures_means smc_get_board_temperature_mean z e window_mean_examples(1)
    by blast
qed

text \<open>
  A machine whose three processor keys read 5, 45 and 140: the connection opens,
  the cache holds three keys, their readings are 5, 45 and 140, and the reported CPU
  temperature is 45.0, which here is the mean in the real numbers too. The
  readings 45, 45 and 46 have the \<^verbatim>\<open>float\<close> mean \<open>11883861 / 2 ^ 18\<close> (the bit pattern
  \<^verbatim>\<open>0x42355555\<close>), within the bound of the mean \<open>136 / 3\<close> in the real numbers.
\<close>

theorem C2_window_mean_witness:
  "smc_conn (after_cache_init three_cpu_keys_world initial_state) \<and>
   length (cached_cpu_keys (after_cache_init three_cpu_keys_world initial_state)) = 3 \<and>
   smc_readings three_cpu_keys_world (after_cache_init three_cpu_keys_world initial_state)
     (cached_cpu_keys (after_cache_init three_cpu_keys_world initial_state)) =
     [FVal 5, FVal 45, FVal 140] \<and>
   fst (smc_get_temperatures three_cpu_keys_world initial_state) = FVal 45 \<and>
   real_mean (survivors 10 130 [FVal 5, FVal 45, FVal 140]) = 45 \<and>
   window_mean 10 130 [FVal 45, FVal 45, FVal 46] = FVal (11883861 / 262144) \<and>
   float_of_bits32 0x42355555 = FVal (11883861 / 262144) \<and>
   real_mean (survivors 10 130 [FVal 45, FVal 45, FVal 46]) = 136 / 3 \<and>
   \<bar>11883861 / 262144 - 136 / 3\<bar> \<le> (136 / 3 :: real) / 2 ^ 18"
proof -
  have conn: "smc_conn (after_cache_init three_cpu_keys_world initial_state)"
    by (simp add: after_cache_init_def smc_fun_defs example_world_defs Let_def)
  have len: "length (cached_cpu_keys (after_cache_init three_cpu_keys_world initial_state)) = 3"
    by (simp add: after_cache_init_def smc_fun_defs example_world_defs Let_def)
  have rd: "smc_readings three_cpu_keys_world (after_cache_init three_cpu_keys_world initial_state)
     (cached_cpu_keys (after_cache_init three_cpu_keys_world initial_state)) =
     [FVal 5, FVal 45, FVal 140]"
    by (simp add: smc_readings_def after_cache_init_def smc_fun_defs example_world_defs Let_def)
  from C2_window_mean
  have "fst (smc_get_temperatures three_cpu_keys_world initial_state) =
      (if smc_conn (after_cache_init three_cpu_keys_world initial_state)
       then window_mean 10 130
              (smc_readings three_cpu_keys_world (after_cache_init three_cpu_keys_world initial_state)
                 (cached_cpu_keys (after_cache_init three_cpu_keys_world initial_state)))
       else FVal 0)"
    and "window_mean 10 130 [FVal 5, FVal 45, FVal 140] = FVal 45"
    by blast+
  then have t: "fst (smc_get_temperatures three_cpu_keys_world initial_state) = FVal 45"
    by (simp only: conn rd if_True)
  have m1: "real_mean (survivors 10 130 [FVal 5, FVal 45, FVal 140]) = 45"
    and m2: "real_mean (survivors 10 130 [FVal 45, FVal 45, FVal 46]) = 136 / 3"
    by (simp_all add: real_mean_def)
  have l: "length [FVal 45, FVal 45, FVal 46] \<le> MAX_CACHED_KEYS"
    by (simp add: MAX_CACHED_KEYS_def)
  from C2_window_mean
  have "(1::real) \<le> 10 \<and> (130::real) \<le> 130 \<and> length [FVal 45, FVal 45, FVal 46] \<le> MAX_CACHED_KEYS \<longrightarrow>
      (\<exists>r. window_mean 10 130 [FVal 45, FVal 45, FVal 46] = FVal r \<and>
           \<bar>r - real_mean (survivors 10 130 [FVal 45, FVal 45, FVal 46])\<bar>
             \<le> real_mean (survivors 10 130 [FVal 45, FVal 45, FVal 46]) / 2 ^ 18)"
    by blast
  with l have b: "\<bar>11883861 / 262144 - 136 / 3\<bar> \<le> (136 / 3 :: real) / 2 ^ 18"
    by (simp only: window_mean_examples(2) m2) simp
  have bits: "float_of_bits32 0x42355555 = FVal (11883861 / 262144)"
    by (simp add: float_of_bits32_def Let_def)
  show ?thesis
    using conn len rd t m1 m2 b bits window_mean_examples(2) by simp
qed

section \<open>The frequency residency calculator\<close>

text \<open>Sums of 64-bit words and of the signed numbers they stand for.\<close>

lemma word_sum_sint: "sum_list (ws :: 64 word list) = word_of_int (sum_list (map sint ws))"
  by (induction ws) simp_all

lemma sint_sum_list:
  "int64_range (sum_list (map sint ws)) \<Longrightarrow> sint (sum_list (ws :: 64 word list)) = sum_list (map sint ws)"
  by (simp add: word_sum_sint[of ws] sint_sbintrunc' int64_range_def signed_take_bit_int_eq_self)

lemma map_drop_index: "map f (drop k rs) = map (\<lambda>i. f (rs ! i)) [k ..< length rs]"
  by (rule nth_equalityI) simp_all

lemma active_residency_drop: "active_residency offset rs = sum_list (map sint (drop offset rs))"
  by (simp add: active_residency_def map_drop_index)

text \<open>The second loop of the calculator, characterised from any index on.\<close>

lemma residency_loop_sums:
  "i \<le> length rs \<Longrightarrow>
   residency_loop freqs offset i (drop i rs) tot act wfr =
     (tot + sum_list (drop i rs),
      act + sum_list (drop (max i offset) rs),
      foldl (weighted_step freqs offset rs) wfr [max i offset ..< length rs])"
proof (induction "length rs - i" arbitrary: i tot act wfr)
  case 0
  then show ?case by simp
next
  case (Suc n)
  then have lt: "i < length rs" and n: "n = length rs - Suc i" and le: "Suc i \<le> length rs"
    by simp_all
  have d: "drop i rs = rs ! i # drop (Suc i) rs"
    using lt by (simp add: Cons_nth_drop_Suc)
  note ih = Suc.hyps(1)[OF n le]
  show ?case
  proof (cases "offset \<le> i")
    case True
    then have m: "max i offset = i" "max (Suc i) offset = Suc i" by simp_all
    have u: "[i ..< length rs] = i # [Suc i ..< length rs]"
      using lt by (simp add: upt_conv_Cons)
    show ?thesis
      using True by (simp add: d ih m u weighted_step_def add.assoc)
  next
    case False
    then have m: "max i offset = offset" "max (Suc i) offset = offset" by simp_all
    show ?thesis
      using False by (simp add: d ih m add.assoc)
  qed
qed

lemma find_offset_from:
  "\<exists>n \<in> set names. named_active n \<Longrightarrow>
     i \<le> find_offset i names \<and> is_first_active names (find_offset i names - i)"
proof (induction names arbitrary: i)
  case Nil
  then show ?case by simp
next
  case (Cons n names)
  show ?case
  proof (cases "named_active n")
    case True
    then obtain buf where "n = Some buf" "\<not> idle_name buf"
      by (auto simp: named_active_def split: option.splits)
    then show ?thesis
      by (simp add: is_first_active_def named_active_def idle_name_def)
  next
    case False
    with Cons.prems have ex: "\<exists>n \<in> set names. named_active n" by auto
    from Cons.IH[OF ex, of "Suc i"]
    have ih: "Suc i \<le> find_offset (Suc i) names"
      "is_first_active names (find_offset (Suc i) names - Suc i)" by simp_all
    have eq: "find_offset i (n # names) = find_offset (Suc i) names"
      using False by (cases n) (auto simp: named_active_def idle_name_def)
    have k: "find_offset (Suc i) names - i = Suc (find_offset (Suc i) names - Suc i)"
      using ih(1) by simp
    show ?thesis
      using ih False by (simp add: eq k is_first_active_def)
  qed
qed

lemma find_offset_le: "find_offset i names \<le> i + length names"
  by (induction i names rule: find_offset.induct) auto

lemma calc_no_table: "calc_gpu_freq_from_residency (s\<lparr>gpu_freqs := []\<rparr>) ch = (FVal 0, FVal 0)"
  by (simp add: calc_gpu_freq_from_residency_def)

lemma calc_formula:
  assumes "gpu_freqs s \<noteq> []"
    and "pIOReportStateGetCount (ior_syms s)" and "pIOReportStateGetResidency (ior_syms s)"
    and "pIOReportStateGetNameForIndex (ior_syms s)"
    and "int64_range (total_residency (map snd (ch_states ch)))"
    and "int64_range (active_residency (find_offset 0 (map fst (ch_states ch))) (map snd (ch_states ch)))"
  shows "calc_gpu_freq_from_residency s ch =
     (if 0 < active_residency (find_offset 0 (map fst (ch_states ch))) (map snd (ch_states ch)) \<and>
         0 < total_residency (map snd (ch_states ch))
      then (cf_of_double
              (cd_div (weighted_double (gpu_freqs s) (find_offset 0 (map fst (ch_states ch)))
                         (map snd (ch_states ch)))
                      (cd_of_int (active_residency (find_offset 0 (map fst (ch_states ch)))
                         (map snd (ch_states ch))))),
            cf_mul (cf_div (cf_of_int (active_residency (find_offset 0 (map fst (ch_states ch)))
                              (map snd (ch_states ch))))
                           (cf_of_int (total_residency (map snd (ch_states ch)))))
                   (FVal 100))
      else (FVal 0, FVal 0))"
proof (cases "ch_states ch = []")
  case True
  then show ?thesis
    by (simp add: calc_gpu_freq_from_residency_def assms(1-4) active_residency_def total_residency_def)
next
  case False
  let ?names = "map fst (ch_states ch)" and ?rs = "map snd (ch_states ch)"
  let ?off = "find_offset 0 ?names"
  have loop: "residency_loop (gpu_freqs s) ?off 0 ?rs 0 0 (FVal 0) =
      (sum_list ?rs, sum_list (drop ?off ?rs), weighted_double (gpu_freqs s) ?off ?rs)"
    using residency_loop_sums[of 0 ?rs "gpu_freqs s" ?off 0 0 "FVal 0"]
    by (simp add: weighted_double_def)
  have t: "sint (sum_list ?rs) = total_residency ?rs"
    using sint_sum_list[of ?rs] assms(5) by (simp add: total_residency_def)
  have a: "sint (sum_list (drop ?off ?rs)) = active_residency ?off ?rs"
    using sint_sum_list[of "drop ?off ?rs"] assms(6) by (simp add: active_residency_drop)
  show ?thesis
    using False assms(1-4) by (simp add: calc_gpu_freq_from_residency_def loop Let_def t a)
qed

text \<open>Integers that \<^verbatim>\<open>double\<close> holds exactly.\<close>

lemma sint64_bound: "\<bar>sint (r :: 64 word)\<bar> \<le> 2 ^ 63"
  using sint_ge[of r] sint_lt[of r] by simp

lemma cd_of_int64_finite: "\<exists>d. cd_of_int (sint (r :: 64 word)) = FVal d"
proof -
  have "\<bar>real_of_int (sint r)\<bar> \<le> 2 ^ 63"
    using sint64_bound[of r] by (metis of_int_abs of_int_le_iff of_int_numeral of_int_power)
  also have "\<dots> < (2::real) ^ 1000" by simp
  finally show ?thesis unfolding cd_of_int_def by (rule to_double_finite)
qed

lemma uint32_bound: "uint (f :: 32 word) \<le> 9007199254740992"
  using uint_lt2p[of f] by simp

lemma cd_product_exact:
  assumes "\<bar>sint (r :: 64 word)\<bar> * uint (f :: 32 word) \<le> 2 ^ 53"
  shows "cd_mul (cd_of_int (sint r)) (cd_of_int (uint f)) = FVal (real_of_int (sint r * uint f))"
proof -
  have f: "cd_of_int (uint f) = FVal (real_of_int (uint f))"
    using uint32_bound[of f] by (intro cd_of_int_exact) simp
  show ?thesis
  proof (cases "uint f = 0")
    case True
    from cd_of_int64_finite[of r] obtain d where "cd_of_int (sint r) = FVal d" by blast
    then show ?thesis using True by (simp add: f)
  next
    case False
    then have "1 \<le> uint f" using uint_ge_0[of f] by linarith
    then have "\<bar>sint r\<bar> * 1 \<le> \<bar>sint r\<bar> * uint f" by (intro mult_left_mono) simp_all
    with assms have b: "\<bar>sint r\<bar> \<le> 9007199254740992" by simp
    have "\<bar>sint r * uint f\<bar> \<le> 9007199254740992"
      using assms by (simp add: abs_mult)
    from to_double_int[OF this] show ?thesis
      by (simp add: f cd_of_int_exact[OF b])
  qed
qed

lemma weighted_terms_nonneg:
  "0 \<le> (\<Sum>i\<leftarrow>ixs. if i - offset < length table
                     then \<bar>sint (rs ! i :: 64 word)\<bar> * uint (table ! (i - offset) :: 32 word) else 0)"
  by (rule sum_list_nonneg) auto

lemma weighted_fold_exact:
  "\<bar>a\<bar> + (\<Sum>i\<leftarrow>ixs. if i - offset < length table
                       then \<bar>sint (rs ! i)\<bar> * uint (table ! (i - offset)) else 0) \<le> 2 ^ 53 \<Longrightarrow>
   foldl (weighted_step table offset rs) (FVal (real_of_int a)) ixs =
     FVal (real_of_int (a + (\<Sum>i\<leftarrow>ixs. if i - offset < length table
                                      then sint (rs ! i) * uint (table ! (i - offset)) else 0)))"
proof (induction ixs arbitrary: a)
  case Nil
  show ?case by simp
next
  case (Cons i ixs)
  let ?rest = "\<Sum>i\<leftarrow>ixs. if i - offset < length table
                       then \<bar>sint (rs ! i)\<bar> * uint (table ! (i - offset)) else 0"
  have r0: "0 \<le> ?rest" by (rule weighted_terms_nonneg)
  show ?case
  proof (cases "i - offset < length table")
    case True
    let ?p = "sint (rs ! i) * uint (table ! (i - offset))"
    have ap: "\<bar>?p\<bar> = \<bar>sint (rs ! i)\<bar> * uint (table ! (i - offset))"
      by (simp add: abs_mult)
    from Cons.prems True have tot: "\<bar>a\<bar> + \<bar>?p\<bar> + ?rest \<le> 2 ^ 53"
      by (simp add: ap)
    then have p: "\<bar>sint (rs ! i)\<bar> * uint (table ! (i - offset)) \<le> 2 ^ 53"
      using r0 by (simp add: ap[symmetric])
    have "\<bar>a + ?p\<bar> \<le> 9007199254740992" using tot r0 by simp
    from to_double_int[OF this]
    have step: "weighted_step table offset rs (FVal (real_of_int a)) i = FVal (real_of_int (a + ?p))"
      using True by (simp add: weighted_step_def cd_product_exact[OF p])
    have "\<bar>a + ?p\<bar> + ?rest \<le> 2 ^ 53" using tot by linarith
    from Cons.IH[OF this] show ?thesis
      using True by (simp add: step add.assoc)
  next
    case False
    with Cons.prems have "\<bar>a\<bar> + ?rest \<le> 2 ^ 53" by simp
    from Cons.IH[OF this] show ?thesis
      using False by (simp add: weighted_step_def)
  qed
qed

lemma weighted_double_exact:
  "abs_weighted_sum table offset rs \<le> 2 ^ 53 \<Longrightarrow>
     weighted_double table offset rs = FVal (real_of_int (weighted_sum table offset rs))"
  using weighted_fold_exact[where a = 0 and ixs = "[offset ..< length rs]" and offset = offset
      and table = table and rs = rs]
  by (simp add: weighted_double_def weighted_sum_def abs_weighted_sum_def)


text \<open>A positive residency converts to a divisor that is at least 1.\<close>

lemma cd_of_int_pos:
  assumes "0 < n" "int64_range n"
  shows "\<exists>d. cd_of_int n = FVal d \<and> 1 \<le> d"
proof -
  have "real_of_int n < 2 ^ 63" using assms(2) unfolding int64_range_def
    by (metis of_int_less_iff of_int_numeral of_int_power)
  then have "\<bar>real_of_int n\<bar> < 2 ^ 1000" using assms(1) by simp
  from to_double_finite[OF this] obtain d where d: "to_double (real_of_int n) = FVal d" by blast
  have "1 \<le> real_of_int n" using assms(1) by simp
  from to_double_ge_1[OF this d] d show ?thesis by (simp add: cd_of_int_def)
qed

lemma cf_of_int_pos:
  assumes "0 < n" "int64_range n"
  shows "\<exists>d. cf_of_int n = FVal d \<and> 1 \<le> d"
proof -
  have "real_of_int n < 2 ^ 63" using assms(2) unfolding int64_range_def
    by (metis of_int_less_iff of_int_numeral of_int_power)
  then have "real_of_int n < pow2 63" by simp
  moreover have "0 \<le> real_of_int n" using assms(1) by simp
  ultimately obtain d where d: "to_float (real_of_int n) = FVal d"
    using to_float_le_pow2[of 63 "real_of_int n"] by auto
  have "1 \<le> real_of_int n" using assms(1) by simp
  from to_float_ge_1[OF this d] d show ?thesis by (simp add: cf_of_int_def)
qed

text \<open>
  Claim C3, as the code has it. Let the frequency table be loaded and not empty,
  let libIOReport provide the state accessors, let some state of the channel have
  a name that is none of IDLE, OFF and DOWN, and let the total residency (the sum
  over all states) and the active residency (the sum from the offset on) be values
  of \<^verbatim>\<open>int64_t\<close>. Then the offset that \<^verbatim>\<open>calc_gpu_freq_from_residency\<close> works with is the
  first index of such a state. When both residencies are positive, the function
  reports as frequency the weighted sum of \<open>residency[i] * table[i - offset]\<close> (over
  \<open>i\<close> from the offset on with \<open>i - offset\<close> inside the table, accumulated in
  \<^verbatim>\<open>double\<close>) divided by the active residency in \<^verbatim>\<open>double\<close> and narrowed to \<^verbatim>\<open>float\<close>,
  and as load the quotient of the active by the total residency times 100, computed
  in \<^verbatim>\<open>float\<close>; both divisors are then at least 1. Otherwise, in particular when the
  total residency is 0, it reports 0 for both outputs. The accumulated weighted sum
  is the exact one whenever the sum of the magnitudes of its terms is at most
  \<open>2 ^ 53\<close>. With an empty table the function reports 0 for both outputs whatever
  the channel.
\<close>

theorem C3_residency_amended:
  assumes "gpu_freqs s \<noteq> []"
    and "pIOReportStateGetCount (ior_syms s)" and "pIOReportStateGetResidency (ior_syms s)"
    and "pIOReportStateGetNameForIndex (ior_syms s)"
    and "list_ex named_active (map fst (ch_states ch))"
    and "int64_range (total_residency (map snd (ch_states ch)))"
    and "int64_range (active_residency (find_offset 0 (map fst (ch_states ch)))
           (map snd (ch_states ch)))"
  shows "is_first_active (map fst (ch_states ch)) (find_offset 0 (map fst (ch_states ch))) \<and>
     calc_gpu_freq_from_residency s ch =
       (if 0 < active_residency (find_offset 0 (map fst (ch_states ch))) (map snd (ch_states ch)) \<and>
           0 < total_residency (map snd (ch_states ch))
        then (cf_of_double
                (cd_div (weighted_double (gpu_freqs s) (find_offset 0 (map fst (ch_states ch)))
                           (map snd (ch_states ch)))
                        (cd_of_int (active_residency (find_offset 0 (map fst (ch_states ch)))
                           (map snd (ch_states ch))))),
              cf_mul (cf_div (cf_of_int (active_residency (find_offset 0 (map fst (ch_states ch)))
                                (map snd (ch_states ch))))
                             (cf_of_int (total_residency (map snd (ch_states ch)))))
                     (FVal 100))
        else (FVal 0, FVal 0)) \<and>
     (0 < active_residency (find_offset 0 (map fst (ch_states ch))) (map snd (ch_states ch)) \<longrightarrow>
        (\<exists>d. cd_of_int (active_residency (find_offset 0 (map fst (ch_states ch)))
                (map snd (ch_states ch))) = FVal d \<and> 1 \<le> d)) \<and>
     (0 < total_residency (map snd (ch_states ch)) \<longrightarrow>
        (\<exists>d. cf_of_int (total_residency (map snd (ch_states ch))) = FVal d \<and> 1 \<le> d)) \<and>
     (abs_weighted_sum (gpu_freqs s) (find_offset 0 (map fst (ch_states ch)))
          (map snd (ch_states ch)) \<le> 2 ^ 53 \<longrightarrow>
        weighted_double (gpu_freqs s) (find_offset 0 (map fst (ch_states ch)))
          (map snd (ch_states ch)) =
        FVal (real_of_int (weighted_sum (gpu_freqs s) (find_offset 0 (map fst (ch_states ch)))
          (map snd (ch_states ch))))) \<and>
     calc_gpu_freq_from_residency (s\<lparr>gpu_freqs := []\<rparr>) ch = (FVal 0, FVal 0)"
proof -
  from assms(5) have "\<exists>n \<in> set (map fst (ch_states ch)). named_active n"
    by (simp add: list_ex_iff)
  from find_offset_from[OF this, of 0]
  have 1: "is_first_active (map fst (ch_states ch)) (find_offset 0 (map fst (ch_states ch)))"
    by simp
  note 2 = calc_formula[OF assms(1-4) assms(6) assms(7)]
  have 3: "0 < active_residency (find_offset 0 (map fst (ch_states ch))) (map snd (ch_states ch)) \<longrightarrow>
        (\<exists>d. cd_of_int (active_residency (find_offset 0 (map fst (ch_states ch)))
                (map snd (ch_states ch))) = FVal d \<and> 1 \<le> d)"
    using cd_of_int_pos[OF _ assms(7)] by blast
  have 4: "0 < total_residency (map snd (ch_states ch)) \<longrightarrow>
        (\<exists>d. cf_of_int (total_residency (map snd (ch_states ch))) = FVal d \<and> 1 \<le> d)"
    using cf_of_int_pos[OF _ assms(6)] by blast
  show ?thesis
    using 1 2 3 4 weighted_double_exact calc_no_table[of s ch] by blast
qed

lemmas residency_example_defs =
  table_state_def gpuph_channel_def all_symbols_def initial_state_def
  named_active_def idle_name_def is_first_active_def
  active_residency_def total_residency_def weighted_sum_def abs_weighted_sum_def int64_range_def

text \<open>The roundings of the example: \<open>700 / 3\<close> to binary64 and on to binary32.\<close>

lemma to_double_700_3: "to_double (700 / 3) = FVal (8209686820727467 / 35184372088832)"
  unfolding to_double_def
  by (subst fp_round_eval[where e = 7]) (simp_all add: Let_def round_even_def)

lemma to_float_700_3:
  "to_float (8209686820727467 / 35184372088832) = FVal (15291733 / 65536)"
  unfolding to_float_def
  by (subst fp_round_eval[where e = 7]) (simp_all add: Let_def round_even_def)

text \<open>
  The example of the specification: table 100, 200, 300 MHz, states IDLE, P1, P2,
  P3 with residencies 10, 5, 10, 15. The offset is 1, the residencies are 40 and
  30, the weighted sum is 7000, the load is 75 and the frequency is the binary32
  value \<open>15291733 / 2 ^ 16\<close> (the bit pattern \<^verbatim>\<open>0x43695555\<close>), the nearest to \<open>7000 / 30\<close>.
\<close>

theorem C3_residency_witness:
  "gpu_freqs (table_state [100, 200, 300]) \<noteq> [] \<and>
   pIOReportStateGetCount (ior_syms (table_state [100, 200, 300])) \<and>
   pIOReportStateGetResidency (ior_syms (table_state [100, 200, 300])) \<and>
   pIOReportStateGetNameForIndex (ior_syms (table_state [100, 200, 300])) \<and>
   list_ex named_active
     (map fst (ch_states (gpuph_channel
        [(Some ''IDLE'', 10), (Some ''P1'', 5), (Some ''P2'', 10), (Some ''P3'', 15)]))) \<and>
   find_offset 0
     (map fst (ch_states (gpuph_channel
        [(Some ''IDLE'', 10), (Some ''P1'', 5), (Some ''P2'', 10), (Some ''P3'', 15)]))) = 1 \<and>
   total_residency
     (map snd (ch_states (gpuph_channel
        [(Some ''IDLE'', 10), (Some ''P1'', 5), (Some ''P2'', 10), (Some ''P3'', 15)]))) = 40 \<and>
   active_residency 1
     (map snd (ch_states (gpuph_channel
        [(Some ''IDLE'', 10), (Some ''P1'', 5), (Some ''P2'', 10), (Some ''P3'', 15)]))) = 30 \<and>
   weighted_sum [100, 200, 300] 1
     (map snd (ch_states (gpuph_channel
        [(Some ''IDLE'', 10), (Some ''P1'', 5), (Some ''P2'', 10), (Some ''P3'', 15)]))) =
     5 * 100 + 10 * 200 + 15 * 300 \<and>
   calc_gpu_freq_from_residency (table_state [100, 200, 300])
     (gpuph_channel [(Some ''IDLE'', 10), (Some ''P1'', 5), (Some ''P2'', 10), (Some ''P3'', 15)]) =
     (FVal (15291733 / 65536), FVal 75) \<and>
   float_of_bits32 0x43695555 = FVal (15291733 / 65536) \<and>
   \<bar>15291733 / 65536 - (5 * 100 + 10 * 200 + 15 * 300) / 30\<bar> \<le> (1 / 100000 :: real)"
proof -
  let ?s = "table_state [100, 200, 300]"
  let ?ch = "gpuph_channel [(Some ''IDLE'', 10), (Some ''P1'', 5), (Some ''P2'', 10), (Some ''P3'', 15)]"
  have h1: "gpu_freqs ?s \<noteq> []" by (simp add: residency_example_defs)
  have h2: "pIOReportStateGetCount (ior_syms ?s)" by (simp add: residency_example_defs)
  have h3: "pIOReportStateGetResidency (ior_syms ?s)" by (simp add: residency_example_defs)
  have h4: "pIOReportStateGetNameForIndex (ior_syms ?s)" by (simp add: residency_example_defs)
  have h5: "list_ex named_active (map fst (ch_states ?ch))" by (simp add: residency_example_defs)
  have off: "find_offset 0 (map fst (ch_states ?ch)) = Suc 0" by (simp add: residency_example_defs)
  have up: "[Suc 0 ..< 4] = [1, 2, 3]" by (simp add: upt_rec)
  have g: "gpu_freqs ?s = [100, 200, 300]" by (simp add: residency_example_defs)
  have v: "active_residency (Suc 0) (map snd (ch_states ?ch)) = 30"
    "total_residency (map snd (ch_states ?ch)) = 40"
    "weighted_sum [100, 200, 300] (Suc 0) (map snd (ch_states ?ch)) = 7000"
    "abs_weighted_sum [100, 200, 300] (Suc 0) (map snd (ch_states ?ch)) = 7000"
    by (simp_all add: residency_example_defs up)
  have h6: "int64_range (total_residency (map snd (ch_states ?ch)))"
    by (simp only: v) (simp add: int64_range_def)
  have h7: "int64_range (active_residency (find_offset 0 (map fst (ch_states ?ch)))
      (map snd (ch_states ?ch)))"
    by (simp only: off v) (simp add: int64_range_def)
  note inst = C3_residency_amended[OF h1 h2 h3 h4 h5 h6 h7]
  from inst have w: "weighted_double [100, 200, 300] (Suc 0) (map snd (ch_states ?ch)) = FVal 7000"
    by (simp add: off v g)
  from inst have "calc_gpu_freq_from_residency ?s ?ch = (FVal (15291733 / 65536), FVal 75)"
    by (simp add: off v g w cd_of_int_def cf_of_int_def to_double_700_3 to_float_700_3 to_float_3_4)
  moreover have "float_of_bits32 0x43695555 = FVal (15291733 / 65536)"
    by (simp add: float_of_bits32_def Let_def)
  ultimately show ?thesis using h1 h2 h3 h4 h5 off v by simp
qed

text \<open>
  Claim C3 as it is worded fails on a channel that has no active state: the only
  state is named IDLE, the offset stays 0, which is not the index of a state whose
  name is none of IDLE, OFF, DOWN, and the idle residency is reported as 100 MHz
  at a load of 100.
\<close>

theorem C3_offset_counterexample:
  "\<not> is_first_active (map fst (ch_states (gpuph_channel [(Some ''IDLE'', 10)])))
       (find_offset 0 (map fst (ch_states (gpuph_channel [(Some ''IDLE'', 10)])))) \<and>
   find_offset 0 (map fst (ch_states (gpuph_channel [(Some ''IDLE'', 10)]))) = 0 \<and>
   calc_gpu_freq_from_residency (table_state [100]) (gpuph_channel [(Some ''IDLE'', 10)]) =
     (FVal 100, FVal 100)"
  by (simp add: residency_example_defs calc_gpu_freq_from_residency_def cd_of_int_def cf_of_int_def)

text \<open>
  Without the bound on the total residency the sums wrap around: the residencies
  \<open>2 ^ 63 - 1\<close> and 1 add up to a negative total and both outputs are 0.
\<close>

lemma calc_wraps_example:
  "calc_gpu_freq_from_residency (table_state [100])
     (gpuph_channel [(Some ''P1'', 0x7FFFFFFFFFFFFFFF), (Some ''P2'', 1)]) = (FVal 0, FVal 0)"
  by (simp add: residency_example_defs calc_gpu_freq_from_residency_def)

section \<open>The key cache\<close>

text \<open>
  Probing changes nothing but the list of SMC calls; the keys a probe loop adds are
  keys of its candidate list, each at most once.
\<close>

lemma smc_read_key_info_snd:
  "snd (smc_read_key_info w s k) =
     snd (smc_read w s (SMCKeyData_zero\<lparr>key := str_to_fourcc k, data8 := 9\<rparr>))"
  by (simp add: smc_read_key_info_def Let_def split: prod.splits option.splits)

lemma smc_read_key_info_calls_only: "smc_calls_only s (snd (smc_read_key_info w s k))"
  by (simp only: smc_read_key_info_snd smc_read_calls_only)

lemma probe_keys_calls_only: "smc_calls_only s (snd (probe_keys w ks cache s))"
proof (induction ks arbitrary: cache s)
  case Nil
  show ?case by (simp add: smc_calls_only_refl)
next
  case (Cons k ks)
  obtain r s1 where r: "smc_read_key_info w s k = (r, s1)"
    by (cases "smc_read_key_info w s k")
  have 1: "smc_calls_only s s1"
    using smc_read_key_info_calls_only[of s w k] r by simp
  show ?case
    using r smc_calls_only_trans[OF 1 Cons.IH] smc_calls_only_refl
    by (cases r) simp_all
qed

lemma probe_keys_distinct:
  "distinct (map key_fourcc cache @ map str_to_fourcc ks) \<Longrightarrow>
     distinct (map key_fourcc (fst (probe_keys w ks cache s)))"
proof (induction ks arbitrary: cache s)
  case Nil
  then show ?case by simp
next
  case (Cons k ks)
  obtain r s1 where r: "smc_read_key_info w s k = (r, s1)"
    by (cases "smc_read_key_info w s k")
  from Cons.prems have d1: "distinct (map key_fourcc cache @ map str_to_fourcc ks)"
    and d2: "distinct (map key_fourcc (cache @ [\<lparr>key_fourcc = str_to_fourcc k, cached_key_info = i\<rparr>]) @
                map str_to_fourcc ks)" for i
    by auto
  show ?case
    using r Cons.IH[OF d1] Cons.IH[OF d2] Cons.prems
    by (cases r) simp_all
qed

lemma probe_keys_length:
  "length cache \<le> MAX_CACHED_KEYS \<Longrightarrow>
     length (fst (probe_keys w ks cache s)) \<le> MAX_CACHED_KEYS"
proof (induction ks arbitrary: cache s)
  case Nil
  then show ?case by simp
next
  case (Cons k ks)
  obtain r s1 where r: "smc_read_key_info w s k = (r, s1)"
    by (cases "smc_read_key_info w s k")
  have l: "length cache < MAX_CACHED_KEYS \<Longrightarrow>
      length (cache @ [\<lparr>key_fourcc = str_to_fourcc k, cached_key_info = i\<rparr>]) \<le> MAX_CACHED_KEYS" for i
    by simp
  show ?case
    using r Cons.IH[OF Cons.prems] Cons.IH[OF l] Cons.prems
    by (cases r) simp_all
qed

lemma probe_keys_no_conn: "\<not> smc_conn s \<Longrightarrow> probe_keys w ks cache s = (cache, s)"
  by (induction ks arbitrary: cache s)
     (simp_all add: smc_read_key_info_def smc_read_def Let_def)


lemma smc_fields_only_refl: "smc_fields_only s s"
  by (simp add: smc_fields_only_def)

lemma smc_fields_only_trans:
  assumes "smc_fields_only s s'" and "smc_fields_only s' s''"
  shows "smc_fields_only s s''"
proof -
  from assms(1) obtain a b c d e f g where 1:
    "s' = s\<lparr>smc_conn := a, cached_cpu_keys := b, cached_gpu_keys := c, cached_board_keys := d,
             smc_cache_initialized := e, smc_opens := f, smc_calls := g\<rparr>"
    unfolding smc_fields_only_def by blast
  from assms(2) obtain a' b' c' d' e' f' g' where 2:
    "s'' = s'\<lparr>smc_conn := a', cached_cpu_keys := b', cached_gpu_keys := c', cached_board_keys := d',
             smc_cache_initialized := e', smc_opens := f', smc_calls := g'\<rparr>"
    unfolding smc_fields_only_def by blast
  show ?thesis
    unfolding smc_fields_only_def by (simp add: 1 2)
qed

lemma smc_calls_only_fields_only: "smc_calls_only s s' \<Longrightarrow> smc_fields_only s s'"
proof -
  assume "smc_calls_only s s'"
  then obtain g where 1: "s' = s\<lparr>smc_calls := g\<rparr>"
    unfolding smc_calls_only_def by blast
  show ?thesis unfolding smc_fields_only_def by (simp add: 1)
qed

lemma smc_open_fields_only: "smc_fields_only s (snd (smc_open w s))"
  by (simp add: smc_open_def smc_fields_only_def Let_def)

lemma smc_open_succeeds:
  "smc_conn s \<or> smc_endpoint_opens w \<Longrightarrow>
     fst (smc_open w s) = 0 \<and> smc_conn (snd (smc_open w s))"
  by (auto simp: smc_open_def Let_def)

lemma smc_init_cache_done: "smc_cache_initialized s \<Longrightarrow> smc_init_cache w s = s"
  by (simp add: smc_init_cache_def)

lemma smc_init_cache_fails:
  "\<not> smc_cache_initialized s \<Longrightarrow> \<not> smc_conn s \<Longrightarrow> \<not> smc_endpoint_opens w \<Longrightarrow>
     smc_init_cache w s = s\<lparr>smc_opens := smc_opens s + 1\<rparr>"
  by (simp add: smc_init_cache_def smc_open_def Let_def)

lemma smc_init_cache_completes:
  "\<not> smc_cache_initialized s \<Longrightarrow> smc_conn s \<or> smc_endpoint_opens w \<Longrightarrow>
     smc_cache_initialized (smc_init_cache w s) \<and> smc_conn (smc_init_cache w s)"
proof -
  assume n: "\<not> smc_cache_initialized s" and o: "smc_conn s \<or> smc_endpoint_opens w"
  obtain s0 where s0: "smc_open w s = (0, s0)" "smc_conn s0"
    using smc_open_succeeds[OF o] by (cases "smc_open w s") auto
  obtain c s1 where p1: "probe_keys w cpu_keys (cached_cpu_keys s0) s0 = (c, s1)"
    by (cases "probe_keys w cpu_keys (cached_cpu_keys s0) s0")
  obtain g s2 where p2: "probe_keys w gpu_keys (cached_gpu_keys s1) (s1\<lparr>cached_cpu_keys := c\<rparr>) = (g, s2)"
    by (cases "probe_keys w gpu_keys (cached_gpu_keys s1) (s1\<lparr>cached_cpu_keys := c\<rparr>)")
  obtain b s3 where p3: "probe_keys w board_keys (cached_board_keys s2) (s2\<lparr>cached_gpu_keys := g\<rparr>) = (b, s3)"
    by (cases "probe_keys w board_keys (cached_board_keys s2) (s2\<lparr>cached_gpu_keys := g\<rparr>)")
  have e: "smc_init_cache w s = s3\<lparr>cached_board_keys := b, smc_cache_initialized := True\<rparr>"
    using n s0 p1 p2 p3 by (simp add: smc_init_cache_def)
  have c1: "smc_conn s1 = smc_conn s0"
    using probe_keys_calls_only[of s0 w cpu_keys "cached_cpu_keys s0"] p1
    by (simp add: smc_calls_only_fields)
  have c2: "smc_conn s2 = smc_conn s1"
    using probe_keys_calls_only[of "s1\<lparr>cached_cpu_keys := c\<rparr>" w gpu_keys "cached_gpu_keys s1"] p2
    by (simp add: smc_calls_only_fields)
  have c3: "smc_conn s3 = smc_conn s2"
    using probe_keys_calls_only[of "s2\<lparr>cached_gpu_keys := g\<rparr>" w board_keys "cached_board_keys s2"] p3
    by (simp add: smc_calls_only_fields)
  show ?thesis using s0 c1 c2 c3 by (simp add: e)
qed


lemma candidate_keys_distinct:
  "distinct (map str_to_fourcc cpu_keys)" "distinct (map str_to_fourcc gpu_keys)"
  "distinct (map str_to_fourcc board_keys)"
  by (simp_all add: cpu_keys_def gpu_keys_def board_keys_def str_to_fourcc_def)

lemma probe_keys_form:
  obtains cs where "snd (probe_keys w ks cache s) = s\<lparr>smc_calls := cs\<rparr>"
  using probe_keys_calls_only[of s w ks cache] unfolding smc_calls_only_def by blast

lemma smc_init_cache_opened:
  assumes n: "\<not> smc_cache_initialized s" and o: "smc_open w s = (0, s0)"
  shows "\<exists>c g b cs.
      smc_init_cache w s =
        s0\<lparr>cached_cpu_keys := c, cached_gpu_keys := g, cached_board_keys := b,
            smc_cache_initialized := True, smc_calls := cs\<rparr> \<and>
      (cached_cpu_keys s0 = [] \<longrightarrow> distinct (map key_fourcc c)) \<and>
      (cached_gpu_keys s0 = [] \<longrightarrow> distinct (map key_fourcc g)) \<and>
      (cached_board_keys s0 = [] \<longrightarrow> distinct (map key_fourcc b)) \<and>
      (length (cached_cpu_keys s0) \<le> MAX_CACHED_KEYS \<longrightarrow> length c \<le> MAX_CACHED_KEYS) \<and>
      (length (cached_gpu_keys s0) \<le> MAX_CACHED_KEYS \<longrightarrow> length g \<le> MAX_CACHED_KEYS) \<and>
      (length (cached_board_keys s0) \<le> MAX_CACHED_KEYS \<longrightarrow> length b \<le> MAX_CACHED_KEYS)"
proof -
  obtain c s1 where p1: "probe_keys w cpu_keys (cached_cpu_keys s0) s0 = (c, s1)"
    by (cases "probe_keys w cpu_keys (cached_cpu_keys s0) s0")
  obtain cs1 where f1: "s1 = s0\<lparr>smc_calls := cs1\<rparr>"
    using probe_keys_form[of w cpu_keys "cached_cpu_keys s0" s0] p1 by auto
  obtain g s2 where p2: "probe_keys w gpu_keys (cached_gpu_keys s1) (s1\<lparr>cached_cpu_keys := c\<rparr>) = (g, s2)"
    by (cases "probe_keys w gpu_keys (cached_gpu_keys s1) (s1\<lparr>cached_cpu_keys := c\<rparr>)")
  obtain cs2 where f2: "s2 = s1\<lparr>cached_cpu_keys := c, smc_calls := cs2\<rparr>"
    using probe_keys_form[of w gpu_keys "cached_gpu_keys s1" "s1\<lparr>cached_cpu_keys := c\<rparr>"] p2 by auto
  obtain b s3 where p3: "probe_keys w board_keys (cached_board_keys s2) (s2\<lparr>cached_gpu_keys := g\<rparr>) = (b, s3)"
    by (cases "probe_keys w board_keys (cached_board_keys s2) (s2\<lparr>cached_gpu_keys := g\<rparr>)")
  obtain cs3 where f3: "s3 = s2\<lparr>cached_gpu_keys := g, smc_calls := cs3\<rparr>"
    using probe_keys_form[of w board_keys "cached_board_keys s2" "s2\<lparr>cached_gpu_keys := g\<rparr>"] p3 by auto
  have e: "smc_init_cache w s = s3\<lparr>cached_board_keys := b, smc_cache_initialized := True\<rparr>"
    using n o p1 p2 p3 by (simp add: smc_init_cache_def)
  have form: "smc_init_cache w s =
        s0\<lparr>cached_cpu_keys := c, cached_gpu_keys := g, cached_board_keys := b,
            smc_cache_initialized := True, smc_calls := cs3\<rparr>"
    by (simp add: e f3 f2 f1)
  have dc: "cached_cpu_keys s0 = [] \<Longrightarrow> distinct (map key_fourcc c)"
    using probe_keys_distinct[of "cached_cpu_keys s0" cpu_keys w s0] p1 candidate_keys_distinct(1)
    by simp
  have dg: "cached_gpu_keys s0 = [] \<Longrightarrow> distinct (map key_fourcc g)"
    using probe_keys_distinct[of "cached_gpu_keys s1" gpu_keys w "s1\<lparr>cached_cpu_keys := c\<rparr>"] p2
      candidate_keys_distinct(2)
    by (simp add: f1)
  have db: "cached_board_keys s0 = [] \<Longrightarrow> distinct (map key_fourcc b)"
    using probe_keys_distinct[of "cached_board_keys s2" board_keys w "s2\<lparr>cached_gpu_keys := g\<rparr>"] p3
      candidate_keys_distinct(3)
    by (simp add: f1 f2)
  have lc: "length (cached_cpu_keys s0) \<le> MAX_CACHED_KEYS \<Longrightarrow> length c \<le> MAX_CACHED_KEYS"
    using probe_keys_length[of "cached_cpu_keys s0" w cpu_keys s0] p1 by simp
  have lg: "length (cached_gpu_keys s0) \<le> MAX_CACHED_KEYS \<Longrightarrow> length g \<le> MAX_CACHED_KEYS"
    using probe_keys_length[of "cached_gpu_keys s1" w gpu_keys "s1\<lparr>cached_cpu_keys := c\<rparr>"] p2
    by (simp add: f1)
  have lb: "length (cached_board_keys s0) \<le> MAX_CACHED_KEYS \<Longrightarrow> length b \<le> MAX_CACHED_KEYS"
    using probe_keys_length[of "cached_board_keys s2" w board_keys "s2\<lparr>cached_gpu_keys := g\<rparr>"] p3
    by (simp add: f1 f2)
  show ?thesis using form dc dg db lc lg lb by blast
qed

lemma smc_open_form:
  "snd (smc_open w s) = s \<or>
   snd (smc_open w s) = s\<lparr>smc_opens := smc_opens s + 1\<rparr> \<or>
   snd (smc_open w s) = s\<lparr>smc_opens := smc_opens s + 1, smc_conn := True\<rparr>"
  by (simp add: smc_open_def Let_def)

lemma smc_init_cache_fields_only: "smc_fields_only s (smc_init_cache w s)"
proof (cases "smc_cache_initialized s")
  case True
  then show ?thesis by (simp add: smc_init_cache_done smc_fields_only_refl)
next
  case False
  obtain r s0 where o: "smc_open w s = (r, s0)" by (cases "smc_open w s")
  have fo: "smc_fields_only s s0" using smc_open_fields_only[of s w] o by simp
  show ?thesis
  proof (cases "r = 0")
    case True
    from smc_init_cache_opened[OF False o[unfolded True]] obtain c g b cs where
      e: "smc_init_cache w s =
        s0\<lparr>cached_cpu_keys := c, cached_gpu_keys := g, cached_board_keys := b,
            smc_cache_initialized := True, smc_calls := cs\<rparr>" by blast
    have "smc_fields_only s0 (smc_init_cache w s)"
      unfolding smc_fields_only_def by (simp add: e)
    with fo show ?thesis by (rule smc_fields_only_trans)
  next
    case ne: False
    then have "smc_init_cache w s = s0" using False o by (simp add: smc_init_cache_def)
    with fo show ?thesis by simp
  qed
qed

lemma cache_inv_initial: "cache_inv initial_state"
  by (simp add: cache_inv_def initial_state_def)

lemma cache_inv_init_cache: "cache_inv s \<Longrightarrow> cache_inv (smc_init_cache w s)"
proof (cases "smc_cache_initialized s")
  case True
  assume "cache_inv s"
  with True show ?thesis by (simp add: smc_init_cache_done)
next
  case False
  assume inv: "cache_inv s"
  with False have em: "cached_cpu_keys s = []" "cached_gpu_keys s = []" "cached_board_keys s = []"
    by (simp_all add: cache_inv_def)
  obtain r s0 where o: "smc_open w s = (r, s0)" by (cases "smc_open w s")
  have s0: "s0 = s \<or> s0 = s\<lparr>smc_opens := smc_opens s + 1\<rparr> \<or>
      s0 = s\<lparr>smc_opens := smc_opens s + 1, smc_conn := True\<rparr>"
    using smc_open_form[of w s] o by simp
  then have em0: "cached_cpu_keys s0 = []" "cached_gpu_keys s0 = []" "cached_board_keys s0 = []"
    and n0: "\<not> smc_cache_initialized s0"
    using em False by auto
  show ?thesis
  proof (cases "r = 0")
    case True
    from smc_init_cache_opened[OF False o[unfolded True]] em0 obtain c g b cs where
      e: "smc_init_cache w s =
        s0\<lparr>cached_cpu_keys := c, cached_gpu_keys := g, cached_board_keys := b,
            smc_cache_initialized := True, smc_calls := cs\<rparr>"
      and d: "distinct (map key_fourcc c)" "distinct (map key_fourcc g)" "distinct (map key_fourcc b)"
      and l: "length c \<le> MAX_CACHED_KEYS" "length g \<le> MAX_CACHED_KEYS"
        "length b \<le> MAX_CACHED_KEYS"
      by auto
    show ?thesis by (simp add: cache_inv_def e d l)
  next
    case ne: False
    then have "smc_init_cache w s = s0" using False o by (simp add: smc_init_cache_def)
    then show ?thesis using em0 n0 by (simp add: cache_inv_def)
  qed
qed


lemma smc_init_cache_twice:
  "cached_cpu_keys (smc_init_cache w (smc_init_cache w s)) = cached_cpu_keys (smc_init_cache w s) \<and>
   cached_gpu_keys (smc_init_cache w (smc_init_cache w s)) = cached_gpu_keys (smc_init_cache w s) \<and>
   cached_board_keys (smc_init_cache w (smc_init_cache w s)) = cached_board_keys (smc_init_cache w s) \<and>
   smc_calls (smc_init_cache w (smc_init_cache w s)) = smc_calls (smc_init_cache w s)"
proof (cases "smc_cache_initialized (smc_init_cache w s)")
  case True
  then show ?thesis by (simp add: smc_init_cache_done)
next
  case False
  then have n: "\<not> smc_cache_initialized s"
    using smc_init_cache_done[of s w] by auto
  have c: "\<not> (smc_conn s \<or> smc_endpoint_opens w)"
    using smc_init_cache_completes[OF n, of w] False by blast
  then have 1: "smc_init_cache w s = s\<lparr>smc_opens := smc_opens s + 1\<rparr>"
    using n by (simp add: smc_init_cache_fails)
  have 2: "smc_init_cache w (s\<lparr>smc_opens := smc_opens s + 1\<rparr>) =
      s\<lparr>smc_opens := smc_opens s + 1 + 1\<rparr>"
    using n c by (simp add: smc_init_cache_fails)
  have 3: "smc_init_cache w (smc_init_cache w s) = s\<lparr>smc_opens := smc_opens s + 1 + 1\<rparr>"
    by (simp only: 1 2)
  show ?thesis by (simp only: 3) (simp add: 1)
qed

text \<open>
  Claim C8, as the code has it. Calling \<^verbatim>\<open>smc_init_cache\<close> twice leaves the three key
  caches as one call leaves them, and the second call sends no request to the SMC:
  this holds for every state when both calls meet the same world, and for any two
  worlds once the first call has set the initialisation flag (the second call then
  changes nothing at all, so no cached key is probed again). A call that cannot
  open the connection changes nothing but the count of attempts: the caches and
  the flag stay as they were, and the next call starts afresh. The caches start
  empty, and every call keeps the invariant that they are empty until the flag is
  set, that no cache holds a key twice and that none holds more than
  \<^verbatim>\<open>MAX_CACHED_KEYS\<close> keys.
\<close>

theorem C8_init_cache_amended:
  "(\<forall>w s.
      cached_cpu_keys (smc_init_cache w (smc_init_cache w s)) = cached_cpu_keys (smc_init_cache w s) \<and>
      cached_gpu_keys (smc_init_cache w (smc_init_cache w s)) = cached_gpu_keys (smc_init_cache w s) \<and>
      cached_board_keys (smc_init_cache w (smc_init_cache w s)) =
        cached_board_keys (smc_init_cache w s) \<and>
      smc_calls (smc_init_cache w (smc_init_cache w s)) = smc_calls (smc_init_cache w s)) \<and>
   (\<forall>w w' s. smc_cache_initialized (smc_init_cache w s) \<longrightarrow>
      smc_init_cache w' (smc_init_cache w s) = smc_init_cache w s) \<and>
   (\<forall>w s. \<not> smc_cache_initialized s \<and> \<not> smc_conn s \<and> \<not> smc_endpoint_opens w \<longrightarrow>
      smc_init_cache w s = s\<lparr>smc_opens := smc_opens s + 1\<rparr>) \<and>
   cache_inv initial_state \<and>
   (\<forall>w s. cache_inv s \<longrightarrow> cache_inv (smc_init_cache w s))"
  using smc_init_cache_twice smc_init_cache_done smc_init_cache_fails cache_inv_initial
    cache_inv_init_cache
  by blast

text \<open>
  On a machine with three processor keys the first call sets the flag and caches
  the three keys; a second call, even in a world where nothing answers, returns
  the same state. In a world where nothing answers, a first call leaves the
  initial state as it is but for the count of attempts.
\<close>

theorem C8_init_cache_amended_witness:
  "smc_cache_initialized (smc_init_cache three_cpu_keys_world initial_state) \<and>
   map key_fourcc (cached_cpu_keys (smc_init_cache three_cpu_keys_world initial_state)) =
     [str_to_fourcc ''Tp01'', str_to_fourcc ''Tp02'', str_to_fourcc ''Tp03''] \<and>
   smc_init_cache dead_world (smc_init_cache three_cpu_keys_world initial_state) =
     smc_init_cache three_cpu_keys_world initial_state \<and>
   smc_init_cache dead_world initial_state = initial_state\<lparr>smc_opens := 1\<rparr> \<and>
   cache_inv initial_state \<and>
   cache_inv (smc_init_cache three_cpu_keys_world initial_state)"
proof -
  have i: "smc_cache_initialized (smc_init_cache three_cpu_keys_world initial_state)"
    by (simp add: smc_fun_defs example_world_defs Let_def)
  have k: "map key_fourcc (cached_cpu_keys (smc_init_cache three_cpu_keys_world initial_state)) =
     [str_to_fourcc ''Tp01'', str_to_fourcc ''Tp02'', str_to_fourcc ''Tp03'']"
    by (simp add: smc_fun_defs example_world_defs Let_def)
  from C8_init_cache_amended i
  have "smc_init_cache dead_world (smc_init_cache three_cpu_keys_world initial_state) =
     smc_init_cache three_cpu_keys_world initial_state"
    by blast
  moreover from C8_init_cache_amended have c0: "cache_inv initial_state" by blast
  moreover from C8_init_cache_amended c0
  have "cache_inv (smc_init_cache three_cpu_keys_world initial_state)" by blast
  moreover have h: "\<not> smc_cache_initialized initial_state \<and> \<not> smc_conn initial_state \<and>
      \<not> smc_endpoint_opens dead_world"
    by (simp add: initial_state_def dead_world_def)
  from C8_init_cache_amended h
  have "smc_init_cache dead_world initial_state =
      initial_state\<lparr>smc_opens := smc_opens initial_state + 1\<rparr>"
    by blast
  then have "smc_init_cache dead_world initial_state = initial_state\<lparr>smc_opens := 1\<rparr>"
    by (simp add: initial_state_def)
  ultimately show ?thesis using i k by blast
qed

text \<open>
  Claim C8 as it is worded, for every sequence of calls, fails when the first call
  cannot open the connection and the second can: one call in the world where
  nothing answers leaves the processor cache empty and sends no request; a second
  call, on a machine with three processor keys, probes all 44 candidate keys and
  caches three of them.
\<close>

theorem C8_two_worlds_counterexample:
  "cached_cpu_keys (smc_init_cache dead_world initial_state) = [] \<and>
   smc_calls (smc_init_cache dead_world initial_state) = [] \<and>
   \<not> smc_cache_initialized (smc_init_cache dead_world initial_state) \<and>
   map key_fourcc
     (cached_cpu_keys (smc_init_cache three_cpu_keys_world (smc_init_cache dead_world initial_state))) =
     [str_to_fourcc ''Tp01'', str_to_fourcc ''Tp02'', str_to_fourcc ''Tp03''] \<and>
   length (smc_calls (smc_init_cache three_cpu_keys_world (smc_init_cache dead_world initial_state))) =
     44"
proof -
  have 1: "smc_init_cache dead_world initial_state = initial_state\<lparr>smc_opens := Suc 0\<rparr>"
    by (simp add: smc_fun_defs example_world_defs Let_def)
  have 2: "map key_fourcc
     (cached_cpu_keys (smc_init_cache three_cpu_keys_world (initial_state\<lparr>smc_opens := Suc 0\<rparr>))) =
     [str_to_fourcc ''Tp01'', str_to_fourcc ''Tp02'', str_to_fourcc ''Tp03'']"
    by (simp add: smc_fun_defs example_world_defs Let_def)
  have 3: "length (smc_calls (smc_init_cache three_cpu_keys_world
      (initial_state\<lparr>smc_opens := Suc 0\<rparr>))) = 44"
    by (simp add: smc_fun_defs example_world_defs Let_def)
  show ?thesis by (simp only: 1 2 3) (simp add: initial_state_def)
qed

section \<open>What the SMC functions leave alone\<close>

lemma smc_fields_only_frame:
  assumes "smc_fields_only s s'"
  shows "hid_queries s' = hid_queries s" "ior_dlopens s' = ior_dlopens s"
    "cached_cpu_temp s' = cached_cpu_temp s" "cached_gpu_temp s' = cached_gpu_temp s"
    "cached_cpu_power s' = cached_cpu_power s" "cached_gpu_power s' = cached_gpu_power s"
    "cached_gpu_freq s' = cached_gpu_freq s" "cached_gpu_load s' = cached_gpu_load s"
    "use_native_temps s' = use_native_temps s" "gpu_freqs s' = gpu_freqs s"
    "ior_initialized s' = ior_initialized s" "ior_lib_loaded s' = ior_lib_loaded s"
    "ior_handle s' = ior_handle s" "ior_syms s' = ior_syms s"
    "ior_prev_sample s' = ior_prev_sample s" "ior_prev_time_ms s' = ior_prev_time_ms s"
    "ior_subscription s' = ior_subscription s" "ior_channels s' = ior_channels s"
    "pcstats_initialized s' = pcstats_initialized s"
proof -
  from assms obtain a b c d e f g where e:
    "s' = s\<lparr>smc_conn := a, cached_cpu_keys := b, cached_gpu_keys := c, cached_board_keys := d,
             smc_cache_initialized := e, smc_opens := f, smc_calls := g\<rparr>"
    unfolding smc_fields_only_def by blast
  show "hid_queries s' = hid_queries s" "ior_dlopens s' = ior_dlopens s"
    "cached_cpu_temp s' = cached_cpu_temp s" "cached_gpu_temp s' = cached_gpu_temp s"
    "cached_cpu_power s' = cached_cpu_power s" "cached_gpu_power s' = cached_gpu_power s"
    "cached_gpu_freq s' = cached_gpu_freq s" "cached_gpu_load s' = cached_gpu_load s"
    "use_native_temps s' = use_native_temps s" "gpu_freqs s' = gpu_freqs s"
    "ior_initialized s' = ior_initialized s" "ior_lib_loaded s' = ior_lib_loaded s"
    "ior_handle s' = ior_handle s" "ior_syms s' = ior_syms s"
    "ior_prev_sample s' = ior_prev_sample s" "ior_prev_time_ms s' = ior_prev_time_ms s"
    "ior_subscription s' = ior_subscription s" "ior_channels s' = ior_channels s"
    "pcstats_initialized s' = pcstats_initialized s"
    by (simp_all add: e)
qed

lemma after_cache_init_fields_only: "smc_fields_only s (after_cache_init w s)"
  by (simp add: after_cache_init_def smc_init_cache_fields_only smc_fields_only_refl)

lemma read_temps_fields_only:
  "smc_fields_only s (snd (snd (read_temps w lo hi ks tsum tcount s)))"
  by (rule smc_calls_only_fields_only) (rule read_temps_calls_only)

lemma smc_get_temperatures_fields_only:
  "smc_fields_only s (snd (snd (smc_get_temperatures w s)))"
proof -
  let ?s1 = "after_cache_init w s"
  obtain csum ccount s2 where c: "read_temps w 10 130 (cached_cpu_keys ?s1) (FVal 0) 0 ?s1 = (csum, ccount, s2)"
    by (cases "read_temps w 10 130 (cached_cpu_keys ?s1) (FVal 0) 0 ?s1")
  obtain gsum gcount s3 where g: "read_temps w 10 130 (cached_gpu_keys s2) (FVal 0) 0 s2 = (gsum, gcount, s3)"
    by (cases "read_temps w 10 130 (cached_gpu_keys s2) (FVal 0) 0 s2")
  have 1: "smc_fields_only s ?s1" by (rule after_cache_init_fields_only)
  have 2: "smc_fields_only ?s1 s2"
    using read_temps_fields_only[of ?s1 w 10 130 "cached_cpu_keys ?s1" "FVal 0" 0] c by simp
  have 3: "smc_fields_only s2 s3"
    using read_temps_fields_only[of s2 w 10 130 "cached_gpu_keys s2" "FVal 0" 0] g by simp
  have "snd (snd (smc_get_temperatures w s)) = (if \<not> smc_conn ?s1 then ?s1 else s3)"
    using c g by (simp add: smc_get_temperatures_def after_cache_init_def Let_def)
  then show ?thesis
    using 1 smc_fields_only_trans[OF 1 smc_fields_only_trans[OF 2 3]] by simp
qed

lemma smc_get_board_temperature_fields_only:
  "smc_fields_only s (snd (smc_get_board_temperature w s))"
proof -
  let ?s1 = "after_cache_init w s"
  obtain bsum bcount s2 where b: "read_temps w 10 100 (cached_board_keys ?s1) (FVal 0) 0 ?s1 = (bsum, bcount, s2)"
    by (cases "read_temps w 10 100 (cached_board_keys ?s1) (FVal 0) 0 ?s1")
  have 1: "smc_fields_only s ?s1" by (rule after_cache_init_fields_only)
  have 2: "smc_fields_only ?s1 s2"
    using read_temps_fields_only[of ?s1 w 10 100 "cached_board_keys ?s1" "FVal 0" 0] b by simp
  have "snd (smc_get_board_temperature w s) =
      (if \<not> smc_conn ?s1 \<or> cached_board_keys ?s1 = [] then ?s1 else s2)"
    using b by (simp add: smc_get_board_temperature_def after_cache_init_def Let_def)
  then show ?thesis
    using 1 smc_fields_only_trans[OF 1 2] by auto
qed

lemma hid_get_temperatures_queries:
  "hid_queries (snd (snd (hid_get_temperatures w s))) = hid_queries s + 1"
  by (simp add: hid_get_temperatures_def Let_def split: option.splits prod.splits)

lemma smc_read_key_calls_only: "smc_calls_only s (snd (smc_read_key w s k))"
proof -
  obtain r s1 where i: "smc_read_key_info w s k = (r, s1)"
    by (cases "smc_read_key_info w s k")
  have 1: "smc_calls_only s s1"
    using smc_read_key_info_calls_only[of s w k] i by simp
  show ?thesis
  proof (cases r)
    case None
    then show ?thesis using i 1 by (simp add: smc_read_key_def)
  next
    case (Some info)
    let ?input = "SMCKeyData_zero\<lparr>key := str_to_fourcc k, data8 := 5, key_info := info\<rparr>"
    obtain o2 s2 where r2: "smc_read w s1 ?input = (o2, s2)"
      by (cases "smc_read w s1 ?input")
    have 2: "smc_calls_only s1 s2"
      using smc_read_calls_only[of s1 w ?input] r2 by simp
    have "snd (smc_read_key w s k) = (if 32 < data_size info then s1 else s2)"
      using i Some r2 by (simp add: smc_read_key_def Let_def split: option.splits)
    then show ?thesis
      using 1 smc_calls_only_trans[OF 1 2] by simp
  qed
qed

lemma fan_loop_calls_only: "smc_calls_only s (snd (fan_loop w i fans s))"
proof (induction w i fans s rule: fan_loop.induct)
  case (1 w i fans s)
  show ?case
  proof (cases "i < MAX_FANS")
    case False
    then show ?thesis by (simp add: fan_loop.simps[of w i fans s] smc_calls_only_refl)
  next
    case True
    obtain rpm s1 where a: "smc_read_key w s (fan_key i ''Ac'') = (rpm, s1)"
      by (cases "smc_read_key w s (fan_key i ''Ac'')")
    have 1: "smc_calls_only s s1"
      using smc_read_key_calls_only[of s w "fan_key i ''Ac''"] a by simp
    show ?thesis
    proof (cases "cf_gt rpm 0")
      case False
      then show ?thesis using True a 1 by (simp add: fan_loop.simps[of w i fans s])
    next
      case gt: True
      obtain mn s2 where b: "smc_read_key w s1 (fan_key i ''Mn'') = (mn, s2)"
        by (cases "smc_read_key w s1 (fan_key i ''Mn'')")
      obtain mx s3 where c: "smc_read_key w s2 (fan_key i ''Mx'') = (mx, s3)"
        by (cases "smc_read_key w s2 (fan_key i ''Mx'')")
      have 2: "smc_calls_only s1 s2"
        using smc_read_key_calls_only[of s1 w "fan_key i ''Mn''"] b by simp
      have 3: "smc_calls_only s2 s3"
        using smc_read_key_calls_only[of s2 w "fan_key i ''Mx''"] c by simp
      let ?fans = "fans\<lparr>fan_rpm := (fan_rpm fans)[i := rpm],
                        fan_min_rpm := (fan_min_rpm fans)[i := mn],
                        fan_max_rpm := (fan_max_rpm fans)[i := mx],
                        fan_count := int i + 1\<rparr>"
      have ih: "smc_calls_only s3 (snd (fan_loop w (i + 1) ?fans s3))"
        using "1.IH"[OF True a[symmetric] gt b[symmetric] c[symmetric]] .
      have "snd (fan_loop w i fans s) = snd (fan_loop w (i + 1) ?fans s3)"
        using True a gt b c by (simp add: fan_loop.simps[of w i fans s])
      then show ?thesis
        using smc_calls_only_trans[OF 1 smc_calls_only_trans[OF 2 smc_calls_only_trans[OF 3 ih]]]
        by simp
    qed
  qed
qed

lemma get_fan_info_fields_only: "smc_fields_only s (snd (get_fan_info w s))"
proof -
  obtain r s1 where o: "smc_open w s = (r, s1)" by (cases "smc_open w s")
  have 1: "smc_fields_only s s1" using smc_open_fields_only[of s w] o by simp
  let ?fans = "\<lparr>fan_count = 0, fan_rpm = replicate MAX_FANS (FVal 0),
                  fan_min_rpm = replicate MAX_FANS (FVal 0),
                  fan_max_rpm = replicate MAX_FANS (FVal 0)\<rparr>"
  have 2: "smc_fields_only s1 (snd (fan_loop w 0 ?fans s1))"
    by (rule smc_calls_only_fields_only) (rule fan_loop_calls_only)
  have "snd (get_fan_info w s) = (if r \<noteq> 0 then s1 else snd (fan_loop w 0 ?fans s1))"
    using o by (simp add: get_fan_info_def Let_def)
  then show ?thesis using 1 smc_fields_only_trans[OF 1 2] by simp
qed

section \<open>The fallback to the HID sensors\<close>

lemma smc_temperatures_finite:
  "\<exists>x y. fst (smc_get_temperatures w s) = FVal x \<and> fst (snd (smc_get_temperatures w s)) = FVal y"
proof -
  have "\<exists>x. window_mean 10 130 ts = FVal x" for ts
    by (rule window_mean_finite) simp_all
  then show ?thesis
    by (simp add: smc_get_temperatures_means)
qed

text \<open>
  Claim C7. In every temperature-reading cycle \<^verbatim>\<open>get_apple_silicon_temps\<close> consults the
  HID source exactly when the SMC source has yielded 0.0 for the CPU and 0.0 for
  the GPU in that cycle: the two SMC results are always finite numbers, the count
  of HID queries grows by one in that case and not at all otherwise; when either SMC
  result is not zero, the function returns what \<^verbatim>\<open>smc_get_temperatures\<close> returned,
  both temperatures and the state, unchanged.
\<close>

theorem C7_hid_fallback:
  "(\<exists>x y. fst (smc_get_temperatures w s) = FVal x \<and>
          fst (snd (smc_get_temperatures w s)) = FVal y) \<and>
   hid_queries (snd (snd (get_apple_silicon_temps w s))) =
     hid_queries s +
       (if fst (smc_get_temperatures w s) = FVal 0 \<and>
           fst (snd (smc_get_temperatures w s)) = FVal 0 then 1 else 0) \<and>
   (if fst (smc_get_temperatures w s) = FVal 0 \<and> fst (snd (smc_get_temperatures w s)) = FVal 0
    then get_apple_silicon_temps w s =
           hid_get_temperatures w (snd (snd (smc_get_temperatures w s)))
    else get_apple_silicon_temps w s = smc_get_temperatures w s)"
proof -
  obtain c g s1 where r: "smc_get_temperatures w s = (c, g, s1)"
    by (cases "smc_get_temperatures w s") auto
  from smc_temperatures_finite[of w s] r obtain x y where v: "c = FVal x" "g = FVal y"
    by auto
  have q: "hid_queries s1 = hid_queries s"
    using smc_get_temperatures_fields_only[of s w] r by (simp add: smc_fields_only_frame)
  show ?thesis
    using q hid_get_temperatures_queries[of w s1]
    by (simp add: get_apple_silicon_temps_def r v)
qed

lemmas hid_example_defs =
  hid_world_def dead_world_def initial_state_def hid_get_temperatures_def
  get_apple_silicon_temps_def

text \<open>
  Both cases run: without an SMC endpoint both SMC results are 0.0, the HID source
  is queried once and gives 55.0 and 60.0; with three processor keys the SMC gives
  45.0 and the HID source is not queried.
\<close>

theorem C7_hid_fallback_witness:
  "fst (smc_get_temperatures hid_world initial_state) = FVal 0 \<and>
   fst (snd (smc_get_temperatures hid_world initial_state)) = FVal 0 \<and>
   hid_queries (snd (snd (get_apple_silicon_temps hid_world initial_state))) = 1 \<and>
   fst (get_apple_silicon_temps hid_world initial_state) = FVal 55 \<and>
   fst (snd (get_apple_silicon_temps hid_world initial_state)) = FVal 60 \<and>
   fst (smc_get_temperatures three_cpu_keys_world initial_state) = FVal 45 \<and>
   hid_queries (snd (snd (get_apple_silicon_temps three_cpu_keys_world initial_state))) = 0 \<and>
   fst (get_apple_silicon_temps three_cpu_keys_world initial_state) = FVal 45"
proof -
  have z: "smc_get_temperatures hid_world initial_state =
      (FVal 0, FVal 0, initial_state\<lparr>smc_opens := Suc 0\<rparr>)"
    by (simp add: smc_fun_defs hid_world_def dead_world_def initial_state_def Let_def)
  have h: "hid_get_temperatures hid_world (initial_state\<lparr>smc_opens := Suc 0\<rparr>) =
      (FVal 55, FVal 60, initial_state\<lparr>smc_opens := Suc 0, hid_queries := Suc 0\<rparr>)"
    by (simp add: hid_example_defs Let_def)
  have a: "fst (smc_get_temperatures three_cpu_keys_world initial_state) = FVal 45"
    by (simp add: smc_fun_defs example_world_defs Let_def)
  have q0: "hid_queries initial_state = 0" by (simp add: initial_state_def)
  from C7_hid_fallback[of hid_world initial_state]
  have 1: "hid_queries (snd (snd (get_apple_silicon_temps hid_world initial_state))) = Suc 0"
    and 2: "get_apple_silicon_temps hid_world initial_state =
      hid_get_temperatures hid_world (initial_state\<lparr>smc_opens := Suc 0\<rparr>)"
    by (auto simp: z q0)
  from C7_hid_fallback[of three_cpu_keys_world initial_state]
  have 3: "hid_queries (snd (snd (get_apple_silicon_temps three_cpu_keys_world initial_state))) = 0"
    and 4: "get_apple_silicon_temps three_cpu_keys_world initial_state =
      smc_get_temperatures three_cpu_keys_world initial_state"
    by (auto simp: a q0)
  have 5: "fst (get_apple_silicon_temps three_cpu_keys_world initial_state) = FVal 45"
    by (simp only: 4 a)
  have 6: "fst (get_apple_silicon_temps hid_world initial_state) = FVal 55"
    "fst (snd (get_apple_silicon_temps hid_world initial_state)) = FVal 60"
    by (simp_all only: 2 h fst_conv snd_conv)
  show ?thesis by (simp add: z 1 3 5 6 a)
qed

section \<open>Sources that cannot be opened\<close>

lemma smc_get_temperatures_no_conn:
  "\<not> smc_conn (after_cache_init w s) \<Longrightarrow>
     smc_get_temperatures w s = (FVal 0, FVal 0, after_cache_init w s)"
  by (simp add: smc_get_temperatures_def after_cache_init_def Let_def)

lemma smc_get_board_temperature_no_conn:
  "\<not> smc_conn (after_cache_init w s) \<Longrightarrow>
     smc_get_board_temperature w s = (FVal 0, after_cache_init w s)"
  by (simp add: smc_get_board_temperature_def after_cache_init_def Let_def)

lemma smc_unavailable_cycle:
  assumes "\<not> smc_conn s" and "\<not> smc_cache_initialized s" and "\<not> smc_endpoint_opens w"
  shows "smc_init_cache w s = s\<lparr>smc_opens := smc_opens s + 1\<rparr>"
    and "smc_get_temperatures w s = (FVal 0, FVal 0, s\<lparr>smc_opens := smc_opens s + 1\<rparr>)"
    and "smc_get_board_temperature w s = (FVal 0, s\<lparr>smc_opens := smc_opens s + 1\<rparr>)"
    and "get_fan_info w s =
           (\<lparr>fan_count = 0, fan_rpm = replicate MAX_FANS (FVal 0),
             fan_min_rpm = replicate MAX_FANS (FVal 0),
             fan_max_rpm = replicate MAX_FANS (FVal 0)\<rparr>, s\<lparr>smc_opens := smc_opens s + 1\<rparr>)"
proof -
  show i: "smc_init_cache w s = s\<lparr>smc_opens := smc_opens s + 1\<rparr>"
    using assms by (simp add: smc_init_cache_fails)
  have a: "after_cache_init w s = s\<lparr>smc_opens := smc_opens s + 1\<rparr>"
    using assms by (simp add: after_cache_init_def i)
  have n: "\<not> smc_conn (after_cache_init w s)" using assms by (simp add: a)
  show "smc_get_temperatures w s = (FVal 0, FVal 0, s\<lparr>smc_opens := smc_opens s + 1\<rparr>)"
    using smc_get_temperatures_no_conn[OF n] by (simp only: a)
  show "smc_get_board_temperature w s = (FVal 0, s\<lparr>smc_opens := smc_opens s + 1\<rparr>)"
    using smc_get_board_temperature_no_conn[OF n] by (simp only: a)
  show "get_fan_info w s =
           (\<lparr>fan_count = 0, fan_rpm = replicate MAX_FANS (FVal 0),
             fan_min_rpm = replicate MAX_FANS (FVal 0),
             fan_max_rpm = replicate MAX_FANS (FVal 0)\<rparr>, s\<lparr>smc_opens := smc_opens s + 1\<rparr>)"
    using assms by (simp add: get_fan_info_def smc_open_def Let_def)
qed

lemma ior_dlopen_failed_permanent:
  "ior_lib_loaded s \<Longrightarrow> \<not> ior_handle s \<Longrightarrow> \<not> ior_initialized s \<Longrightarrow> ior_sample w s = Some s"
  by (simp add: ior_sample_def ior_init_def ior_load_framework_def)

lemma ior_dlopen_fails:
  "\<not> ior_lib_loaded s \<Longrightarrow> \<not> ior_initialized s \<Longrightarrow> \<not> dlopen_ok w \<Longrightarrow>
     ior_sample w s =
       Some (s\<lparr>ior_lib_loaded := True, ior_dlopens := ior_dlopens s + 1, ior_handle := False\<rparr>)"
  by (simp add: ior_sample_def ior_init_def ior_load_framework_def Let_def)

text \<open>
  Claim C6, as the code has it. When \<^verbatim>\<open>smc_open\<close> fails while the cache is not
  initialised, \<^verbatim>\<open>smc_init_cache\<close> changes nothing but the count of open attempts:
  the caches stay as they are, the flag stays unset, and in that cycle the SMC
  temperatures, the board temperature and the fan count are 0. Nothing records the
  failure, so the next initialisation attempts the open again. For libIOReport the
  failure of \<^verbatim>\<open>dlopen\<close> is recorded: the first \<^verbatim>\<open>ior_sample\<close> marks the library as
  loaded without a handle, and from then on \<^verbatim>\<open>ior_sample\<close> returns at once in every
  world, with no further \<^verbatim>\<open>dlopen\<close> and with the cached power and frequency values
  untouched.
\<close>

theorem C6_unavailable_amended:
  "(\<not> smc_conn s \<and> \<not> smc_cache_initialized s \<and> \<not> smc_endpoint_opens w \<longrightarrow>
      smc_init_cache w s = s\<lparr>smc_opens := smc_opens s + 1\<rparr> \<and>
      smc_get_temperatures w s = (FVal 0, FVal 0, s\<lparr>smc_opens := smc_opens s + 1\<rparr>) \<and>
      smc_get_board_temperature w s = (FVal 0, s\<lparr>smc_opens := smc_opens s + 1\<rparr>) \<and>
      get_fan_info w s =
        (\<lparr>fan_count = 0, fan_rpm = replicate MAX_FANS (FVal 0),
          fan_min_rpm = replicate MAX_FANS (FVal 0),
          fan_max_rpm = replicate MAX_FANS (FVal 0)\<rparr>, s\<lparr>smc_opens := smc_opens s + 1\<rparr>)) \<and>
   (\<not> ior_lib_loaded s \<and> \<not> ior_initialized s \<and> \<not> dlopen_ok w \<longrightarrow>
      ior_sample w s =
        Some (s\<lparr>ior_lib_loaded := True, ior_dlopens := ior_dlopens s + 1, ior_handle := False\<rparr>)) \<and>
   (ior_lib_loaded s \<and> \<not> ior_handle s \<and> \<not> ior_initialized s \<longrightarrow> ior_sample w s = Some s)"
  using smc_unavailable_cycle[of s w] ior_dlopen_fails[of s w] ior_dlopen_failed_permanent[of s w]
  by blast

text \<open>
  At program start in a world where nothing answers: the SMC cycle gives zeros and
  one open attempt; the first IOReport sample records the failed \<^verbatim>\<open>dlopen\<close>, and a
  later sample changes nothing even in a world where libIOReport would load.
\<close>

theorem C6_unavailable_witness:
  "\<not> smc_conn initial_state \<and> \<not> smc_cache_initialized initial_state \<and>
   \<not> smc_endpoint_opens dead_world \<and>
   smc_init_cache dead_world initial_state = initial_state\<lparr>smc_opens := 1\<rparr> \<and>
   smc_get_temperatures dead_world initial_state =
     (FVal 0, FVal 0, initial_state\<lparr>smc_opens := 1\<rparr>) \<and>
   fst (smc_get_board_temperature dead_world initial_state) = FVal 0 \<and>
   fan_count (fst (get_fan_info dead_world initial_state)) = 0 \<and>
   \<not> ior_lib_loaded initial_state \<and> \<not> ior_initialized initial_state \<and> \<not> dlopen_ok dead_world \<and>
   ior_sample dead_world initial_state =
     Some (initial_state\<lparr>ior_lib_loaded := True, ior_dlopens := 1, ior_handle := False\<rparr>) \<and>
   dlopen_ok ioreport_world \<and>
   ior_sample ioreport_world
       (initial_state\<lparr>ior_lib_loaded := True, ior_dlopens := 1, ior_handle := False\<rparr>) =
     Some (initial_state\<lparr>ior_lib_loaded := True, ior_dlopens := 1, ior_handle := False\<rparr>)"
proof -
  let ?f = "initial_state\<lparr>ior_lib_loaded := True, ior_dlopens := 1, ior_handle := False\<rparr>"
  have h1: "\<not> smc_conn initial_state \<and> \<not> smc_cache_initialized initial_state \<and>
      \<not> smc_endpoint_opens dead_world"
    by (simp add: initial_state_def dead_world_def)
  have h2: "\<not> ior_lib_loaded initial_state \<and> \<not> ior_initialized initial_state \<and>
      \<not> dlopen_ok dead_world"
    by (simp add: initial_state_def dead_world_def)
  have h3: "ior_lib_loaded ?f \<and> \<not> ior_handle ?f \<and> \<not> ior_initialized ?f"
    by (simp add: initial_state_def)
  have h4: "dlopen_ok ioreport_world" by (simp add: ioreport_world_def dead_world_def)
  have o: "smc_opens initial_state = 0" "ior_dlopens initial_state = 0"
    by (simp_all add: initial_state_def)
  from C6_unavailable_amended[of initial_state dead_world] h1 h2
  have a: "smc_init_cache dead_world initial_state = initial_state\<lparr>smc_opens := 1\<rparr>"
    "smc_get_temperatures dead_world initial_state =
       (FVal 0, FVal 0, initial_state\<lparr>smc_opens := 1\<rparr>)"
    "fst (smc_get_board_temperature dead_world initial_state) = FVal 0"
    "fan_count (fst (get_fan_info dead_world initial_state)) = 0"
    "ior_sample dead_world initial_state = Some ?f"
    by (simp_all add: o)
  from C6_unavailable_amended[of ?f ioreport_world] h3
  have b: "ior_sample ioreport_world ?f = Some ?f" by blast
  show ?thesis using h1 h2 h4 a b by simp
qed

text \<open>
  Claim C6 as it is worded fails: the first cycle runs while the SMC endpoint
  cannot be opened and reports zeros with empty caches; the second cycle runs when
  the endpoint can be opened, the open is attempted a second time, three keys are
  cached and the CPU temperature is 45.0.
\<close>

theorem C6_retry_counterexample:
  "smc_get_temperatures dead_world initial_state =
     (FVal 0, FVal 0, initial_state\<lparr>smc_opens := 1\<rparr>) \<and>
   cached_cpu_keys (initial_state\<lparr>smc_opens := 1\<rparr>) = [] \<and>
   fst (smc_get_temperatures three_cpu_keys_world (initial_state\<lparr>smc_opens := 1\<rparr>)) = FVal 45 \<and>
   smc_opens (snd (snd (smc_get_temperatures three_cpu_keys_world
      (initial_state\<lparr>smc_opens := 1\<rparr>)))) = 2 \<and>
   length (cached_cpu_keys (snd (snd (smc_get_temperatures three_cpu_keys_world
      (initial_state\<lparr>smc_opens := 1\<rparr>))))) = 3"
  by (simp add: smc_fun_defs example_world_defs Let_def)

section \<open>Keys whose metadata reports more than 32 bytes\<close>

text \<open>The uncached read rejects such a key after the metadata query.\<close>

lemma smc_read_key_rejects_oversize:
  "smc_read_key_info w s k = (Some info, s1) \<Longrightarrow> 32 < data_size info \<Longrightarrow>
     smc_read_key w s k = (FVal 0, s1)"
  by (simp add: smc_read_key_def)

lemmas oversize_defs =
  oversize_world_def smc_world_def dead_world_def smc_answer_def
  initial_state_def SMCKeyData_zero_def str_to_fourcc_def MAX_CACHED_KEYS_def
  cpu_keys_def gpu_keys_def board_keys_def


text \<open>
  Claim C5 fails on the cached path. On a machine whose key Tp01 reports a byte
  length of 64, \<^verbatim>\<open>smc_init_cache\<close> admits the key with that length into the CPU
  cache, \<^verbatim>\<open>smc_read_temp_cached\<close> fetches and decodes its value as 45.0, and
  \<^verbatim>\<open>smc_get_temperatures\<close> reports 45.0; the uncached \<^verbatim>\<open>smc_read_key\<close> rejects the same
  key and returns 0.0.
\<close>

theorem C5_oversize_key_cached:
  "map cached_key_info (cached_cpu_keys (smc_init_cache oversize_world initial_state)) =
     [\<lparr>data_size = 64, data_type = str_to_fourcc ''flt '', data_attributes = 0\<rparr>] \<and>
   map key_fourcc (cached_cpu_keys (smc_init_cache oversize_world initial_state)) =
     [str_to_fourcc ''Tp01''] \<and>
   fst (smc_read_temp_cached oversize_world (smc_init_cache oversize_world initial_state)
          (str_to_fourcc ''Tp01'')
          \<lparr>data_size = 64, data_type = str_to_fourcc ''flt '', data_attributes = 0\<rparr>) = FVal 45 \<and>
   fst (smc_get_temperatures oversize_world initial_state) = FVal 45 \<and>
   fst (smc_read_key oversize_world (smc_init_cache oversize_world initial_state) ''Tp01'') = FVal 0"
proof -
  have f: "float_of_bits32 (le_word32 (0 # 0 # 52 # 66 # replicate 28 0)) = FVal 45"
    by (simp add: float_of_bits32_def le_word32_def)
  show ?thesis
    by (simp add: smc_fun_defs oversize_defs Let_def f)
qed

section \<open>The sampling cycle with temperature reporting disabled\<close>

text \<open>
  With \<open>use_native_temps = 0\<close> the cycle consists of \<^verbatim>\<open>get_fan_info\<close>,
  \<^verbatim>\<open>smc_get_board_temperature\<close> and the simple collectors; the status it assembles
  is this one.
\<close>

lemma collect_stats_disabled:
  assumes "use_native_temps s = 0"
  shows "collect_stats w s =
     Some
       (\<lparr>board = \<lparr>board_temp = fst (smc_get_board_temperature w (snd (get_fan_info w s))),
                   board_rpm = (if 0 < fan_count (fst (get_fan_info w s))
                                then fan_rpm (fst (get_fan_info w s)) ! 0 else FVal 0),
                   board_tick = sys_uptime_seconds w\<rparr>,
         cpu = \<lparr>cpu_temp = cached_cpu_temp s, cpu_tempMax = FVal 100, cpu_load = sys_cpu_usage w,
                 cpu_consume = cached_cpu_power s, cpu_tjMax = 100,
                 cpu_core1DistanceToTjMax = cf_sub (FVal 100) (cached_cpu_temp s),
                 cpu_core1Temp = cached_cpu_temp s\<rparr>,
         gpu = \<lparr>gpu_temp = cached_gpu_temp s, gpu_tempMax = FVal 100,
                 gpu_load = cached_gpu_load s, gpu_consume = cached_gpu_power s,
                 gpu_rpm = (if 1 < fan_count (fst (get_fan_info w s))
                            then fan_rpm (fst (get_fan_info w s)) ! 1 else FVal 0),
                 gpu_memUsed = FVal 0, gpu_memTotal = FVal 0,
                 gpu_freq = cached_gpu_freq s\<rparr>,
         storage = get_disk_usage w,
         memory = sys_memory_usage w,
         network = sys_network_throughput w,
         cmd = 1230,
         time_stamp = clock_now w + clock_gmtoff w - 3600\<rparr>,
        snd (smc_get_board_temperature w (snd (get_fan_info w s))))"
proof -
  obtain fans s2 where f: "get_fan_info w s = (fans, s2)" by (cases "get_fan_info w s")
  obtain btemp s3 where b: "smc_get_board_temperature w s2 = (btemp, s3)"
    by (cases "smc_get_board_temperature w s2")
  have 1: "smc_fields_only s s2" using get_fan_info_fields_only[of s w] f by simp
  have 2: "smc_fields_only s2 s3" using smc_get_board_temperature_fields_only[of s2 w] b by simp
  note fr = smc_fields_only_frame[OF smc_fields_only_trans[OF 1 2]]
  show ?thesis
    using assms f b
    by (simp add: collect_stats_def Let_def fr get_cpu_temperature_def get_gpu_temperature_def
        get_cpu_power_def get_gpu_power_def get_gpu_freq_def get_gpu_load_def)
qed

lemma collect_stats_disabled_state:
  "smc_fields_only s (snd (smc_get_board_temperature w (snd (get_fan_info w s))))"
  using smc_fields_only_trans[OF get_fan_info_fields_only[of s w]
      smc_get_board_temperature_fields_only[of "snd (get_fan_info w s)" w]] .

text \<open>
  Claim C4, as the code has it. A sampling cycle with temperature reporting
  disabled always returns; it runs neither \<^verbatim>\<open>update_temperatures_native\<close> nor
  \<^verbatim>\<open>ior_sample\<close>, so the cached temperatures, powers, frequency and load are left as
  they were (no HID query, no \<^verbatim>\<open>dlopen\<close>, the previous IOReport sample untouched, the
  flag still 0), and \<open>cpu.temp\<close>, \<open>cpu.core1Temp\<close>, \<open>gpu.temp\<close>, \<open>cpu.consume\<close>,
  \<open>gpu.consume\<close>, \<open>gpu.freq\<close> and \<open>gpu.load\<close> report those cached values, which are
  zero as long as reporting was never enabled. \<open>storage.temp\<close> is 0 in every
  cycle. \<open>cpu.tempMax\<close> and \<open>gpu.tempMax\<close> are the constant 100.0, \<open>cpu.tjMax\<close> is
  100, \<open>cpu.core1DistanceToTjMax\<close> is 100 minus \<open>cpu.temp\<close> (a \<^verbatim>\<open>float\<close>
  subtraction), and \<open>board.temp\<close> is what \<^verbatim>\<open>smc_get_board_temperature\<close> samples in
  this cycle, whatever the flag.
\<close>

theorem C4_disabled_amended:
  assumes "use_native_temps s = 0"
  shows "collect_stats w s \<noteq> None \<and>
     cpu_temp (cpu (fst (the (collect_stats w s)))) = cached_cpu_temp s \<and>
     cpu_core1Temp (cpu (fst (the (collect_stats w s)))) = cached_cpu_temp s \<and>
     gpu_temp (gpu (fst (the (collect_stats w s)))) = cached_gpu_temp s \<and>
     cpu_consume (cpu (fst (the (collect_stats w s)))) = cached_cpu_power s \<and>
     gpu_consume (gpu (fst (the (collect_stats w s)))) = cached_gpu_power s \<and>
     gpu_freq (gpu (fst (the (collect_stats w s)))) = cached_gpu_freq s \<and>
     gpu_load (gpu (fst (the (collect_stats w s)))) = cached_gpu_load s \<and>
     storage_temp (storage (fst (the (collect_stats w s)))) = FVal 0 \<and>
     cpu_tempMax (cpu (fst (the (collect_stats w s)))) = FVal 100 \<and>
     gpu_tempMax (gpu (fst (the (collect_stats w s)))) = FVal 100 \<and>
     cpu_tjMax (cpu (fst (the (collect_stats w s)))) = 100 \<and>
     cpu_core1DistanceToTjMax (cpu (fst (the (collect_stats w s)))) =
       cf_sub (FVal 100) (cached_cpu_temp s) \<and>
     board_temp (board (fst (the (collect_stats w s)))) =
       fst (smc_get_board_temperature w (snd (get_fan_info w s))) \<and>
     cached_cpu_temp (snd (the (collect_stats w s))) = cached_cpu_temp s \<and>
     cached_gpu_temp (snd (the (collect_stats w s))) = cached_gpu_temp s \<and>
     cached_cpu_power (snd (the (collect_stats w s))) = cached_cpu_power s \<and>
     cached_gpu_power (snd (the (collect_stats w s))) = cached_gpu_power s \<and>
     cached_gpu_freq (snd (the (collect_stats w s))) = cached_gpu_freq s \<and>
     cached_gpu_load (snd (the (collect_stats w s))) = cached_gpu_load s \<and>
     use_native_temps (snd (the (collect_stats w s))) = use_native_temps s \<and>
     hid_queries (snd (the (collect_stats w s))) = hid_queries s \<and>
     ior_dlopens (snd (the (collect_stats w s))) = ior_dlopens s \<and>
     ior_prev_sample (snd (the (collect_stats w s))) = ior_prev_sample s"
  by (simp add: collect_stats_disabled[OF assms] get_disk_usage_def Let_def
      smc_fields_only_frame[OF collect_stats_disabled_state])

text \<open>
  \<^verbatim>\<open>get_disk_usage\<close> on a root file system of 1000 blocks of 4096 bytes with 250
  free: 75 percent are used, and the three other members are 0.
\<close>

lemma get_disk_usage_board_world:
  "get_disk_usage board_world =
     \<lparr>storage_temp = FVal 0, storage_read = FVal 0, storage_write = FVal 0,
      storage_percent = FVal 75\<rparr>"
  by (simp add: get_disk_usage_def board_world_def Let_def to_float_3_4)

lemmas collect_example_defs =
  board_world_def smc_world_def dead_world_def smc_answer_def ui8_key_def
  initial_state_def SMCKeyData_zero_def str_to_fourcc_def MAX_CACHED_KEYS_def MAX_FANS_def
  cpu_keys_def gpu_keys_def board_keys_def fan_key_def

lemma get_fan_info_board_world:
  "get_fan_info board_world initial_state =
     (\<lparr>fan_count = 0, fan_rpm = replicate MAX_FANS (FVal 0),
       fan_min_rpm = replicate MAX_FANS (FVal 0),
       fan_max_rpm = replicate MAX_FANS (FVal 0)\<rparr>,
      initial_state\<lparr>smc_opens := 1, smc_conn := True,
        smc_calls := [(9, str_to_fourcc ''F0Ac'')]\<rparr>)"
  by (simp add: get_fan_info_def fan_loop.simps[of _ 0] smc_fun_defs collect_example_defs Let_def)

lemma board_temperature_board_world:
  "fst (smc_get_board_temperature board_world
      (initial_state\<lparr>smc_opens := 1, smc_conn := True,
        smc_calls := [(9, str_to_fourcc ''F0Ac'')]\<rparr>)) = FVal 40"
  by (simp add: smc_fun_defs collect_example_defs Let_def)

text \<open>
  At program start on a machine with the board key Tm0P at 40 degrees and a root
  file system that is 75 percent used: the cached values are zero and are reported
  as zero, the storage temperature is 0 beside a usage of 75, the maxima are 100,
  the distance to TjMax is 100 and the board temperature is 40.
\<close>

theorem C4_disabled_witness:
  "use_native_temps initial_state = 0 \<and>
   collect_stats board_world initial_state \<noteq> None \<and>
   cpu_temp (cpu (fst (the (collect_stats board_world initial_state)))) = FVal 0 \<and>
   cpu_core1Temp (cpu (fst (the (collect_stats board_world initial_state)))) = FVal 0 \<and>
   gpu_temp (gpu (fst (the (collect_stats board_world initial_state)))) = FVal 0 \<and>
   cpu_consume (cpu (fst (the (collect_stats board_world initial_state)))) = FVal 0 \<and>
   gpu_consume (gpu (fst (the (collect_stats board_world initial_state)))) = FVal 0 \<and>
   gpu_freq (gpu (fst (the (collect_stats board_world initial_state)))) = FVal 0 \<and>
   gpu_load (gpu (fst (the (collect_stats board_world initial_state)))) = FVal 0 \<and>
   storage_temp (storage (fst (the (collect_stats board_world initial_state)))) = FVal 0 \<and>
   storage_percent (storage (fst (the (collect_stats board_world initial_state)))) = FVal 75 \<and>
   cpu_tempMax (cpu (fst (the (collect_stats board_world initial_state)))) = FVal 100 \<and>
   cpu_core1DistanceToTjMax (cpu (fst (the (collect_stats board_world initial_state)))) = FVal 100 \<and>
   board_temp (board (fst (the (collect_stats board_world initial_state)))) = FVal 40"
proof -
  have u: "use_native_temps initial_state = 0" by (simp add: initial_state_def)
  have c: "cached_cpu_temp initial_state = FVal 0" "cached_gpu_temp initial_state = FVal 0"
    "cached_cpu_power initial_state = FVal 0" "cached_gpu_power initial_state = FVal 0"
    "cached_gpu_freq initial_state = FVal 0" "cached_gpu_load initial_state = FVal 0"
    by (simp_all add: initial_state_def)
  have b: "fst (smc_get_board_temperature board_world (snd (get_fan_info board_world initial_state))) =
      FVal 40"
    by (simp only: get_fan_info_board_world snd_conv board_temperature_board_world)
  have p: "storage_percent (storage (fst (the (collect_stats board_world initial_state)))) = FVal 75"
    by (simp add: collect_stats_disabled[OF u] get_disk_usage_board_world)
  from C4_disabled_amended[OF u, of board_world] show ?thesis
    by (simp add: u c b p cf_sub_def)
qed

text \<open>
  Claim C4 as it is worded fails: with reporting disabled, in a world where
  nothing answers, \<open>cpu.tempMax\<close>, \<open>cpu.tjMax\<close>, \<open>cpu.core1DistanceToTjMax\<close> and
  \<open>gpu.tempMax\<close> are 100, and on a machine with a board key \<open>board.temp\<close> is 40.
\<close>

theorem C4_nonzero_counterexample:
  "use_native_temps initial_state = 0 \<and>
   collect_stats dead_world initial_state \<noteq> None \<and>
   cpu_tempMax (cpu (fst (the (collect_stats dead_world initial_state)))) = FVal 100 \<and>
   cpu_tjMax (cpu (fst (the (collect_stats dead_world initial_state)))) = 100 \<and>
   cpu_core1DistanceToTjMax (cpu (fst (the (collect_stats dead_world initial_state)))) = FVal 100 \<and>
   gpu_tempMax (gpu (fst (the (collect_stats dead_world initial_state)))) = FVal 100 \<and>
   collect_stats board_world initial_state \<noteq> None \<and>
   board_temp (board (fst (the (collect_stats board_world initial_state)))) = FVal 40"
proof -
  have u: "use_native_temps initial_state = 0" by (simp add: initial_state_def)
  have c: "cached_cpu_temp initial_state = FVal 0" by (simp add: initial_state_def)
  have b: "fst (smc_get_board_temperature board_world (snd (get_fan_info board_world initial_state))) =
      FVal 40"
    by (simp only: get_fan_info_board_world snd_conv board_temperature_board_world)
  show ?thesis
    by (simp add: collect_stats_disabled[OF u] u c b cf_sub_def)
qed

section \<open>The time stamp\<close>

text \<open>
  Claim C9 fails on the code. Whenever \<^verbatim>\<open>collect_stats\<close> returns, the time stamp of
  the status is the epoch seconds plus the UTC offset of the host minus 3600: one
  hour less than the local wall-clock value the claim, and the comment in
  \<^verbatim>\<open>collect_stats\<close> ("we send local time as if it were UTC"), describe.
\<close>

theorem C9_time_stamp:
  "collect_stats w s = Some (st, s') \<Longrightarrow> time_stamp st = clock_now w + clock_gmtoff w - 3600"
  by (auto simp: collect_stats_def Let_def split: option.splits prod.splits if_splits)

text \<open>
  At 1700000000 seconds on a host two hours east of UTC the time stamp is
  1700003600; the local wall-clock value is 1700007200.
\<close>

theorem C9_time_stamp_witness:
  "collect_stats (dead_world\<lparr>clock_now := 1700000000, clock_gmtoff := 7200\<rparr>) initial_state \<noteq> None \<and>
   time_stamp (fst (the (collect_stats
      (dead_world\<lparr>clock_now := 1700000000, clock_gmtoff := 7200\<rparr>) initial_state))) = 1700003600"
proof -
  let ?w = "dead_world\<lparr>clock_now := 1700000000, clock_gmtoff := 7200\<rparr>"
  have u: "use_native_temps initial_state = 0" by (simp add: initial_state_def)
  from collect_stats_disabled[OF u, of ?w] obtain st s' where
    c: "collect_stats ?w initial_state = Some (st, s')" by blast
  from C9_time_stamp[OF c] have "time_stamp st = 1700003600"
    by (simp add: dead_world_def)
  then show ?thesis by (simp add: c)
qed

section \<open>The JSON text\<close>

lemma starts_with_append: "starts_with (needle @ post) needle"
  by (induction needle) simp_all

lemma strstr_from_start: "starts_with hay needle \<Longrightarrow> strstr hay needle"
  by (cases hay; cases needle) simp_all

lemma strstr_append: "strstr (pre @ needle @ post) needle"
proof (induction pre)
  case Nil
  show ?case using strstr_from_start[OF starts_with_append] by simp
next
  case (Cons c pre)
  then show ?case by simp
qed

lemma json_cmd_literal: "strstr (json_text p st) ''\"cmd\":1230''"
  unfolding json_text_def by (rule strstr_append)

lemma json_members_cmd: "json_members p (st\<lparr>cmd := c\<rparr>) = json_members p st"
  by (simp add: json_members_def)

lemma json_text_cmd: "json_text p (st\<lparr>cmd := c\<rparr>) = json_text p st"
  by (simp add: json_text_def json_members_cmd)

text \<open>
  Claim C10. For every status and every conversion of the numbers, the text that
  \<^verbatim>\<open>build_json\<close> formats contains the literal pair \<open>"cmd":1230\<close>, and neither the
  text nor the result of \<^verbatim>\<open>build_json\<close> depends on the \<open>cmd\<close> member of the status:
  two statuses that differ only there give the same output. The return value is
  the length of the text, and a buffer larger than the text receives all of it.
\<close>

theorem C10_json_cmd:
  "strstr (json_text p st) ''\"cmd\":1230'' \<and>
   json_text p (st\<lparr>cmd := c\<rparr>) = json_text p st \<and>
   build_json p (st\<lparr>cmd := c\<rparr>) bufsize = build_json p st bufsize \<and>
   fst (build_json p st bufsize) = int (length (json_text p st)) \<and>
   (length (json_text p st) < bufsize \<longrightarrow> snd (build_json p st bufsize) = json_text p st)"
  by (simp add: build_json_def json_text_cmd json_cmd_literal)

text \<open>
  The all-zero status in a buffer of 2048 bytes: the text fits, it holds the
  literal pair, and setting \<open>cmd\<close> to 7 changes nothing.
\<close>

theorem C10_json_cmd_witness:
  "length (json_text zero_conv zero_status) < 2048 \<and>
   snd (build_json zero_conv zero_status 2048) = json_text zero_conv zero_status \<and>
   strstr (snd (build_json zero_conv zero_status 2048)) ''\"cmd\":1230'' \<and>
   build_json zero_conv (zero_status\<lparr>cmd := 7\<rparr>) 2048 = build_json zero_conv zero_status 2048"
proof -
  have l: "length (json_text zero_conv zero_status) < 2048"
    by (simp add: json_text_def json_members_def zero_conv_def)
  from C10_json_cmd[of zero_conv zero_status 7 2048] l show ?thesis by simp
qed

end
